theory Spec2Isabelle
  imports Complex_Main
begin

section \<open>Python values used by the video pipeline\<close>

text \<open>
  The repository is two Python modules: \<^verbatim>\<open>video_processor.py\<close> (class
  \<^verbatim>\<open>VideoProcessor\<close>: detection, fall classification, annotation, the two worker
  loops, start and stop) and \<^verbatim>\<open>main.py\<close> (the Flask handlers that own the
  per-camera queues, status dictionaries and processors).  The embedding keeps the
  names of the source.  Exceptions are values of \<open>py_error\<close>; a function that can
  raise returns \<open>py_error + 'a\<close> with \<open>Inl\<close> for the raise.
\<close>

datatype py_error =
    OverflowError
  | ValueError
  | ZeroDivisionError
  | KeyError
  | Empty
  | MemoryError
  | LibraryError string

subsection \<open>Binary64 floating point\<close>

text \<open>
  Python's \<^verbatim>\<open>float\<close> is IEEE 754 binary64.  A finite float is represented by the
  rational number it denotes (the two zeros are not distinguished: they compare equal).
  \<open>round_binary64\<close> rounds a rational to the nearest binary64 value, ties to even,
  with the exponent unbounded above; a result of magnitude \<open>2 ^ 1024\<close> or more is
  the overflow case.  Below \<open>2 powi (- 1022)\<close> the spacing is that of the subnormals.
\<close>

function bit_length :: "int \<Rightarrow> int" where
  "bit_length n = (if n \<le> 0 then 0 else 1 + bit_length (n div 2))"
  by pat_completeness auto
termination
  by (relation "measure nat") auto

declare bit_length.simps [simp del]

definition ilog2 :: "rat \<Rightarrow> int" where
  \<comment> \<open>for \<open>q > 0\<close>: the integer \<open>e\<close> with \<open>2 powi e \<le> q < 2 powi (e + 1)\<close>\<close>
  "ilog2 q =
     (let (a, b) = quotient_of q;
          k = bit_length a - bit_length b
      in if 2 powi k \<le> q then k else k - 1)"

definition round_half_even :: "rat \<Rightarrow> int" where
  "round_half_even x =
     (let f = \<lfloor>x\<rfloor>; r = x - of_int f
      in if r < 1 / 2 then f
         else if 1 / 2 < r then f + 1
         else if even f then f else f + 1)"

definition round_binary64 :: "rat \<Rightarrow> rat" where
  "round_binary64 q =
     (if q = 0 then 0
      else let e = max (ilog2 \<bar>q\<bar>) (- 1022);
               u = 2 powi (e - 52)
           in of_int (round_half_even (q / u)) * u)"

definition binary64_overflow :: "rat \<Rightarrow> bool" where
  "binary64_overflow q = (2 ^ 1024 \<le> \<bar>round_binary64 q\<bar>)"

datatype pyfloat = Finite rat | PosInf | NegInf | NaN

text \<open>
  \<^verbatim>\<open>a / b\<close> on two Python ints: the correctly rounded quotient;
  \<^verbatim>\<open>ZeroDivisionError\<close> for a zero divisor, \<^verbatim>\<open>OverflowError\<close> when the
  quotient is too large for a float.
\<close>

definition int_truediv :: "int \<Rightarrow> int \<Rightarrow> py_error + pyfloat" where
  "int_truediv a b =
     (if b = 0 then Inl ZeroDivisionError
      else if binary64_overflow (of_int a / of_int b) then Inl OverflowError
      else Inr (Finite (round_binary64 (of_int a / of_int b))))"

text \<open>The conversion of an int operand in mixed int/float arithmetic.\<close>

definition int_to_float :: "int \<Rightarrow> py_error + pyfloat" where
  "int_to_float a =
     (if binary64_overflow (of_int a) then Inl OverflowError
      else Inr (Finite (round_binary64 (of_int a))))"

fun float_mul :: "pyfloat \<Rightarrow> pyfloat \<Rightarrow> pyfloat" where
  "float_mul NaN _ = NaN"
| "float_mul _ NaN = NaN"
| "float_mul (Finite a) (Finite b) =
     (if binary64_overflow (a * b) then (if 0 < a * b then PosInf else NegInf)
      else Finite (round_binary64 (a * b)))"
| "float_mul (Finite a) PosInf = (if a = 0 then NaN else if 0 < a then PosInf else NegInf)"
| "float_mul (Finite a) NegInf = (if a = 0 then NaN else if 0 < a then NegInf else PosInf)"
| "float_mul PosInf (Finite b) = (if b = 0 then NaN else if 0 < b then PosInf else NegInf)"
| "float_mul NegInf (Finite b) = (if b = 0 then NaN else if 0 < b then NegInf else PosInf)"
| "float_mul PosInf PosInf = PosInf"
| "float_mul PosInf NegInf = NegInf"
| "float_mul NegInf PosInf = NegInf"
| "float_mul NegInf NegInf = PosInf"

text \<open>\<^verbatim>\<open>n * x\<close> with an int \<open>n\<close> and a float \<open>x\<close>: the int is converted first.\<close>

definition int_mul_float :: "int \<Rightarrow> pyfloat \<Rightarrow> py_error + pyfloat" where
  "int_mul_float n x =
     (case int_to_float n of Inl e \<Rightarrow> Inl e | Inr y \<Rightarrow> Inr (float_mul y x))"

fun float_lt :: "pyfloat \<Rightarrow> pyfloat \<Rightarrow> bool" where
  "float_lt NaN _ = False"
| "float_lt _ NaN = False"
| "float_lt (Finite a) (Finite b) = (a < b)"
| "float_lt (Finite a) PosInf = True"
| "float_lt (Finite a) NegInf = False"
| "float_lt PosInf _ = False"
| "float_lt NegInf NegInf = False"
| "float_lt NegInf _ = True"

definition float_gt :: "pyfloat \<Rightarrow> pyfloat \<Rightarrow> bool" where
  "float_gt a b = float_lt b a"

text \<open>An int against a float: Python compares the exact values.\<close>

fun int_gt_float :: "int \<Rightarrow> pyfloat \<Rightarrow> bool" where
  "int_gt_float n (Finite b) = (b < of_int n)"
| "int_gt_float n PosInf = False"
| "int_gt_float n NegInf = True"
| "int_gt_float n NaN = False"

text \<open>\<^verbatim>\<open>int(x)\<close> on a float truncates towards zero and raises on infinities and NaN.\<close>

fun py_int :: "pyfloat \<Rightarrow> py_error + int" where
  "py_int (Finite q) = Inr (if 0 \<le> q then \<lfloor>q\<rfloor> else \<lceil>q\<rceil>)"
| "py_int PosInf = Inl OverflowError"
| "py_int NegInf = Inl OverflowError"
| "py_int NaN = Inl ValueError"

text \<open>The float literals of the source, as the binary64 values Python reads them as.\<close>

definition lit_0_8 :: pyfloat where
  "lit_0_8 = Finite (3602879701896397 / 4503599627370496)"

definition lit_0_6 :: pyfloat where
  "lit_0_6 = Finite (5404319552844595 / 9007199254740992)"

definition lit_0_3 :: pyfloat where
  "lit_0_3 = Finite (5404319552844595 / 18014398509481984)"

definition lit_0_5 :: pyfloat where
  "lit_0_5 = Finite (1 / 2)"

definition lit_0_001 :: pyfloat where
  "lit_0_001 = Finite (1152921504606847 / 1152921504606846976)"

definition lit_0_9 :: pyfloat where
  "lit_0_9 = Finite (8106479329266893 / 9007199254740992)"

section \<open>Data model\<close>

text \<open>
  A detection is the dictionary \<^verbatim>\<open>{'bbox': [x1, y1, x2, y2], 'confidence': conf, 'id': n}\<close>
  that \<^verbatim>\<open>detect_people\<close> and the synthetic source build.
\<close>

type_synonym bbox = "int \<times> int \<times> int \<times> int"

record detection =
  bbox :: bbox
  confidence :: pyfloat
  det_id :: nat

text \<open>
  What the detection model returns for a frame: a list of results, each with
  \<^verbatim>\<open>boxes\<close> (possibly \<^verbatim>\<open>None\<close>); a box carries the tensors \<^verbatim>\<open>cls\<close>,
  \<^verbatim>\<open>conf\<close> and \<^verbatim>\<open>xyxy\<close>, of which the source reads element 0.
\<close>

record yolo_box =
  box_cls :: pyfloat
  box_conf :: pyfloat
  box_xyxy :: "pyfloat \<times> pyfloat \<times> pyfloat \<times> pyfloat"

record yolo_result =
  boxes :: "yolo_box list option"

text \<open>
  A frame is an image array.  Its \<^verbatim>\<open>shape[:2]\<close> is \<open>(frame_rows, frame_cols)\<close>;
  its pixels are abstracted to where the image came from and the drawing calls applied
  to it, in order.
\<close>

type_synonym color = "int \<times> int \<times> int"

type_synonym point = "int \<times> int"

datatype overlay_text =
    Person_label nat pyfloat
  | Camera_label int
  | People_label int
  | Fall_banner
  | Avg_max_label pyfloat int
  | Timestamp_label string

datatype draw_op =
    Rectangle point point color int
  | PutText overlay_text point color int
  | AddWeighted "draw_op list"

datatype frame_source = Decoded nat | Synthetic color

record frame =
  frame_rows :: nat
  frame_cols :: nat
  origin :: frame_source
  drawn :: "draw_op list"

text \<open>
  \<^verbatim>\<open>queue.Queue(maxsize)\<close>: a FIFO, oldest entry first.  A blocking call that
  cannot proceed is the value \<open>Blocks\<close>.
\<close>

record 'a py_queue =
  maxsize :: int
  entries :: "'a list"

datatype 'a blocking = Blocks | Returns 'a

definition queue_full :: "'a py_queue \<Rightarrow> bool" where
  "queue_full q = (0 < maxsize q \<and> maxsize q \<le> int (length (entries q)))"

definition queue_empty :: "'a py_queue \<Rightarrow> bool" where
  "queue_empty q = (entries q = [])"

definition queue_get :: "'a py_queue \<Rightarrow> ('a \<times> 'a py_queue) blocking" where
  "queue_get q =
     (case entries q of [] \<Rightarrow> Blocks | x # xs \<Rightarrow> Returns (x, q\<lparr>entries := xs\<rparr>))"

definition queue_put :: "'a py_queue \<Rightarrow> 'a \<Rightarrow> 'a py_queue blocking" where
  "queue_put q x =
     (if queue_full q then Blocks else Returns (q\<lparr>entries := entries q @ [x]\<rparr>))"

definition queue_get_nowait :: "'a py_queue \<Rightarrow> py_error + ('a \<times> 'a py_queue)" where
  "queue_get_nowait q =
     (case entries q of [] \<Rightarrow> Inl Empty | x # xs \<Rightarrow> Inr (x, q\<lparr>entries := xs\<rparr>))"

text \<open>
  Status dictionaries are objects shared by reference between \<^verbatim>\<open>main.py\<close> and a
  processor (\<^verbatim>\<open>update_status\<close> stores the reference), so they live in a heap indexed
  by address.
\<close>

datatype pyval = PyNone | PyBool bool | PyInt int | PyStr string

type_synonym py_dict = "string \<rightharpoonup> pyval"

record dict_heap =
  cells :: "nat \<Rightarrow> py_dict"
  next_free :: nat

definition new_dict :: "dict_heap \<Rightarrow> py_dict \<Rightarrow> nat \<times> dict_heap" where
  "new_dict h d =
     (next_free h, h\<lparr>cells := (cells h)(next_free h := d), next_free := Suc (next_free h)\<rparr>)"

text \<open>
  The fields \<^verbatim>\<open>__init__\<close> sets.  \<^verbatim>\<open>frame_queue\<close> is a reference to the queue
  object the processor was constructed with: the key under which \<^verbatim>\<open>main.py\<close> keeps
  that object in \<^verbatim>\<open>frame_queues\<close>.  \<^verbatim>\<open>process_thread\<close> is the identifier of a
  thread object, \<^verbatim>\<open>status\<close> the address of a dictionary.  The lock is not a field:
  every function below runs as one step.
\<close>

type_synonym yolo_model = "frame \<Rightarrow> py_error + yolo_result list"

record VideoProcessor =
  camera_id :: int
  frame_queue :: int
  running :: bool
  process_thread :: "nat option"
  model :: "yolo_model option"
  status :: nat
  fall_history :: "bbox list"
  total_people_count :: int
  max_people_count :: int
  frame_count :: int

section \<open>\<^verbatim>\<open>VideoProcessor\<close>: construction and detection\<close>

text \<open>
  \<^verbatim>\<open>load_model\<close>: \<^verbatim>\<open>YOLO('yolov8n.pt')\<close> either returns a model or raises, and
  the \<^verbatim>\<open>except\<close> clause stores \<^verbatim>\<open>None\<close>.  The outcome of the library call is the argument
  \<open>loaded\<close>.
\<close>

definition load_model :: "py_error + yolo_model \<Rightarrow> VideoProcessor \<Rightarrow> VideoProcessor" where
  "load_model loaded self =
     (case loaded of Inr m \<Rightarrow> self\<lparr>model := Some m\<rparr> | Inl e \<Rightarrow> self\<lparr>model := None\<rparr>)"

definition init ::
  "int \<Rightarrow> int \<Rightarrow> py_error + yolo_model \<Rightarrow> dict_heap \<Rightarrow> VideoProcessor \<times> dict_heap" where
  "init cid queue_ref loaded h =
     (let (a, h') = new_dict h Map.empty
      in (load_model loaded
            \<lparr>camera_id = cid, frame_queue = queue_ref, running = False, process_thread = None, model = None,
             status = a, fall_history = [], total_people_count = 0,
             max_people_count = 0, frame_count = 0\<rparr>, h'))"

definition update_status :: "VideoProcessor \<Rightarrow> nat \<Rightarrow> VideoProcessor" where
  "update_status self a = self\<lparr>status := a\<rparr>"

text \<open>
  The body of the \<^verbatim>\<open>try\<close> in \<^verbatim>\<open>detect_people\<close>: the two nested loops over
  results and boxes, with the accumulators \<^verbatim>\<open>people_count\<close> and \<^verbatim>\<open>detections\<close>.
\<close>

definition xyxy_ints :: "pyfloat \<times> pyfloat \<times> pyfloat \<times> pyfloat \<Rightarrow> py_error + bbox" where
  "xyxy_ints t =
     (case t of (a, b, c, d) \<Rightarrow>
        (case py_int a of Inl e \<Rightarrow> Inl e | Inr x1 \<Rightarrow>
        (case py_int b of Inl e \<Rightarrow> Inl e | Inr y1 \<Rightarrow>
        (case py_int c of Inl e \<Rightarrow> Inl e | Inr x2 \<Rightarrow>
        (case py_int d of Inl e \<Rightarrow> Inl e | Inr y2 \<Rightarrow> Inr (x1, y1, x2, y2))))))"

fun scan_boxes ::
  "yolo_box list \<Rightarrow> int \<times> detection list \<Rightarrow> py_error + (int \<times> detection list)" where
  "scan_boxes [] acc = Inr acc"
| "scan_boxes (box # rest) (people_count, detections) =
     (case py_int (box_cls box) of
        Inl e \<Rightarrow> Inl e
      | Inr cls \<Rightarrow>
          (let conf = box_conf box
           in if cls = 0 \<and> float_gt conf lit_0_5
              then (case xyxy_ints (box_xyxy box) of
                      Inl e \<Rightarrow> Inl e
                    | Inr b \<Rightarrow>
                        scan_boxes rest
                          (people_count + 1,
                           detections @
                             [\<lparr>bbox = b, confidence = conf, det_id = length detections\<rparr>]))
              else scan_boxes rest (people_count, detections)))"

fun scan_results ::
  "yolo_result list \<Rightarrow> int \<times> detection list \<Rightarrow> py_error + (int \<times> detection list)" where
  "scan_results [] acc = Inr acc"
| "scan_results (result # rest) acc =
     (case boxes result of
        None \<Rightarrow> scan_results rest acc
      | Some bs \<Rightarrow>
          (case scan_boxes bs acc of
             Inl e \<Rightarrow> Inl e
           | Inr acc' \<Rightarrow> scan_results rest acc'))"

definition detect_people_try ::
  "yolo_model \<Rightarrow> frame \<Rightarrow> py_error + (frame \<times> int \<times> detection list)" where
  "detect_people_try m frame =
     (case m frame of
        Inl e \<Rightarrow> Inl e
      | Inr results \<Rightarrow>
          (case scan_results results (0, []) of
             Inl e \<Rightarrow> Inl e
           | Inr (people_count, detections) \<Rightarrow> Inr (frame, people_count, detections)))"

text \<open>
  \<^verbatim>\<open>detect_people\<close>: the result is a sum so that "does not raise" is a statement
  about the function and not about its type.
\<close>

definition detect_people ::
  "VideoProcessor \<Rightarrow> frame \<Rightarrow> py_error + (frame \<times> int \<times> detection list)" where
  "detect_people self frame =
     (case model self of
        None \<Rightarrow> Inr (frame, 0, [])
      | Some m \<Rightarrow>
          (case detect_people_try m frame of
             Inl e \<Rightarrow> Inr (frame, 0, [])
           | Inr r \<Rightarrow> Inr r))"

section \<open>Fall classification\<close>

text \<open>
  The body of the \<^verbatim>\<open>for\<close> loop of \<^verbatim>\<open>detect_fall\<close> for one detection: the
  verdict of the nested \<^verbatim>\<open>if\<close>s, or the exception the arithmetic raises.  The
  operands of \<^verbatim>\<open>and\<close> are evaluated left to right and only as far as needed.
\<close>

definition fall_check :: "detection \<Rightarrow> frame \<Rightarrow> py_error + bool" where
  "fall_check d frame =
     (case bbox d of (x1, y1, x2, y2) \<Rightarrow>
        (let width = x2 - x1; height = y2 - y1
         in if 0 < width
            then (case int_truediv height width of
                    Inl e \<Rightarrow> Inl e
                  | Inr aspect_ratio \<Rightarrow>
                      (let frame_height = int (frame_rows frame)
                       in case int_truediv (y1 + y2) 2 of
                            Inl e \<Rightarrow> Inl e
                          | Inr bbox_center_y \<Rightarrow>
                              if float_lt aspect_ratio lit_0_8
                              then (case int_mul_float frame_height lit_0_6 of
                                      Inl e \<Rightarrow> Inl e
                                    | Inr low \<Rightarrow>
                                        if float_gt bbox_center_y low
                                        then (case int_mul_float frame_height lit_0_3 of
                                                Inl e \<Rightarrow> Inl e
                                              | Inr tall \<Rightarrow> Inr (int_gt_float height tall))
                                        else Inr False)
                              else Inr False))
            else Inr False))"

text \<open>
  \<^verbatim>\<open>detect_fall\<close>: \<^verbatim>\<open>fall_detected\<close> and \<^verbatim>\<open>fall_bbox\<close> stay
  \<open>(False, None)\<close> until the assignment right before \<^verbatim>\<open>break\<close>, so the loop
  returns at the first detection whose check is true.  \<open>self\<close> is the receiver.
\<close>

fun detect_fall ::
  "VideoProcessor \<Rightarrow> detection list \<Rightarrow> frame \<Rightarrow> py_error + (bool \<times> bbox option)" where
  "detect_fall self [] frame = Inr (False, None)"
| "detect_fall self (d # ds) frame =
     (case fall_check d frame of
        Inl e \<Rightarrow> Inl e
      | Inr True \<Rightarrow> Inr (True, Some (bbox d))
      | Inr False \<Rightarrow> detect_fall self ds frame)"

section \<open>Annotation and running statistics\<close>

definition draw_on :: "frame \<Rightarrow> draw_op list \<Rightarrow> frame" where
  "draw_on frame ops = frame\<lparr>drawn := drawn frame @ ops\<rparr>"

text \<open>The two drawing calls of \<^verbatim>\<open>draw_detections\<close> for one detection.\<close>

definition draw_box :: "bool \<Rightarrow> bbox option \<Rightarrow> detection \<Rightarrow> draw_op list" where
  "draw_box fall_detected fall_bbox d =
     (case bbox d of (x1, y1, x2, y2) \<Rightarrow>
        (let color = (if fall_detected \<and> Some (bbox d) = fall_bbox
                      then (0, 0, 255) else (0, 255, 0))
         in [Rectangle (x1, y1) (x2, y2) color 2,
             PutText (Person_label (det_id d + 1) (confidence d)) (x1, y1 - 10) color 2]))"

text \<open>
  \<^verbatim>\<open>draw_statistics\<close> first updates the three counters of the processor and then
  draws.  The division for the average can raise; the counters are updated by then, so
  the processor is returned in either case.  \<open>now\<close> is the formatted reading of the
  clock.
\<close>

definition count_color :: "int \<Rightarrow> color" where
  "count_color people_count =
     (if people_count \<le> 10 then (0, 255, 0)
      else if people_count \<le> 20 then (0, 165, 255) else (0, 0, 255))"

definition draw_statistics ::
  "VideoProcessor \<Rightarrow> frame \<Rightarrow> int \<Rightarrow> bool \<Rightarrow> string \<Rightarrow> VideoProcessor \<times> (py_error + frame)" where
  "draw_statistics self frame people_count fall_detected now =
     (let width = int (frame_cols frame);
          self' = self\<lparr>total_people_count := total_people_count self + people_count,
                       frame_count := frame_count self + 1,
                       max_people_count := max (max_people_count self) people_count\<rparr>;
          band = [AddWeighted [Rectangle (0, 0) (width, 80) (40, 44, 52) (- 1)],
                  PutText (Camera_label (camera_id self')) (10, 30) (255, 255, 255) 2,
                  PutText (People_label people_count) (10, 60) (count_color people_count) 2];
          alert = (if fall_detected
                   then [Rectangle (width div 2 - 150, 10) (width div 2 + 150, 50) (0, 0, 255) (- 1),
                         PutText Fall_banner (width div 2 - 120, 40) (255, 255, 255) 2]
                   else [])
      in case int_truediv (total_people_count self') (max (frame_count self') 1) of
           Inl e \<Rightarrow> (self', Inl e)
         | Inr avg_count \<Rightarrow>
             (self',
              Inr (draw_on frame
                     (band @ alert @
                      [PutText (Avg_max_label avg_count (max_people_count self'))
                         (width - 300, 60) (200, 200, 200) 1,
                       PutText (Timestamp_label now) (width - 250, 30) (200, 200, 200) 1]))))"

definition draw_detections ::
  "VideoProcessor \<Rightarrow> frame \<Rightarrow> detection list \<Rightarrow> int \<Rightarrow> bool \<Rightarrow> bbox option \<Rightarrow> string
     \<Rightarrow> VideoProcessor \<times> (py_error + frame)" where
  "draw_detections self frame detections people_count fall_detected fall_bbox now =
     (let frame_copy = draw_on frame (concat (map (draw_box fall_detected fall_bbox) detections))
      in draw_statistics self frame_copy people_count fall_detected now)"

section \<open>The worker loops\<close>

text \<open>
  The status update both loops make under the lock: three item assignments on the
  dictionary \<^verbatim>\<open>self.status\<close> refers to.
\<close>

definition write_status :: "VideoProcessor \<Rightarrow> dict_heap \<Rightarrow> int \<Rightarrow> bool \<Rightarrow> string \<Rightarrow> dict_heap" where
  "write_status self h people_count fall_detected now =
     h\<lparr>cells := (cells h)(status self :=
          (cells h (status self))
            (''count'' \<mapsto> PyInt people_count,
             ''fall'' \<mapsto> PyBool fall_detected,
             ''timestamp'' \<mapsto> PyStr now))\<rparr>"

text \<open>
  The enqueue both loops make: \<^verbatim>\<open>if q.full(): q.get()\<close> and then
  \<^verbatim>\<open>q.put(frame)\<close>, both blocking calls.
\<close>

definition push_frame :: "'a py_queue \<Rightarrow> 'a \<Rightarrow> 'a py_queue blocking" where
  "push_frame q x =
     (if queue_full q
      then (case queue_get q of Blocks \<Rightarrow> Blocks | Returns (old, q') \<Rightarrow> queue_put q' x)
      else queue_put q x)"

text \<open>
  What one pass through a loop body makes of the loop, and the objects a worker shares
  with the request handlers: its processor, the dictionaries and its queue.
  \<^verbatim>\<open>time.sleep\<close> is not modelled.

  A \<open>tick\<close> is what one pass takes from outside the program: the two readings of the
  clock, and the outcome of \<^verbatim>\<open>frame.copy()\<close>, the first statement of
  \<^verbatim>\<open>draw_detections\<close>, which allocates a new array.  As with the loading of the
  model and the call of the model, the outcome of this library call is given with the
  pass: \<open>copy_fault\<close> is \<open>None\<close> when the copy is made and the exception when the
  call raises (\<^verbatim>\<open>MemoryError\<close> when the array cannot be allocated).
\<close>

datatype step_end = Continues | Returned | Raised py_error | Blocked

type_synonym shared = "VideoProcessor \<times> dict_heap \<times> frame py_queue"

record tick =
  overlay_clock :: string
  status_clock :: string
  copy_fault :: "py_error option"

text \<open>
  The three statements both loop bodies end with: the call of \<^verbatim>\<open>draw_detections\<close>,
  the status update and the enqueue.  None of them is inside a \<^verbatim>\<open>try\<close>.  When
  \<^verbatim>\<open>frame.copy()\<close> raises, nothing has been changed yet; \<open>draw_detections\<close> is
  the method once the copy is made.
\<close>

definition annotate_and_publish ::
  "VideoProcessor \<Rightarrow> dict_heap \<Rightarrow> frame py_queue \<Rightarrow> tick \<Rightarrow> frame \<Rightarrow> detection list \<Rightarrow> int
     \<Rightarrow> bool \<Rightarrow> bbox option \<Rightarrow> step_end \<times> shared" where
  "annotate_and_publish self h q t frame detections people_count fall_detected fall_bbox =
     (case copy_fault t of
        Some e \<Rightarrow> (Raised e, (self, h, q))
      | None \<Rightarrow>
          (case draw_detections self frame detections people_count fall_detected fall_bbox
                  (overlay_clock t) of
             (self', Inl e) \<Rightarrow> (Raised e, (self', h, q))
           | (self', Inr processed_frame) \<Rightarrow>
               (let h' = write_status self' h people_count fall_detected (status_clock t)
                in case push_frame q processed_frame of
                     Blocks \<Rightarrow> (Blocked, (self', h', q))
                   | Returns q' \<Rightarrow> (Continues, (self', h', q')))))"

text \<open>
  The body of the \<^verbatim>\<open>while\<close> loop of \<^verbatim>\<open>process_video_file\<close> after a successful
  \<^verbatim>\<open>cap.read()\<close>.  The body has no \<^verbatim>\<open>try\<close>: an exception of any call leaves the
  loop and the function.
\<close>

definition video_file_body ::
  "VideoProcessor \<Rightarrow> dict_heap \<Rightarrow> frame py_queue \<Rightarrow> tick \<Rightarrow> frame \<Rightarrow> step_end \<times> shared" where
  "video_file_body self h q t frame0 =
     (case detect_people self frame0 of
        Inl e \<Rightarrow> (Raised e, (self, h, q))
      | Inr (frame, people_count, detections) \<Rightarrow>
          (case detect_fall self detections frame of
             Inl e \<Rightarrow> (Raised e, (self, h, q))
           | Inr (fall_detected, fall_bbox) \<Rightarrow>
               annotate_and_publish self h q t frame detections people_count
                 fall_detected fall_bbox))"

text \<open>
  A capture: whether the file opened, and the frames it still has, each with the clock
  readings of the pass that processes it.
\<close>

record capture =
  opened :: bool
  pending :: "(frame \<times> tick) list"

fun process_video_frames ::
  "bool \<Rightarrow> (frame \<times> tick) list \<Rightarrow> VideoProcessor \<Rightarrow> dict_heap \<Rightarrow> frame py_queue
     \<Rightarrow> step_end \<times> shared" where
  "process_video_frames is_open [] self h q = (Returned, (self, h, q))"
| "process_video_frames is_open ((frame, t) # rest) self h q =
     (if running self \<and> is_open
      then (case video_file_body self h q t frame of
              (Continues, (self', h', q')) \<Rightarrow> process_video_frames is_open rest self' h' q'
            | (Returned, st) \<Rightarrow> (Returned, st)
            | (Raised e, st) \<Rightarrow> (Raised e, st)
            | (Blocked, st) \<Rightarrow> (Blocked, st))
      else (Returned, (self, h, q)))"

text \<open>
  \<^verbatim>\<open>process_video_file\<close> run on its own, with nothing else changing
  \<^verbatim>\<open>self.running\<close> meanwhile: the loop ends when the flag is false, the capture is
  exhausted or not open, or an exception leaves it.
\<close>

definition process_video_file ::
  "VideoProcessor \<Rightarrow> dict_heap \<Rightarrow> frame py_queue \<Rightarrow> capture \<Rightarrow> step_end \<times> shared" where
  "process_video_file self h q cap = process_video_frames (opened cap) (pending cap) self h q"

subsection \<open>The synthetic source\<close>

record person =
  pos_x :: int
  pos_y :: int
  vel_x :: int
  vel_y :: int
  fallen :: bool

definition person_positions :: "person list" where
  "person_positions =
     [\<lparr>pos_x = 100, pos_y = 200, vel_x = 2, vel_y = 1, fallen = False\<rparr>,
      \<lparr>pos_x = 300, pos_y = 300, vel_x = - 1, vel_y = 0, fallen = False\<rparr>,
      \<lparr>pos_x = 500, pos_y = 250, vel_x = 0, vel_y = - 1, fallen = False\<rparr>]"

text \<open>One person of the \<^verbatim>\<open>for\<close> loop: move and bounce, maybe fall, then the box.
  \<open>r\<close> is the value \<^verbatim>\<open>np.random.random()\<close> returns for this person.\<close>

definition move_person :: "int \<Rightarrow> int \<Rightarrow> person \<Rightarrow> person" where
  "move_person frame_width frame_height p =
     (if \<not> fallen p
      then (let p1 = p\<lparr>pos_x := pos_x p + vel_x p, pos_y := pos_y p + vel_y p\<rparr>;
                p2 = (if pos_x p1 < 50 \<or> frame_width - 50 < pos_x p1
                      then p1\<lparr>vel_x := vel_x p1 * (- 1)\<rparr> else p1)
            in if pos_y p2 < 100 \<or> frame_height - 100 < pos_y p2
               then p2\<lparr>vel_y := vel_y p2 * (- 1)\<rparr> else p2)
      else p)"

definition maybe_fall :: "pyfloat \<Rightarrow> person \<Rightarrow> person" where
  "maybe_fall r p =
     (if float_lt r lit_0_001 \<and> \<not> fallen p
      then p\<lparr>fallen := True, vel_x := 0, vel_y := 0\<rparr> else p)"

definition person_box :: "person \<Rightarrow> bbox" where
  "person_box p =
     (let box_size = (if \<not> fallen p then 30 else 60)
      in (pos_x p - box_size div 2,
          pos_y p - box_size div (if \<not> fallen p then 2 else 1),
          pos_x p + box_size div 2,
          pos_y p + box_size div (if fallen p then 2 else 1)))"

fun simulate_people ::
  "nat \<Rightarrow> person list \<Rightarrow> (nat \<Rightarrow> pyfloat) \<Rightarrow> detection list \<times> bool \<times> bbox option
     \<Rightarrow> person list \<times> detection list \<times> bool \<times> bbox option" where
  "simulate_people i [] rand acc = ([], acc)"
| "simulate_people i (p # ps) rand (detections, fall_detected, fall_bbox) =
     (let p' = maybe_fall (rand i) (move_person 640 480 p);
          b = person_box p';
          acc' = (detections @ [\<lparr>bbox = b, confidence = lit_0_9, det_id = i\<rparr>],
                  (if fallen p' then True else fall_detected),
                  (if fallen p' then Some b else fall_bbox));
          (ps', out) = simulate_people (Suc i) ps rand acc'
      in (p' # ps', out))"

record ip_tick = tick +
  randoms :: "nat \<Rightarrow> pyfloat"

definition blank_frame :: frame where
  "blank_frame =
     \<lparr>frame_rows = 480, frame_cols = 640, origin = Synthetic (60, 63, 65),
      drawn = [Rectangle (0, 480 - 50) (640, 480) (100, 100, 100) (- 1)]\<rparr>"

text \<open>The body of the \<^verbatim>\<open>while\<close> loop of \<^verbatim>\<open>process_ip_camera\<close>; the list of
  persons is the local variable \<^verbatim>\<open>person_positions\<close> of the running function.\<close>

definition ip_camera_body ::
  "VideoProcessor \<Rightarrow> dict_heap \<Rightarrow> frame py_queue \<Rightarrow> ip_tick \<Rightarrow> person list
     \<Rightarrow> person list \<times> step_end \<times> shared" where
  "ip_camera_body self h q t people =
     (case simulate_people 0 people (randoms t) ([], False, None) of
        (people', detections, fall_detected, fall_bbox) \<Rightarrow>
          (people',
           annotate_and_publish self h q (tick.truncate t) blank_frame detections
             (int (length detections)) fall_detected fall_bbox))"

section \<open>Start and stop\<close>

text \<open>
  A thread object: its identifier, the processor whose method it runs (by the key of
  that processor in \<^verbatim>\<open>video_processors\<close>) and the local state of the running
  target.  \<open>threads\<close> of the runtime are the threads that were started and whose target
  has not returned or raised.
\<close>

datatype job = File_job capture | Ip_job "person list"

record thread =
  thread_id :: nat
  owner :: int
  locals :: job

record runtime =
  threads :: "thread list"
  next_thread :: nat

definition spawn :: "runtime \<Rightarrow> int \<Rightarrow> job \<Rightarrow> nat \<times> runtime" where
  "spawn rt cid j =
     (next_thread rt,
      rt\<lparr>threads := threads rt @ [\<lparr>thread_id = next_thread rt, owner = cid, locals = j\<rparr>],
         next_thread := Suc (next_thread rt)\<rparr>)"

text \<open>\<^verbatim>\<open>start_video_file\<close>; \<open>cap\<close> is what \<^verbatim>\<open>cv2.VideoCapture(file_path)\<close> gives
  the new thread.\<close>

definition start_video_file :: "VideoProcessor \<Rightarrow> runtime \<Rightarrow> capture \<Rightarrow> VideoProcessor \<times> runtime" where
  "start_video_file self rt cap =
     (let (t, rt') = spawn rt (camera_id self) (File_job cap)
      in (self\<lparr>running := True, process_thread := Some t\<rparr>, rt'))"

definition start_ip_camera :: "VideoProcessor \<Rightarrow> runtime \<Rightarrow> string \<Rightarrow> VideoProcessor \<times> runtime" where
  "start_ip_camera self rt ip_url =
     (let (t, rt') = spawn rt (camera_id self) (Ip_job person_positions)
      in (self\<lparr>running := True, process_thread := Some t\<rparr>, rt'))"

text \<open>The loop of \<^verbatim>\<open>stop\<close> that empties the queue; an exception of
  \<^verbatim>\<open>get_nowait\<close> is passed over.\<close>

function clear_queue :: "'a py_queue \<Rightarrow> 'a py_queue" where
  "clear_queue q =
     (if \<not> queue_empty q
      then (case queue_get_nowait q of
              Inl e \<Rightarrow> clear_queue q
            | Inr (x, q') \<Rightarrow> clear_queue q')
      else q)"
  by pat_completeness auto
termination
  by (relation "measure (\<lambda>q. length (entries q))")
     (auto simp: queue_empty_def queue_get_nowait_def split: list.splits)

declare clear_queue.simps [simp del]

text \<open>
  \<^verbatim>\<open>stop\<close>: \<^verbatim>\<open>join(timeout=2)\<close> waits for the thread at most the timeout and
  returns \<^verbatim>\<open>None\<close> whether or not the thread has ended; \<open>joined\<close> says which.  It
  changes none of the objects.
\<close>

definition stop :: "VideoProcessor \<Rightarrow> bool \<Rightarrow> 'a py_queue \<Rightarrow> VideoProcessor \<times> 'a py_queue" where
  "stop self joined q =
     (let self' = self\<lparr>running := False\<rparr>
      in (self', clear_queue q))"

text \<open>
  What the join inside \<^verbatim>\<open>stop\<close> means for the threads.  A join that returns because
  the thread has ended (\<open>joined\<close>) is a join on a thread that runs no longer: the thread
  found the flag false at the test of its loop, or had ended before.  A join that
  returns on the timeout leaves the thread running.  No other thread is joined.
\<close>

definition thread_join :: "runtime \<Rightarrow> nat option \<Rightarrow> bool \<Rightarrow> runtime" where
  "thread_join r handle joined =
     (case handle of
        None \<Rightarrow> r
      | Some t \<Rightarrow>
          if joined then r\<lparr>threads := filter (\<lambda>th. thread_id th \<noteq> t) (threads r)\<rparr> else r)"

section \<open>The request handlers of \<^verbatim>\<open>main.py\<close>\<close>

text \<open>
  The module-level state: the four queues (created once, never replaced), the processors
  created so far, the status dictionary of each camera (replaced by a new dictionary on
  every source change), the heap of dictionaries and the threads.  A handler runs as one
  step.
\<close>

record app =
  frame_queues :: "int \<rightharpoonup> frame py_queue"
  video_processors :: "int \<rightharpoonup> VideoProcessor"
  camera_status :: "int \<rightharpoonup> nat"
  dicts :: dict_heap
  rt :: runtime

definition offline_status :: py_dict where
  "offline_status =
     [''type'' \<mapsto> PyStr ''offline'', ''url'' \<mapsto> PyNone,
      ''count'' \<mapsto> PyInt 0, ''fall'' \<mapsto> PyBool False]"

definition initial_app :: app where
  "initial_app =
     \<lparr>frame_queues =
        [1 \<mapsto> \<lparr>maxsize = 10, entries = []\<rparr>, 2 \<mapsto> \<lparr>maxsize = 10, entries = []\<rparr>,
         3 \<mapsto> \<lparr>maxsize = 10, entries = []\<rparr>, 4 \<mapsto> \<lparr>maxsize = 10, entries = []\<rparr>],
      video_processors = Map.empty,
      camera_status = [1 \<mapsto> 0, 2 \<mapsto> 1, 3 \<mapsto> 2, 4 \<mapsto> 3],
      dicts = \<lparr>cells = (\<lambda>a. if a < 4 then offline_status else Map.empty), next_free = 4\<rparr>,
      rt = \<lparr>threads = [], next_thread = 0\<rparr>\<rparr>"

datatype response = Success | Bad_request | Server_error py_error

text \<open>\<^verbatim>\<open>get_processor\<close>; \<open>loaded\<close> is the outcome of loading the detection model
  should a processor be constructed.\<close>

definition get_processor :: "app \<Rightarrow> int \<Rightarrow> py_error + yolo_model \<Rightarrow> py_error + (VideoProcessor \<times> app)" where
  "get_processor a cid loaded =
     (case video_processors a cid of
        Some p \<Rightarrow> Inr (p, a)
      | None \<Rightarrow>
          (case frame_queues a cid of
             None \<Rightarrow> Inl KeyError
           | Some q \<Rightarrow>
               (let (p, h') = init cid cid loaded (dicts a)
                in Inr (p, a\<lparr>video_processors := (video_processors a)(cid \<mapsto> p), dicts := h'\<rparr>))))"

definition set_camera_status :: "app \<Rightarrow> int \<Rightarrow> py_dict \<Rightarrow> app" where
  "set_camera_status a cid d =
     (let (addr, h') = new_dict (dicts a) d
      in a\<lparr>camera_status := (camera_status a)(cid \<mapsto> addr), dicts := h'\<rparr>)"

text \<open>\<^verbatim>\<open>set_ip\<close>: \<open>ip\<close> is \<^verbatim>\<open>data.get('ip')\<close>, \<open>now\<close> the clock reading.\<close>

definition set_ip ::
  "app \<Rightarrow> int \<Rightarrow> string option \<Rightarrow> string \<Rightarrow> py_error + yolo_model \<Rightarrow> response \<times> app" where
  "set_ip a cid ip now loaded =
     (case ip of
        None \<Rightarrow> (Bad_request, a)
      | Some ip_address \<Rightarrow>
          if ip_address = [] then (Bad_request, a)
          else
            (let a1 = set_camera_status a cid
                        [''type'' \<mapsto> PyStr ''ip_camera'', ''url'' \<mapsto> PyStr ip_address,
                         ''count'' \<mapsto> PyInt 0, ''fall'' \<mapsto> PyBool False,
                         ''timestamp'' \<mapsto> PyStr now]
             in case get_processor a1 cid loaded of
                  Inl e \<Rightarrow> (Server_error e, a1)
                | Inr (processor, a2) \<Rightarrow>
                    (let (processor', rt') = start_ip_camera processor (rt a2) ip_address
                     in (Success,
                         a2\<lparr>video_processors := (video_processors a2)(cid \<mapsto> processor'),
                            rt := rt'\<rparr>))))"

text \<open>
  \<^verbatim>\<open>upload_file\<close>: \<open>file\<close> is the name of the uploaded file if the request has the
  part, \<open>filename\<close> the name the handler formats for the saved copy and \<open>cap\<close> what
  opening that copy gives.
\<close>

definition upload_file ::
  "app \<Rightarrow> string option \<Rightarrow> int \<Rightarrow> string \<Rightarrow> string \<Rightarrow> py_error + yolo_model \<Rightarrow> capture
     \<Rightarrow> response \<times> app" where
  "upload_file a file cid filename now loaded cap =
     (case file of
        None \<Rightarrow> (Bad_request, a)
      | Some name \<Rightarrow>
          if name = [] then (Bad_request, a)
          else
            (let a1 = set_camera_status a cid
                        [''type'' \<mapsto> PyStr ''video_file'', ''url'' \<mapsto> PyStr filename,
                         ''count'' \<mapsto> PyInt 0, ''fall'' \<mapsto> PyBool False,
                         ''timestamp'' \<mapsto> PyStr now]
             in case get_processor a1 cid loaded of
                  Inl e \<Rightarrow> (Server_error e, a1)
                | Inr (processor, a2) \<Rightarrow>
                    (let (processor', rt') = start_video_file processor (rt a2) cap
                     in (Success,
                         a2\<lparr>video_processors := (video_processors a2)(cid \<mapsto> processor'),
                            rt := rt'\<rparr>))))"

text \<open>\<^verbatim>\<open>close_camera\<close>; \<open>joined\<close> is the outcome of the join inside \<^verbatim>\<open>stop\<close>,
  which is a join on the thread the processor has the handle of.\<close>

definition close_camera :: "app \<Rightarrow> int \<Rightarrow> bool \<Rightarrow> response \<times> app" where
  "close_camera a cid joined =
     (let a1 = set_camera_status a cid offline_status
      in case video_processors a1 cid of
           None \<Rightarrow> (Success, a1)
         | Some p \<Rightarrow>
             (case frame_queues a1 (frame_queue p) of
                None \<Rightarrow> (Server_error KeyError, a1)
              | Some q \<Rightarrow>
                  (let (p', q') = stop p joined q
                   in (Success,
                       a1\<lparr>video_processors := (video_processors a1)(cid \<mapsto> p'),
                          frame_queues := (frame_queues a1)(frame_queue p \<mapsto> q'),
                          rt := thread_join (rt a1) (process_thread p) joined\<rparr>))))"

text \<open>
  One pass of the generator of \<^verbatim>\<open>test_feed\<close> for a camera whose processor exists:
  a frame taken from the queue makes the processor's \<^verbatim>\<open>status\<close> refer to the
  camera's current dictionary; an empty queue (the timeout) changes nothing.
\<close>

definition feed_next :: "app \<Rightarrow> int \<Rightarrow> frame option \<times> app" where
  "feed_next a cid =
     (case (frame_queues a cid, video_processors a cid, camera_status a cid) of
        (Some q, Some p, Some addr) \<Rightarrow>
          (case entries q of
             [] \<Rightarrow> (None, a)
           | f # fs \<Rightarrow>
               (Some f,
                a\<lparr>frame_queues := (frame_queues a)(cid \<mapsto> q\<lparr>entries := fs\<rparr>),
                  video_processors := (video_processors a)(cid \<mapsto> update_status p addr)\<rparr>))
      | _ \<Rightarrow> (None, a))"

subsection \<open>A worker thread taking one pass\<close>

text \<open>
  One pass of the loop of thread \<open>t\<close>, from the test of the loop condition to the end of
  the body.  A thread whose loop ends, or whose body raises, is no longer among the
  threads; a thread in a blocking call stays as it is.
\<close>

definition finish :: "app \<Rightarrow> nat \<Rightarrow> app" where
  "finish a t =
     a\<lparr>rt := (rt a)\<lparr>threads := filter (\<lambda>th. thread_id th \<noteq> t) (threads (rt a))\<rparr>\<rparr>"

definition set_locals :: "app \<Rightarrow> nat \<Rightarrow> job \<Rightarrow> app" where
  "set_locals a t j =
     a\<lparr>rt := (rt a)\<lparr>threads :=
          map (\<lambda>th. if thread_id th = t then th\<lparr>locals := j\<rparr> else th) (threads (rt a))\<rparr>\<rparr>"

definition publish :: "app \<Rightarrow> int \<Rightarrow> shared \<Rightarrow> app" where
  "publish a cid st =
     (case st of (p, h, q) \<Rightarrow>
        a\<lparr>video_processors := (video_processors a)(cid \<mapsto> p),
          dicts := h,
          frame_queues := (frame_queues a)(frame_queue p \<mapsto> q)\<rparr>)"

definition settle :: "app \<Rightarrow> nat \<Rightarrow> int \<Rightarrow> job \<Rightarrow> step_end \<times> shared \<Rightarrow> app" where
  "settle a t cid j r =
     (case r of
        (Continues, st) \<Rightarrow> set_locals (publish a cid st) t j
      | (Blocked, st) \<Rightarrow> publish a cid st
      | (Returned, st) \<Rightarrow> finish (publish a cid st) t
      | (Raised e, st) \<Rightarrow> finish (publish a cid st) t)"

definition worker_step :: "app \<Rightarrow> nat \<Rightarrow> ip_tick \<Rightarrow> app" where
  "worker_step a t tk =
     (case find (\<lambda>th. thread_id th = t) (threads (rt a)) of
        None \<Rightarrow> a
      | Some th \<Rightarrow>
          (case video_processors a (owner th) of
             None \<Rightarrow> a
           | Some p \<Rightarrow>
               (case frame_queues a (frame_queue p) of
                  None \<Rightarrow> a
                | Some q \<Rightarrow>
                    (case locals th of
                       Ip_job people \<Rightarrow>
                         if running p
                         then (case ip_camera_body p (dicts a) q tk people of
                                 (people', r) \<Rightarrow> settle a t (owner th) (Ip_job people') r)
                         else finish a t
                     | File_job cap \<Rightarrow>
                         if running p \<and> opened cap
                         then (case pending cap of
                                 [] \<Rightarrow> finish a t
                               | (frame, ft) # rest \<Rightarrow>
                                   settle a t (owner th) (File_job (cap\<lparr>pending := rest\<rparr>))
                                     (video_file_body p (dicts a) q ft frame))
                         else finish a t))))"

section \<open>Notions used in the statements, and sample inputs\<close>

definition all_boxes :: "yolo_result list \<Rightarrow> yolo_box list" where
  "all_boxes results = concat (map (\<lambda>r. case boxes r of None \<Rightarrow> [] | Some bs \<Rightarrow> bs) results)"

definition from_box :: "detection \<Rightarrow> yolo_box \<Rightarrow> bool" where
  "from_box d b =
     (py_int (box_cls b) = Inr 0 \<and> float_gt (box_conf b) lit_0_5 \<and>
      confidence d = box_conf b \<and> xyxy_ints (box_xyxy b) = Inr (bbox d))"

fun label_numbers :: "draw_op list \<Rightarrow> nat list" where
  "label_numbers [] = []"
| "label_numbers (PutText (Person_label n c) pos col w # ops) = n # label_numbers ops"
| "label_numbers (other # ops) = label_numbers ops"

definition demo_frame :: frame where
  "demo_frame = \<lparr>frame_rows = 480, frame_cols = 640, origin = Decoded 0, drawn = []\<rparr>"

definition numbered_frames :: "nat list \<Rightarrow> frame list" where
  "numbered_frames ns = map (\<lambda>n. demo_frame\<lparr>origin := Decoded n\<rparr>) ns"

definition demo_results :: "yolo_result list" where
  "demo_results =
     [\<lparr>boxes = Some
         [\<lparr>box_cls = Finite 0, box_conf = lit_0_9,
           box_xyxy = (Finite 100, Finite 250, Finite 400, Finite 450)\<rparr>,
          \<lparr>box_cls = Finite 2, box_conf = lit_0_9,
           box_xyxy = (Finite 10, Finite 10, Finite 50, Finite 90)\<rparr>,
          \<lparr>box_cls = Finite 0, box_conf = lit_0_5,
           box_xyxy = (Finite 200, Finite 100, Finite 260, Finite 300)\<rparr>]\<rparr>,
      \<lparr>boxes = None\<rparr>,
      \<lparr>boxes = Some
         [\<lparr>box_cls = Finite 0, box_conf = lit_0_8,
           box_xyxy = (Finite 300, Finite 100, Finite 350, Finite 300)\<rparr>]\<rparr>]"

definition demo_model :: yolo_model where
  "demo_model frame = Inr demo_results"

definition demo_processor :: VideoProcessor where
  "demo_processor =
     fst (init 1 1 (Inr demo_model) \<lparr>cells = (\<lambda>a. Map.empty), next_free = 0\<rparr>)"

definition demo_detections :: "detection list" where
  "demo_detections =
     [\<lparr>bbox = (100, 250, 400, 450), confidence = lit_0_9, det_id = 0\<rparr>,
      \<lparr>bbox = (300, 100, 350, 300), confidence = lit_0_8, det_id = 1\<rparr>]"

text \<open>The spacing of the binary64 values around a nonzero rational.\<close>

definition binary64_ulp :: "rat \<Rightarrow> rat" where
  "binary64_ulp q = 2 powi (max (ilog2 \<bar>q\<bar>) (- 1022) - 52)"

text \<open>
  Pixel coordinates: whole numbers that fit a signed 32-bit integer, as image
  dimensions and the boxes clipped to an image do.
\<close>

definition pixel :: "int \<Rightarrow> bool" where
  "pixel v = (- (2 ^ 31) \<le> v \<and> v < 2 ^ 31)"

definition pixel_box :: "bbox \<Rightarrow> bool" where
  "pixel_box b = (case b of (x1, y1, x2, y2) \<Rightarrow> pixel x1 \<and> pixel y1 \<and> pixel x2 \<and> pixel y2)"

text \<open>
  The test of the fall classifier in the words of the specification, in exact arithmetic:
  positive width, aspect ratio below 0.8, centre lower than 0.6 of the frame height and
  height above 0.3 of the frame height.
\<close>

definition qualifies :: "nat \<Rightarrow> detection \<Rightarrow> bool" where
  "qualifies frame_height d =
     (case bbox d of (x1, y1, x2, y2) \<Rightarrow>
        (let width = x2 - x1; height = y2 - y1
         in 0 < width \<and>
            (of_int height / of_int width :: rat) < 8 / 10 \<and>
            (6 / 10 * of_nat frame_height :: rat) < of_int (y1 + y2) / 2 \<and>
            (3 / 10 * of_nat frame_height :: rat) < of_int height))"

definition fall_demo :: "detection list" where
  "fall_demo =
     [\<lparr>bbox = (50, 300, 50, 340), confidence = lit_0_9, det_id = 0\<rparr>,
      \<lparr>bbox = (300, 100, 350, 300), confidence = lit_0_9, det_id = 1\<rparr>,
      \<lparr>bbox = (100, 250, 400, 450), confidence = lit_0_8, det_id = 2\<rparr>,
      \<lparr>bbox = (0, 300, 400, 460), confidence = lit_0_9, det_id = 3\<rparr>]"

text \<open>Pushing a list of frames one after the other, and taking \<open>n\<close> entries out.\<close>

fun push_all :: "'a py_queue \<Rightarrow> 'a list \<Rightarrow> 'a py_queue blocking" where
  "push_all q [] = Returns q"
| "push_all q (x # xs) =
     (case push_frame q x of Blocks \<Rightarrow> Blocks | Returns q' \<Rightarrow> push_all q' xs)"

fun gets :: "nat \<Rightarrow> 'a py_queue \<Rightarrow> ('a list \<times> 'a py_queue) blocking" where
  "gets 0 q = Returns ([], q)"
| "gets (Suc n) q =
     (case queue_get q of
        Blocks \<Rightarrow> Blocks
      | Returns (x, q') \<Rightarrow>
          (case gets n q' of
             Blocks \<Rightarrow> Blocks
           | Returns (xs, q'') \<Rightarrow> Returns (x # xs, q'')))"

text \<open>
  A sequence of calls of \<^verbatim>\<open>draw_detections\<close> on one processor, the pairs of average and
  maximum written on a frame, and the three counters of a processor.
\<close>

record draw_call =
  call_frame :: frame
  call_detections :: "detection list"
  call_count :: int
  call_fall :: bool
  call_bbox :: "bbox option"
  call_now :: string

definition draw_call_on :: "VideoProcessor \<Rightarrow> draw_call \<Rightarrow> VideoProcessor \<times> (py_error + frame)" where
  "draw_call_on self c =
     draw_detections self (call_frame c) (call_detections c) (call_count c) (call_fall c)
       (call_bbox c) (call_now c)"

fun after_calls :: "VideoProcessor \<Rightarrow> draw_call list \<Rightarrow> VideoProcessor" where
  "after_calls self [] = self"
| "after_calls self (c # cs) = after_calls (fst (draw_call_on self c)) cs"

fun avg_max_drawn :: "draw_op list \<Rightarrow> (pyfloat \<times> int) list" where
  "avg_max_drawn [] = []"
| "avg_max_drawn (PutText (Avg_max_label avg mx) pos col w # ops) = (avg, mx) # avg_max_drawn ops"
| "avg_max_drawn (other # ops) = avg_max_drawn ops"

definition counters :: "VideoProcessor \<Rightarrow> int \<times> int \<times> int" where
  "counters self = (total_people_count self, frame_count self, max_people_count self)"

definition count_calls :: "int list \<Rightarrow> draw_call list" where
  "count_calls cs =
     map (\<lambda>c. \<lparr>call_frame = demo_frame, call_detections = [], call_count = c,
               call_fall = False, call_bbox = None, call_now = ''2024-01-01 00:00:00''\<rparr>) cs"

text \<open>
  An entry of the status dictionary a camera currently has, the entries of all
  dictionaries other than the three a worker writes, and a sample run: camera 1 set to an
  IP source while the detection model fails to load.
\<close>

definition status_entry :: "app \<Rightarrow> int \<Rightarrow> string \<Rightarrow> pyval option" where
  "status_entry a cid k =
     (case camera_status a cid of None \<Rightarrow> None | Some addr \<Rightarrow> cells (dicts a) addr k)"

definition demo_load_failure :: "py_error + yolo_model" where
  "demo_load_failure = Inl (LibraryError ''yolov8n.pt: no such file'')"

definition demo_app1 :: app where
  "demo_app1 =
     snd (set_ip initial_app 1 (Some ''rtsp://10.0.0.7/live'') ''2024-01-01T00:00:00''
            demo_load_failure)"

definition demo_app_busy :: app where
  "demo_app_busy =
     demo_app1\<lparr>frame_queues :=
       (frame_queues demo_app1)(1 \<mapsto> \<lparr>maxsize = 10, entries = numbered_frames [1, 2, 3]\<rparr>)\<rparr>"

definition demo_worker1 :: VideoProcessor where
  "demo_worker1 =
     \<lparr>camera_id = 1, frame_queue = 1, running = True, process_thread = Some 0, model = None,
      status = 5, fall_history = [], total_people_count = 0, max_people_count = 0,
      frame_count = 0\<rparr>"

definition other_entries :: "dict_heap \<Rightarrow> dict_heap \<Rightarrow> bool" where
  "other_entries h h' =
     (\<forall>addr k. k \<notin> {''count'', ''fall'', ''timestamp''} \<longrightarrow> cells h' addr k = cells h addr k)"

definition demo_tick :: ip_tick where
  "demo_tick =
     \<lparr>overlay_clock = ''2024-01-01 00:00:01'', status_clock = ''2024-01-01T00:00:01'',
      copy_fault = None, randoms = (\<lambda>i. lit_0_5)\<rparr>"

text \<open>The threads running for a camera, and camera 1 given a second IP source while the
  first is being processed.\<close>

definition workers_of :: "app \<Rightarrow> int \<Rightarrow> thread list" where
  "workers_of a cid = filter (\<lambda>th. owner th = cid) (threads (rt a))"

definition demo_app2 :: app where
  "demo_app2 =
     snd (set_ip demo_app1 1 (Some ''rtsp://10.0.0.8/live'') ''2024-01-01T00:00:05''
            demo_load_failure)"

text \<open>
  A detection model whose call raises, a capture of three frames with the copy of the
  second failing, and camera 2 given that capture.
\<close>

definition demo_failing_model :: yolo_model where
  "demo_failing_model frame = Inl (LibraryError ''CUDA out of memory'')"

definition demo_capture :: capture where
  "demo_capture =
     \<lparr>opened = True,
      pending =
        [(demo_frame\<lparr>origin := Decoded 1\<rparr>,
          \<lparr>overlay_clock = ''2024-01-01 00:00:01'', status_clock = ''2024-01-01T00:00:01'',
            copy_fault = None\<rparr>),
         (demo_frame\<lparr>origin := Decoded 2\<rparr>,
          \<lparr>overlay_clock = ''2024-01-01 00:00:02'', status_clock = ''2024-01-01T00:00:02'',
            copy_fault = Some MemoryError\<rparr>),
         (demo_frame\<lparr>origin := Decoded 3\<rparr>,
          \<lparr>overlay_clock = ''2024-01-01 00:00:03'', status_clock = ''2024-01-01T00:00:03'',
            copy_fault = None\<rparr>)]\<rparr>"

definition demo_app_video :: app where
  "demo_app_video =
     snd (upload_file initial_app (Some ''clip.mp4'') 2 ''camera_2_20240101_000000_clip.mp4''
            ''2024-01-01T00:00:00'' (Inr demo_failing_model) demo_capture)"

definition demo_worker2 :: VideoProcessor where
  "demo_worker2 =
     \<lparr>camera_id = 2, frame_queue = 2, running = True, process_thread = Some 0,
      model = Some demo_failing_model, status = 5, fall_history = [], total_people_count = 0,
      max_people_count = 0, frame_count = 0\<rparr>"

text \<open>
  Camera 2 given a file that cannot be opened; camera 1 closed with the join timing
  out; camera 1 closed with the join completed, and then given the second IP source.
\<close>

definition demo_app_unreadable :: app where
  "demo_app_unreadable =
     snd (upload_file initial_app (Some ''clip.mp4'') 2 ''camera_2_20240101_000000_clip.mp4''
            ''2024-01-01T00:00:00'' (Inr demo_failing_model) \<lparr>opened = False, pending = []\<rparr>)"

definition demo_app_stopping :: app where
  "demo_app_stopping = snd (close_camera demo_app1 1 False)"

definition demo_app_closed :: app where
  "demo_app_closed = snd (close_camera demo_app1 1 True)"

definition demo_app3 :: app where
  "demo_app3 =
     snd (set_ip demo_app_closed 1 (Some ''rtsp://10.0.0.8/live'') ''2024-01-01T00:00:05''
            demo_load_failure)"

section \<open>Binary64 rounding\<close>

lemma bit_length_pos: "0 < n \<Longrightarrow> 0 < bit_length n"
proof (induction n rule: bit_length.induct)
  case (1 n)
  have "0 \<le> bit_length (n div 2)"
  proof (cases "0 < n div 2")
    case True
    with 1 show ?thesis by simp
  next
    case False
    then show ?thesis by (simp add: bit_length.simps [of "n div 2"])
  qed
  with "1.prems" show ?case by (simp add: bit_length.simps [of n])
qed

lemma bit_length_bounds:
  "0 < n \<Longrightarrow> 2 ^ nat (bit_length n - 1) \<le> n \<and> n < 2 ^ nat (bit_length n)"
proof (induction n rule: bit_length.induct)
  case (1 n)
  show ?case
  proof (cases "n = 1")
    case True
    then show ?thesis
      by (simp add: bit_length.simps [of 1] bit_length.simps [of 0])
  next
    case False
    with "1.prems" have h: "0 < n div 2" by simp
    from "1.IH" [OF _ h] "1.prems"
    have lo: "2 ^ nat (bit_length (n div 2) - 1) \<le> n div 2"
      and hi: "n div 2 < 2 ^ nat (bit_length (n div 2))" by simp_all
    have bl: "bit_length n = 1 + bit_length (n div 2)"
      using "1.prems" by (simp add: bit_length.simps [of n])
    have p: "0 < bit_length (n div 2)" using h by (rule bit_length_pos)
    have e1: "nat (bit_length n - 1) = Suc (nat (bit_length (n div 2) - 1))"
      using p bl by simp
    have e2: "nat (bit_length n) = Suc (nat (bit_length (n div 2)))"
      using p bl by simp
    have "2 * 2 ^ nat (bit_length (n div 2) - 1) \<le> 2 * (n div 2)" using lo by simp
    also have "\<dots> \<le> n" by simp
    finally have a: "2 ^ nat (bit_length n - 1) \<le> n" by (simp add: e1)
    have "n div 2 + 1 \<le> 2 ^ nat (bit_length (n div 2))" using hi by simp
    then have "2 * (n div 2) + 2 \<le> 2 * 2 ^ nat (bit_length (n div 2))" by simp
    moreover have "n < 2 * (n div 2) + 2" by presburger
    ultimately have b: "n < 2 ^ nat (bit_length n)" by (simp add: e2)
    from a b show ?thesis ..
  qed
qed

lemma bit_length_powi:
  assumes "0 < n"
  shows "(2::rat) powi (bit_length n - 1) \<le> of_int n" "of_int n < (2::rat) powi (bit_length n)"
proof -
  from bit_length_bounds [OF assms] bit_length_pos [OF assms]
  have lo: "2 ^ nat (bit_length n - 1) \<le> n" and hi: "n < 2 ^ nat (bit_length n)"
    and p: "0 < bit_length n" by simp_all
  have "(of_int (2 ^ nat (bit_length n - 1)) :: rat) \<le> of_int n"
    using lo by (simp only: of_int_le_iff)
  then show "(2::rat) powi (bit_length n - 1) \<le> of_int n"
    using p by (simp add: power_int_def)
  have "(of_int n :: rat) < of_int (2 ^ nat (bit_length n))"
    using hi by (simp only: of_int_less_iff)
  then show "of_int n < (2::rat) powi (bit_length n)"
    using p by (simp add: power_int_def)
qed

lemma ilog2_bounds:
  assumes "0 < q"
  shows "2 powi (ilog2 q) \<le> q" "q < 2 powi (ilog2 q + 1)"
proof -
  obtain a b where ab: "quotient_of q = (a, b)" by (cases "quotient_of q")
  then have b: "0 < b" and q: "q = of_int a / of_int b"
    by (auto simp: quotient_of_denom_pos quotient_of_div)
  from assms q b have a: "0 < a"
    by (simp add: zero_less_divide_iff)
  define k where "k = bit_length a - bit_length b"
  have il: "ilog2 q = (if 2 powi k \<le> q then k else k - 1)"
    by (simp add: ilog2_def ab k_def)
  note A = bit_length_powi [OF a] and B = bit_length_powi [OF b]
  have bpos: "(0::rat) < of_int b" using b by simp
  have two: "(2::rat) \<noteq> 0" by simp
  have up: "q < 2 powi (k + 1)"
  proof -
    have "of_int a < (2::rat) powi (bit_length a)" by (rule A(2))
    also have "\<dots> = 2 powi (k + 1) * 2 powi (bit_length b - 1)"
      by (simp add: k_def power_int_add [symmetric])
    also have "\<dots> \<le> 2 powi (k + 1) * of_int b"
      using B(1) by (intro mult_left_mono) simp_all
    finally show ?thesis using bpos by (simp add: q pos_divide_less_eq)
  qed
  have low: "2 powi (k - 1) \<le> q"
  proof -
    have "2 powi (k - 1) * of_int b \<le> (2::rat) powi (k - 1) * 2 powi (bit_length b)"
      using B(2) by (intro mult_left_mono) simp_all
    also have "\<dots> = 2 powi (bit_length a - 1)"
      by (simp add: k_def power_int_add [symmetric])
    also have "\<dots> \<le> of_int a" by (rule A(1))
    finally show ?thesis using bpos by (simp add: q pos_le_divide_eq)
  qed
  show "2 powi (ilog2 q) \<le> q" using il low by simp
  show "q < 2 powi (ilog2 q + 1)" using il up by (auto simp: not_le)
qed

lemma powi_less_exp: "(2::rat) powi a < 2 powi b \<Longrightarrow> a < b"
  using power_int_increasing [of b a "2::rat"] by (cases "a < b") auto

lemma powi_le_exp: "(2::rat) powi a \<le> 2 powi b \<Longrightarrow> a \<le> b"
  using power_int_strict_increasing [of b a "2::rat"] by (cases "a \<le> b") auto

lemma ilog2_less: "0 < q \<Longrightarrow> q < 2 powi k \<Longrightarrow> ilog2 q < k"
  using ilog2_bounds(1) [of q] powi_less_exp [of "ilog2 q" k] by simp

lemma ilog2_ge: "0 < q \<Longrightarrow> 2 powi k \<le> q \<Longrightarrow> k \<le> ilog2 q"
proof -
  assume q: "0 < q" and k: "2 powi k \<le> q"
  from ilog2_bounds(2) [OF q] k have "(2::rat) powi k < 2 powi (ilog2 q + 1)" by simp
  from powi_less_exp [OF this] show ?thesis by simp
qed

lemma round_half_even_error: "\<bar>of_int (round_half_even x) - x\<bar> \<le> 1 / 2"
proof -
  have "of_int \<lfloor>x\<rfloor> \<le> x" "x < of_int \<lfloor>x\<rfloor> + 1" by linarith+
  then show ?thesis
    by (auto simp: round_half_even_def Let_def abs_le_iff)
qed

lemma round_half_even_near:
  assumes "\<bar>x - of_int n\<bar> < 1 / 2"
  shows "round_half_even x = n"
proof -
  have "\<bar>(of_int (round_half_even x) :: rat) - of_int n\<bar> < 1"
    using round_half_even_error [of x] assms by linarith
  then have "\<bar>(of_int (round_half_even x - n) :: rat)\<bar> < 1" by simp
  then have "\<bar>round_half_even x - n\<bar> < 1"
    by (metis of_int_1 of_int_abs of_int_less_iff)
  then show ?thesis by simp
qed

lemma round_half_even_of_int [simp]: "round_half_even (of_int n) = n"
  by (rule round_half_even_near) simp

lemma round_half_even_ge: "of_int n \<le> x \<Longrightarrow> n \<le> round_half_even x"
proof -
  assume "of_int n \<le> x"
  then have "n \<le> \<lfloor>x\<rfloor>" by (simp add: le_floor_iff)
  then show ?thesis by (auto simp: round_half_even_def Let_def)
qed

lemma round_half_even_le: "x \<le> of_int n \<Longrightarrow> round_half_even x \<le> n"
proof -
  assume le: "x \<le> of_int n"
  show ?thesis
  proof (cases "x = of_int n")
    case True
    then show ?thesis by simp
  next
    case False
    with le have "x < of_int n" by simp
    then have "\<lfloor>x\<rfloor> < n" by (simp add: floor_less_iff)
    then show ?thesis by (auto simp: round_half_even_def Let_def)
  qed
qed

lemma binary64_ulp_pos: "0 < binary64_ulp q"
  by (simp add: binary64_ulp_def)

lemma round_binary64_ulp:
  "q \<noteq> 0 \<Longrightarrow> round_binary64 q = of_int (round_half_even (q / binary64_ulp q)) * binary64_ulp q"
  by (simp add: round_binary64_def binary64_ulp_def Let_def)

lemma round_binary64_error: "\<bar>round_binary64 q - q\<bar> \<le> binary64_ulp q / 2"
proof (cases "q = 0")
  case True
  then show ?thesis using binary64_ulp_pos [of q] by (simp add: round_binary64_def)
next
  case False
  let ?u = "binary64_ulp q"
  have u: "0 < ?u" by (rule binary64_ulp_pos)
  have "\<bar>of_int (round_half_even (q / ?u)) - q / ?u\<bar> * ?u \<le> 1 / 2 * ?u"
    using round_half_even_error [of "q / ?u"] u by (intro mult_right_mono) simp_all
  moreover have "\<bar>of_int (round_half_even (q / ?u)) - q / ?u\<bar> * ?u =
      \<bar>of_int (round_half_even (q / ?u)) * ?u - q\<bar>"
  proof -
    have "\<bar>of_int (round_half_even (q / ?u)) - q / ?u\<bar> * ?u =
        \<bar>(of_int (round_half_even (q / ?u)) - q / ?u) * ?u\<bar>"
      using u by (simp add: abs_mult)
    also have "(of_int (round_half_even (q / ?u)) - q / ?u) * ?u =
        of_int (round_half_even (q / ?u)) * ?u - q"
      using u by (simp add: algebra_simps)
    finally show ?thesis .
  qed
  ultimately show ?thesis using False by (simp add: round_binary64_ulp)
qed

lemma round_binary64_exact:
  assumes "q / binary64_ulp q = of_int n"
  shows "round_binary64 q = q"
proof (cases "q = 0")
  case True
  then show ?thesis by (simp add: round_binary64_def)
next
  case False
  have "0 < binary64_ulp q" by (rule binary64_ulp_pos)
  then have "q = of_int n * binary64_ulp q"
    using assms by (simp add: field_simps)
  then show ?thesis using False assms by (simp add: round_binary64_ulp)
qed

lemma round_binary64_near:
  assumes "q \<noteq> 0" and "x / binary64_ulp q = of_int n" and "\<bar>q - x\<bar> < binary64_ulp q / 2"
  shows "round_binary64 q = x"
proof -
  let ?u = "binary64_ulp q"
  have u: "0 < ?u" by (rule binary64_ulp_pos)
  have "\<bar>q / ?u - of_int n\<bar> = \<bar>(q - x) / ?u\<bar>"
    using assms(2) by (simp add: diff_divide_distrib)
  also have "\<dots> = \<bar>q - x\<bar> / ?u" using u by simp
  also have "\<dots> < 1 / 2" using assms(3) u by (simp add: field_simps)
  finally have "round_half_even (q / ?u) = n" by (rule round_half_even_near)
  moreover have "x = of_int n * ?u" using assms(2) u by (simp add: field_simps)
  ultimately show ?thesis using assms(1) by (simp add: round_binary64_ulp)
qed

lemma powi_split: "(2::rat) powi (a + b) = 2 powi a * 2 powi b"
  by (simp add: power_int_add)

lemma binary64_ulp_le:
  assumes "q \<noteq> 0" and "\<bar>q\<bar> < 2 powi k" and "- 1021 \<le> k"
  shows "binary64_ulp q \<le> 2 powi (k - 53)"
proof -
  have "ilog2 \<bar>q\<bar> < k" using assms(1,2) by (intro ilog2_less) simp_all
  then have "max (ilog2 \<bar>q\<bar>) (- 1022) - 52 \<le> k - 53" using assms(3) by simp
  then show ?thesis
    unfolding binary64_ulp_def by (intro power_int_increasing) simp_all
qed

lemma binary64_ulp_normal:
  assumes "2 powi k \<le> \<bar>q\<bar>" and "- 1022 \<le> k"
  shows "binary64_ulp q = 2 powi (ilog2 \<bar>q\<bar> - 52)" "k \<le> ilog2 \<bar>q\<bar>"
proof -
  have "0 < (2::rat) powi k" by simp
  with assms(1) have pos: "0 < \<bar>q\<bar>" by linarith
  from ilog2_ge [OF pos assms(1)] show k: "k \<le> ilog2 \<bar>q\<bar>" .
  with assms(2) have "max (ilog2 \<bar>q\<bar>) (- 1022) = ilog2 \<bar>q\<bar>" by simp
  then show "binary64_ulp q = 2 powi (ilog2 \<bar>q\<bar> - 52)" by (simp add: binary64_ulp_def)
qed

lemma binary64_no_overflow:
  assumes "\<bar>q\<bar> < 2 ^ 1023"
  shows "\<not> binary64_overflow q"
proof (cases "q = 0")
  case True
  then show ?thesis by (simp add: binary64_overflow_def round_binary64_def)
next
  case False
  have "\<bar>q\<bar> < 2 powi 1023" using assms by simp
  from binary64_ulp_le [OF False this] have "binary64_ulp q \<le> 2 powi 970" by simp
  then have u: "binary64_ulp q \<le> 2 ^ 970" by simp
  have "\<bar>round_binary64 q\<bar> \<le> \<bar>q\<bar> + binary64_ulp q / 2"
    using round_binary64_error [of q] by linarith
  also have "\<dots> < 2 ^ 1023 + 2 ^ 970 / 2" using assms u by linarith
  also have "\<dots> < (2::rat) ^ 1024" by simp
  finally show ?thesis by (simp add: binary64_overflow_def)
qed

lemma binary64_overflow_large:
  assumes "2 ^ 1024 \<le> \<bar>q\<bar>"
  shows "binary64_overflow q"
proof -
  let ?u = "binary64_ulp q"
  let ?e = "ilog2 \<bar>q\<bar>"
  have big: "2 powi 1024 \<le> \<bar>q\<bar>" using assms by simp
  from binary64_ulp_normal [OF big] have u: "?u = 2 powi (?e - 52)" and e: "1024 \<le> ?e"
    by simp_all
  have q0: "q \<noteq> 0" using assms by auto
  have upos: "0 < ?u" by (rule binary64_ulp_pos)
  have lo: "2 powi ?e \<le> \<bar>q\<bar>" using q0 by (intro ilog2_bounds) simp
  have split: "(2::rat) powi ?e = 2 powi 52 * ?u"
    using powi_split [of 52 "?e - 52"] by (simp only: u) simp
  with lo have "2 powi 52 * ?u \<le> \<bar>q\<bar>" by simp
  then have scaled: "(of_int (2 ^ 52) :: rat) \<le> \<bar>q\<bar> / ?u"
    using upos by (simp add: pos_le_divide_eq)
  have r: "(2 ^ 52 :: int) \<le> \<bar>round_half_even (q / ?u)\<bar>"
  proof (cases "0 \<le> q")
    case True
    with scaled have "(of_int (2 ^ 52) :: rat) \<le> q / ?u" by simp
    from round_half_even_ge [OF this] show ?thesis by simp
  next
    case False
    with scaled have "q / ?u \<le> (of_int (- (2 ^ 52)) :: rat)" by simp
    from round_half_even_le [OF this] show ?thesis by simp
  qed
  have "\<bar>round_binary64 q\<bar> = of_int \<bar>round_half_even (q / ?u)\<bar> * ?u"
    using q0 upos by (simp add: round_binary64_ulp abs_mult)
  moreover have "(of_int (2 ^ 52) :: rat) * ?u \<le> of_int \<bar>round_half_even (q / ?u)\<bar> * ?u"
  proof (rule mult_right_mono)
    show "(of_int (2 ^ 52) :: rat) \<le> of_int \<bar>round_half_even (q / ?u)\<bar>"
      using r by (simp only: of_int_le_iff)
    show "0 \<le> ?u" using upos by simp
  qed
  moreover have "(of_int (2 ^ 52) :: rat) * ?u = 2 powi ?e"
    using split by simp
  moreover have "(2::rat) powi 1024 \<le> 2 powi ?e"
    using e by (intro power_int_increasing) simp_all
  ultimately show ?thesis by (simp add: binary64_overflow_def)
qed

lemma round_binary64_dyadic:
  assumes "q = of_int n / 2 ^ j" and "q \<noteq> 0" and "2 powi (- 1022) \<le> \<bar>q\<bar>"
    and "\<bar>q\<bar> < 2 powi (53 - int j)"
  shows "round_binary64 q = q"
proof -
  let ?e = "ilog2 \<bar>q\<bar>"
  from binary64_ulp_normal [OF assms(3)] have u: "binary64_ulp q = 2 powi (?e - 52)" by simp
  have "?e < 53 - int j" using assms(2,4) by (intro ilog2_less) simp_all
  then have nn: "0 \<le> 52 - ?e - int j" by simp
  have "binary64_ulp q * 2 powi (52 - ?e) = 1"
    using powi_split [of "?e - 52" "52 - ?e"] by (simp add: u)
  moreover have "0 < binary64_ulp q" by (rule binary64_ulp_pos)
  ultimately have inv: "1 / binary64_ulp q = 2 powi (52 - ?e)"
    by (simp add: field_simps)
  have "(2::rat) ^ j * 2 powi (- int j) = 1"
    using powi_split [of "int j" "- int j"] by simp
  then have invj: "1 / (2::rat) ^ j = 2 powi (- int j)"
    by (simp add: field_simps)
  have "q / binary64_ulp q = (of_int n * (1 / 2 ^ j)) * (1 / binary64_ulp q)"
    by (simp add: assms(1))
  also have "\<dots> = of_int n * (2 powi (- int j) * 2 powi (52 - ?e))"
    by (simp only: inv invj mult.assoc)
  also have "2 powi (- int j) * (2::rat) powi (52 - ?e) = 2 powi (52 - ?e - int j)"
    using powi_split [of "- int j" "52 - ?e"] by (simp add: algebra_simps)
  also have "\<dots> = of_int (2 ^ nat (52 - ?e - int j))"
    using nn by (simp add: power_int_def)
  finally have "q / binary64_ulp q = of_int (n * 2 ^ nat (52 - ?e - int j))" by simp
  then show ?thesis by (rule round_binary64_exact)
qed

lemma round_binary64_int:
  assumes "\<bar>n\<bar> < 2 ^ 53"
  shows "round_binary64 (of_int n) = of_int n"
proof (cases "n = 0")
  case True
  then show ?thesis by (simp add: round_binary64_def)
next
  case False
  then have "1 \<le> \<bar>n\<bar>" by simp
  then have one: "(1::rat) \<le> \<bar>of_int n\<bar>" by (metis of_int_1 of_int_abs of_int_le_iff)
  have "(2::rat) powi (- 1022) \<le> 2 powi 0" by (intro power_int_increasing) simp_all
  with one have lo: "2 powi (- 1022) \<le> \<bar>(of_int n :: rat)\<bar>" by simp
  have "(of_int \<bar>n\<bar> :: rat) < of_int (2 ^ 53)" using assms by (simp only: of_int_less_iff)
  then have hi: "\<bar>(of_int n :: rat)\<bar> < 2 powi (53 - int 0)" by simp
  show ?thesis
    using round_binary64_dyadic [of "of_int n" n 0, OF _ _ lo hi] False by simp
qed

lemma round_binary64_half:
  assumes "\<bar>m\<bar> < 2 ^ 53"
  shows "round_binary64 (of_int m / 2) = of_int m / 2"
proof (cases "m = 0")
  case True
  then show ?thesis by (simp add: round_binary64_def)
next
  case False
  then have "1 \<le> \<bar>m\<bar>" by simp
  then have one: "(1::rat) \<le> \<bar>of_int m\<bar>" by (metis of_int_1 of_int_abs of_int_le_iff)
  have "(2::rat) powi (- 1022) \<le> 2 powi (- 1)" by (intro power_int_increasing) simp_all
  with one have lo: "2 powi (- 1022) \<le> \<bar>(of_int m / 2 :: rat)\<bar>" by simp
  have "(of_int \<bar>m\<bar> :: rat) < of_int (2 ^ 53)" using assms by (simp only: of_int_less_iff)
  then have hi: "\<bar>(of_int m / 2 :: rat)\<bar> < 2 powi (53 - int 1)" by simp
  show ?thesis
    using round_binary64_dyadic [of "of_int m / 2" m 1, OF _ _ lo hi] False by simp
qed

lemma round_binary64_nonpos: "q \<le> 0 \<Longrightarrow> round_binary64 q \<le> 0"
proof (cases "q = 0")
  case True
  then show ?thesis by (simp add: round_binary64_def)
next
  case False
  assume "q \<le> 0"
  have u: "0 < binary64_ulp q" by (rule binary64_ulp_pos)
  with \<open>q \<le> 0\<close> have "q / binary64_ulp q \<le> of_int 0" by (simp add: divide_le_0_iff)
  from round_half_even_le [OF this] have "round_half_even (q / binary64_ulp q) \<le> 0" .
  then have "(of_int (round_half_even (q / binary64_ulp q)) :: rat) \<le> 0" by simp
  then show ?thesis
    using False u by (simp add: round_binary64_ulp mult_le_0_iff)
qed

lemma round_0_8: "round_binary64 (4 / 5) = 3602879701896397 / 4503599627370496"
  by code_simp

lemma aspect_ratio_exact:
  fixes h w :: int
  assumes w: "0 < w" "w \<le> 2 ^ 32" and h: "\<bar>h\<bar> \<le> 2 ^ 32"
  shows "round_binary64 (of_int h / of_int w) < 3602879701896397 / 4503599627370496
           \<longleftrightarrow> (of_int h / of_int w :: rat) < 4 / 5"
proof -
  define q :: rat where "q = of_int h / of_int w"
  have wpos: "(0::rat) < of_int w" using w(1) by simp
  have wle: "(of_int w :: rat) \<le> 2 ^ 32"
    using w(2) by (metis of_int_le_iff of_int_numeral of_int_power)
  have inv: "1 / 21474836480 \<le> 1 / (5 * (of_int w :: rat))"
    using wpos wle by (simp add: field_simps)
  have "\<bar>round_binary64 q - q\<bar> \<le> binary64_ulp q / 2" by (rule round_binary64_error)
  then have err: "round_binary64 q \<le> q + binary64_ulp q / 2"
      "q - binary64_ulp q / 2 \<le> round_binary64 q" by linarith+
  consider (eq) "5 * h = 4 * w" | (lt) "5 * h < 4 * w" | (gt) "4 * w < 5 * h" by linarith
  then show ?thesis
  proof cases
    case eq
    then have "(of_int (5 * h) :: rat) = of_int (4 * w)" by simp
    then have q45: "q = 4 / 5" using wpos by (simp add: q_def field_simps)
    then have r45: "round_binary64 q = 3602879701896397 / 4503599627370496"
      by (simp only: round_0_8)
    show ?thesis unfolding q_def [symmetric] r45 unfolding q45 by simp
  next
    case lt
    then have "5 * h + 1 \<le> 4 * w" by simp
    then have "(of_int (5 * h + 1) :: rat) \<le> of_int (4 * w)" by (simp only: of_int_le_iff)
    then have "q \<le> 4 / 5 - 1 / (5 * of_int w)"
      using wpos by (simp add: q_def field_simps)
    with inv have qle: "q \<le> 4 / 5 - 1 / 21474836480" by linarith
    have "round_binary64 q < 4 / 5"
    proof (cases "q \<le> 0")
      case True
      from round_binary64_nonpos [OF this] show ?thesis by simp
    next
      case False
      then have q0: "q \<noteq> 0" and "\<bar>q\<bar> < 2 powi 0" using qle by simp_all
      from binary64_ulp_le [OF this] have "binary64_ulp q \<le> 2 powi (- 53)" by simp
      then have "binary64_ulp q \<le> 1 / 9007199254740992" by (simp add: power_int_minus_divide)
      with err qle show ?thesis by linarith
    qed
    moreover have "q < 4 / 5" using qle by simp
    ultimately show ?thesis by (simp add: q_def [symmetric])
  next
    case gt
    then have "4 * w + 1 \<le> 5 * h" by simp
    then have "(of_int (4 * w + 1) :: rat) \<le> of_int (5 * h)" by (simp only: of_int_le_iff)
    then have "(of_int (4 * w + 1) :: rat) / (5 * of_int w) \<le> of_int (5 * h) / (5 * of_int w)"
      using wpos by (intro divide_right_mono) simp_all
    moreover have "(of_int (5 * h) :: rat) / (5 * of_int w) = q"
      by (simp add: q_def)
    moreover have "4 / 5 + 1 / (5 * of_int w) = (of_int (4 * w + 1) :: rat) / (5 * of_int w)"
      using wpos by (simp add: field_simps)
    ultimately have "4 / 5 + 1 / (5 * of_int w) \<le> q" by simp
    with inv have qge: "4 / 5 + 1 / 21474836480 \<le> q" by linarith
    have "(of_int \<bar>h\<bar> :: rat) \<le> of_int (2 ^ 32)" using h by (simp only: of_int_le_iff)
    then have habs: "\<bar>(of_int h :: rat)\<bar> \<le> 2 ^ 32" by simp
    have "1 \<le> w" using w(1) by simp
    then have w1: "(1::rat) \<le> of_int w" by (metis of_int_1 of_int_le_iff)
    have "\<bar>q\<bar> = \<bar>(of_int h :: rat)\<bar> / of_int w"
      using wpos by (simp add: q_def)
    also have "\<dots> \<le> \<bar>(of_int h :: rat)\<bar> / 1"
      using w1 by (intro divide_left_mono) simp_all
    finally have "\<bar>q\<bar> \<le> \<bar>(of_int h :: rat)\<bar>" by simp
    with habs have qabs: "\<bar>q\<bar> \<le> 2 ^ 32" by linarith
    have "3602879701896397 / 4503599627370496 \<le> round_binary64 q"
    proof (cases "q < 1")
      case True
      with qge have q0: "q \<noteq> 0" and "\<bar>q\<bar> < 2 powi 0" by simp_all
      from binary64_ulp_le [OF this] have "binary64_ulp q \<le> 2 powi (- 53)" by simp
      then have "binary64_ulp q \<le> 1 / 9007199254740992" by (simp add: power_int_minus_divide)
      with err qge show ?thesis by linarith
    next
      case False
      with qabs have q0: "q \<noteq> 0" and "\<bar>q\<bar> < 2 powi 33" by simp_all
      from binary64_ulp_le [OF this] have "binary64_ulp q \<le> 2 powi (- 20)" by simp
      then have "binary64_ulp q \<le> 1 / 1048576" by (simp add: power_int_minus_divide)
      with err False show ?thesis by linarith
    qed
    moreover have "\<not> q < 4 / 5" using qge by simp
    ultimately show ?thesis by (simp add: q_def [symmetric])
  qed
qed

lemma round_3k:
  fixes k :: int
  assumes "0 < k" and "k < 2 ^ 31"
  shows "round_binary64 (of_int k * (27021597764222975 / 9007199254740992)) = of_int (3 * k)"
proof -
  define x :: rat where "x = of_int k * (27021597764222975 / 9007199254740992)"
  let ?e = "ilog2 \<bar>x\<bar>"
  have "1 \<le> k" using assms(1) by simp
  then have k1: "(1::rat) \<le> of_int k" by (metis of_int_1 of_int_le_iff)
  have "(of_int k :: rat) < of_int (2 ^ 31)" using assms(2) by (simp only: of_int_less_iff)
  then have k31: "(of_int k :: rat) < 2147483648" by simp
  have xlo: "2 * of_int k \<le> x" and xhi: "x < 3 * of_int k"
    using k1 by (simp_all add: x_def)
  have xpos: "0 < x" and x0: "x \<noteq> 0" using xlo k1 by simp_all
  have "2 powi 1 \<le> \<bar>x\<bar>" using xlo k1 by simp
  from binary64_ulp_normal [OF this]
  have u: "binary64_ulp x = 2 powi (?e - 52)" and e1: "1 \<le> ?e" by simp_all
  have "\<bar>x\<bar> < 2 powi 33" using xhi k31 xpos by simp
  with x0 have "?e < 33" by (intro ilog2_less) simp_all
  then have nn: "0 \<le> 52 - ?e" by simp
  have "binary64_ulp x * 2 powi (52 - ?e) = 1"
    using powi_split [of "?e - 52" "52 - ?e"] by (simp add: u)
  moreover have upos: "0 < binary64_ulp x" by (rule binary64_ulp_pos)
  ultimately have inv: "1 / binary64_ulp x = 2 powi (52 - ?e)"
    by (simp add: field_simps)
  have "(of_int (3 * k) :: rat) / binary64_ulp x = of_int (3 * k) * (1 / binary64_ulp x)"
    by simp
  also have "\<dots> = of_int (3 * k) * of_int (2 ^ nat (52 - ?e))"
    using nn by (simp only: inv) (simp add: power_int_def)
  finally have integral: "(of_int (3 * k) :: rat) / binary64_ulp x = of_int (3 * k * 2 ^ nat (52 - ?e))"
    by simp
  have "\<bar>x\<bar> < 2 powi (?e + 1)" using x0 by (intro ilog2_bounds) simp
  moreover have "(2::rat) powi (?e + 1) = 2 powi 54 * 2 powi (?e - 53)"
    using powi_split [of 54 "?e - 53"] by (simp add: add.commute)
  ultimately have "x < 18014398509481984 * 2 powi (?e - 53)" using xpos by simp
  with xlo have half: "of_int k / 9007199254740992 < (2::rat) powi (?e - 53)" by linarith
  have "(2::rat) powi (?e - 52) = 2 powi 1 * 2 powi (?e - 53)"
    using powi_split [of 1 "?e - 53"] by simp
  then have u2: "binary64_ulp x / 2 = 2 powi (?e - 53)" by (simp add: u)
  have d: "\<bar>x - of_int (3 * k)\<bar> = of_int k / 9007199254740992"
    using k1 by (simp add: x_def abs_if field_simps)
  have close: "\<bar>x - of_int (3 * k)\<bar> < binary64_ulp x / 2"
    unfolding u2 d by (rule half)
  show ?thesis
    using round_binary64_near [OF x0 integral close] by (simp add: x_def)
qed

lemma threshold_close:
  fixes fh :: int and c C :: rat
  assumes "0 \<le> fh" and "fh < 2 ^ 31" and "0 \<le> c" and "c \<le> 1" and "\<bar>C - c\<bar> \<le> 1 / 2 ^ 53"
  shows "\<bar>round_binary64 (of_int fh * c) - of_int fh * C\<bar> < 1 / 10"
proof -
  define x :: rat where "x = of_int fh * c"
  have f0: "(0::rat) \<le> of_int fh" using assms(1) by simp
  have "(of_int fh :: rat) < of_int (2 ^ 31)" using assms(2) by (simp only: of_int_less_iff)
  then have f31: "(of_int fh :: rat) < 2147483648" by simp
  have "x \<le> of_int fh * 1" unfolding x_def using assms(4) f0 by (intro mult_left_mono)
  then have xle: "x \<le> of_int fh" by simp
  have x0: "0 \<le> x" using f0 assms(3) by (simp add: x_def)
  have err: "\<bar>round_binary64 x - x\<bar> \<le> 1 / 8388608"
  proof (cases "x = 0")
    case True
    then show ?thesis by (simp add: round_binary64_def)
  next
    case False
    moreover have "\<bar>x\<bar> < 2 powi 31" using xle x0 f31 by simp
    ultimately have "binary64_ulp x \<le> 2 powi (31 - 53)" by (intro binary64_ulp_le) simp_all
    then have "binary64_ulp x \<le> 1 / 4194304" by (simp add: power_int_minus_divide)
    with round_binary64_error [of x] show ?thesis by linarith
  qed
  have "\<bar>x - of_int fh * C\<bar> = of_int fh * \<bar>C - c\<bar>"
    using f0 by (simp add: x_def abs_mult right_diff_distrib [symmetric] abs_minus_commute)
  also have "\<dots> \<le> of_int fh * (1 / 2 ^ 53)"
    using assms(5) f0 by (intro mult_left_mono)
  also have "\<dots> \<le> 2147483648 * (1 / 2 ^ 53)"
    using f31 by (intro mult_right_mono) simp_all
  finally have "\<bar>x - of_int fh * C\<bar> \<le> 1 / 4194304" by simp
  with err show ?thesis unfolding x_def by linarith
qed

lemma low_threshold:
  fixes fh m :: int
  assumes "0 \<le> fh" and "fh < 2 ^ 31"
  shows "round_binary64 (of_int fh * (5404319552844595 / 9007199254740992)) < of_int m / 2
           \<longleftrightarrow> (6 / 10 * of_int fh :: rat) < of_int m / 2"
proof (cases "5 dvd fh")
  case True
  then obtain k where k: "fh = 5 * k" ..
  show ?thesis
  proof (cases "k = 0")
    case True
    with k show ?thesis by (simp add: round_binary64_def)
  next
    case False
    with k assms have kb: "0 < k" "k < 2 ^ 31" by simp_all
    have arg: "of_int fh * (5404319552844595 / 9007199254740992) =
        (of_int k :: rat) * (27021597764222975 / 9007199254740992)"
      by (simp add: k)
    have "round_binary64 (of_int fh * (5404319552844595 / 9007199254740992)) = of_int (3 * k)"
      unfolding arg using kb by (rule round_3k)
    moreover have "(6 / 10 * of_int fh :: rat) = of_int (3 * k)" by (simp add: k)
    ultimately show ?thesis by (simp only:)
  qed
next
  case False
  let ?t = "round_binary64 (of_int fh * (5404319552844595 / 9007199254740992))"
  have "\<bar>?t - of_int fh * (3 / 5)\<bar> < 1 / 10"
    using assms by (intro threshold_close) simp_all
  then have close: "?t < of_int fh * (3 / 5) + 1 / 10" "of_int fh * (3 / 5) - 1 / 10 < ?t"
    by linarith+
  have "5 * m \<noteq> 6 * fh" using False by presburger
  then consider "6 * fh + 1 \<le> 5 * m" | "5 * m + 1 \<le> 6 * fh" by linarith
  then show ?thesis
  proof cases
    case 1
    then have "(of_int (6 * fh + 1) :: rat) \<le> of_int (5 * m)" by (simp only: of_int_le_iff)
    then have "(of_int fh :: rat) * (3 / 5) + 1 / 10 \<le> of_int m / 2" by simp
    with close show ?thesis by linarith
  next
    case 2
    then have "(of_int (5 * m + 1) :: rat) \<le> of_int (6 * fh)" by (simp only: of_int_le_iff)
    then have "of_int m / 2 \<le> (of_int fh :: rat) * (3 / 5) - 1 / 10" by simp
    with close show ?thesis by linarith
  qed
qed

lemma tall_threshold:
  fixes fh h :: int
  assumes "0 \<le> fh" and "fh < 2 ^ 31"
  shows "round_binary64 (of_int fh * (5404319552844595 / 18014398509481984)) < of_int h
           \<longleftrightarrow> (3 / 10 * of_int fh :: rat) < of_int h"
proof (cases "10 dvd fh")
  case True
  then obtain k where k: "fh = 10 * k" ..
  show ?thesis
  proof (cases "k = 0")
    case True
    with k show ?thesis by (simp add: round_binary64_def)
  next
    case False
    with k assms have kb: "0 < k" "k < 2 ^ 31" by simp_all
    have arg: "of_int fh * (5404319552844595 / 18014398509481984) =
        (of_int k :: rat) * (27021597764222975 / 9007199254740992)"
      by (simp add: k)
    have "round_binary64 (of_int fh * (5404319552844595 / 18014398509481984)) = of_int (3 * k)"
      unfolding arg using kb by (rule round_3k)
    moreover have "(3 / 10 * of_int fh :: rat) = of_int (3 * k)" by (simp add: k)
    ultimately show ?thesis by (simp only:)
  qed
next
  case False
  let ?t = "round_binary64 (of_int fh * (5404319552844595 / 18014398509481984))"
  have "\<bar>?t - of_int fh * (3 / 10)\<bar> < 1 / 10"
    using assms by (intro threshold_close) simp_all
  then have close: "?t < of_int fh * (3 / 10) + 1 / 10" "of_int fh * (3 / 10) - 1 / 10 < ?t"
    by linarith+
  have "10 * h \<noteq> 3 * fh" using False by presburger
  then consider "3 * fh + 1 \<le> 10 * h" | "10 * h + 1 \<le> 3 * fh" by linarith
  then show ?thesis
  proof cases
    case 1
    then have "(of_int (3 * fh + 1) :: rat) \<le> of_int (10 * h)" by (simp only: of_int_le_iff)
    then have "(of_int fh :: rat) * (3 / 10) + 1 / 10 \<le> of_int h" by simp
    with close show ?thesis by linarith
  next
    case 2
    then have "(of_int (10 * h + 1) :: rat) \<le> of_int (3 * fh)" by (simp only: of_int_le_iff)
    then have "of_int h \<le> (of_int fh :: rat) * (3 / 10) - 1 / 10" by simp
    with close show ?thesis by linarith
  qed
qed

section \<open>Detection: filtering, numbering and failure\<close>

lemma scan_boxes_appends:
  "scan_boxes bs (n, dets) = Inr (n', dets') \<Longrightarrow>
     \<exists>new. dets' = dets @ new \<and> n' = n + int (length new) \<and>
       (\<forall>d \<in> set new. \<exists>b \<in> set bs. from_box d b) \<and>
       (\<forall>i < length new. det_id (new ! i) = length dets + i)"
proof (induction bs arbitrary: n dets)
  case Nil
  then show ?case by simp
next
  case (Cons box rest)
  show ?case
  proof (cases "py_int (box_cls box)")
    case (Inl e)
    with Cons.prems show ?thesis by simp
  next
    case (Inr cls)
    show ?thesis
    proof (cases "cls = 0 \<and> float_gt (box_conf box) lit_0_5")
      case False
      with Cons.prems Inr have "scan_boxes rest (n, dets) = Inr (n', dets')"
        by (auto simp: Let_def)
      from Cons.IH [OF this] show ?thesis by auto
    next
      case True
      show ?thesis
      proof (cases "xyxy_ints (box_xyxy box)")
        case (Inl e)
        with Cons.prems Inr True show ?thesis by (simp add: Let_def)
      next
        case b: (Inr b)
        let ?d = "\<lparr>bbox = b, confidence = box_conf box, det_id = length dets\<rparr>"
        from Cons.prems Inr True b
        have "scan_boxes rest (n + 1, dets @ [?d]) = Inr (n', dets')"
          by (simp add: Let_def)
        from Cons.IH [OF this] obtain new where new:
          "dets' = (dets @ [?d]) @ new" "n' = n + 1 + int (length new)"
          "\<forall>d \<in> set new. \<exists>b \<in> set rest. from_box d b"
          "\<forall>i < length new. det_id (new ! i) = length (dets @ [?d]) + i"
          by blast
        have fb: "from_box ?d box"
          using Inr True b by (simp add: from_box_def)
        have "\<forall>i < length (?d # new). det_id ((?d # new) ! i) = length dets + i"
        proof (intro allI impI)
          fix i assume "i < length (?d # new)"
          then show "det_id ((?d # new) ! i) = length dets + i"
            using new(4) by (cases i) auto
        qed
        moreover have "\<forall>d \<in> set (?d # new). \<exists>b \<in> set (box # rest). from_box d b"
          using fb new(3) by auto
        ultimately show ?thesis
          using new(1,2) by (intro exI [of _ "?d # new"]) auto
      qed
    qed
  qed
qed

lemma scan_results_appends:
  "scan_results rs (n, dets) = Inr (n', dets') \<Longrightarrow>
     \<exists>new. dets' = dets @ new \<and> n' = n + int (length new) \<and>
       (\<forall>d \<in> set new. \<exists>b \<in> set (all_boxes rs). from_box d b) \<and>
       (\<forall>i < length new. det_id (new ! i) = length dets + i)"
proof (induction rs arbitrary: n dets)
  case Nil
  then show ?case by (simp add: all_boxes_def)
next
  case (Cons r rs)
  show ?case
  proof (cases "boxes r")
    case None
    with Cons.prems have "scan_results rs (n, dets) = Inr (n', dets')" by simp
    from Cons.IH [OF this] None show ?thesis by (auto simp: all_boxes_def)
  next
    case (Some bs)
    with Cons.prems obtain n1 d1 where
      s1: "scan_boxes bs (n, dets) = Inr (n1, d1)" and
      s2: "scan_results rs (n1, d1) = Inr (n', dets')"
      by (auto split: sum.splits)
    from scan_boxes_appends [OF s1] obtain new1 where new1:
      "d1 = dets @ new1" "n1 = n + int (length new1)"
      "\<forall>d \<in> set new1. \<exists>b \<in> set bs. from_box d b"
      "\<forall>i < length new1. det_id (new1 ! i) = length dets + i"
      by blast
    from Cons.IH [OF s2] obtain new2 where new2:
      "dets' = d1 @ new2" "n' = n1 + int (length new2)"
      "\<forall>d \<in> set new2. \<exists>b \<in> set (all_boxes rs). from_box d b"
      "\<forall>i < length new2. det_id (new2 ! i) = length d1 + i"
      by blast
    have ab: "all_boxes (r # rs) = bs @ all_boxes rs"
      using Some by (simp add: all_boxes_def)
    have "\<forall>i < length (new1 @ new2). det_id ((new1 @ new2) ! i) = length dets + i"
    proof (intro allI impI)
      fix i assume "i < length (new1 @ new2)"
      then show "det_id ((new1 @ new2) ! i) = length dets + i"
        using new1(1,4) new2(4) by (cases "i < length new1") (auto simp: nth_append)
    qed
    moreover have "\<forall>d \<in> set (new1 @ new2). \<exists>b \<in> set (all_boxes (r # rs)). from_box d b"
      using new1(3) new2(3) ab by auto
    ultimately show ?thesis
      using new1(1,2) new2(1,2) by (intro exI [of _ "new1 @ new2"]) auto
  qed
qed


lemma demo_processor_model: "model demo_processor = Some demo_model"
  by (simp add: demo_processor_def init_def new_dict_def load_model_def)

lemma demo_scan: "scan_results demo_results (0, []) = Inr (2, demo_detections)"
  by (simp add: demo_results_def demo_detections_def xyxy_ints_def float_gt_def
      lit_0_5_def lit_0_9_def lit_0_8_def)

lemma demo_detect_people:
  "detect_people demo_processor demo_frame = Inr (demo_frame, 2, demo_detections)"
  by (simp add: detect_people_def detect_people_try_def demo_processor_model demo_model_def
      demo_scan)

text \<open>
  Claim C4.  \<^verbatim>\<open>detect_people\<close> does not raise: it always returns the frame with a
  count and a list.  Without a model the count is 0 and the list empty, and so they are
  when anything inside the \<^verbatim>\<open>try\<close> raises (the inference or a conversion).  When the
  model returns results, every detection returned comes from a box of class 0 whose
  confidence is strictly greater than 0.5, and carries that confidence.
\<close>

theorem detect_people_never_raises:
  "(\<exists>people_count detections.
      detect_people self frame = Inr (frame, people_count, detections)) \<and>
   (model self = None \<longrightarrow> detect_people self frame = Inr (frame, 0, [])) \<and>
   (\<forall>m e. model self = Some m \<longrightarrow> detect_people_try m frame = Inl e \<longrightarrow>
      detect_people self frame = Inr (frame, 0, [])) \<and>
   (\<forall>m results people_count detections.
      model self = Some m \<longrightarrow> m frame = Inr results \<longrightarrow>
      detect_people self frame = Inr (frame, people_count, detections) \<longrightarrow>
      (\<forall>d \<in> set detections.
         float_gt (confidence d) lit_0_5 \<and>
         (\<exists>b \<in> set (all_boxes results). from_box d b)))"
proof (intro conjI allI impI)
  show "\<exists>people_count detections.
      detect_people self frame = Inr (frame, people_count, detections)"
    by (auto simp: detect_people_def detect_people_try_def split: option.splits sum.splits)
next
  assume "model self = None"
  then show "detect_people self frame = Inr (frame, 0, [])"
    by (simp add: detect_people_def)
next
  fix m e
  assume "model self = Some m" "detect_people_try m frame = Inl e"
  then show "detect_people self frame = Inr (frame, 0, [])"
    by (simp add: detect_people_def)
next
  fix m results people_count detections
  assume m: "model self = Some m" and r: "m frame = Inr results"
    and d: "detect_people self frame = Inr (frame, people_count, detections)"
  show "\<forall>d \<in> set detections.
         float_gt (confidence d) lit_0_5 \<and> (\<exists>b \<in> set (all_boxes results). from_box d b)"
  proof (cases "scan_results results (0, [])")
    case (Inl e)
    with m r d have "detections = []"
      by (simp add: detect_people_def detect_people_try_def)
    then show ?thesis by simp
  next
    case (Inr acc)
    obtain n ds where acc: "acc = (n, ds)" by (cases acc)
    with Inr m r d have "detections = ds"
      by (simp add: detect_people_def detect_people_try_def)
    moreover from scan_results_appends [of results 0 "[]" n ds] Inr acc
    have "\<forall>d \<in> set ds. \<exists>b \<in> set (all_boxes results). from_box d b" by auto
    ultimately show ?thesis by (auto simp: from_box_def)
  qed
qed

theorem detect_people_never_raises_witness:
  "detect_people demo_processor demo_frame = Inr (demo_frame, 2, demo_detections) \<and>
   (\<exists>b \<in> set (all_boxes demo_results). from_box (demo_detections ! 1) b) \<and>
   float_gt (confidence (demo_detections ! 1)) lit_0_5"
proof -
  have "demo_model demo_frame = Inr demo_results" by (simp add: demo_model_def)
  moreover have "demo_detections ! 1 \<in> set demo_detections" by (simp add: demo_detections_def)
  ultimately show ?thesis
    using detect_people_never_raises [of demo_processor demo_frame]
      demo_processor_model demo_detect_people
    by blast
qed

lemma label_numbers_append:
  "label_numbers (xs @ ys) = label_numbers xs @ label_numbers ys"
  by (induction xs rule: label_numbers.induct) auto

lemma label_numbers_draw_box:
  "label_numbers (draw_box fall_detected fall_bbox d) = [det_id d + 1]"
  by (cases "bbox d") (auto simp: draw_box_def Let_def)

lemma label_numbers_boxes:
  "label_numbers (concat (map (draw_box fall_detected fall_bbox) ds)) =
     map (\<lambda>d. det_id d + 1) ds"
  by (induction ds) (auto simp: label_numbers_append label_numbers_draw_box)

lemma detect_people_scan:
  assumes "detect_people self frame = Inr (f, people_count, detections)"
  shows "people_count = int (length detections) \<and>
         (\<forall>i < length detections. det_id (detections ! i) = i)"
proof (cases "model self")
  case None
  with assms show ?thesis by (simp add: detect_people_def)
next
  case (Some m)
  show ?thesis
  proof (cases "detect_people_try m frame")
    case (Inl e)
    with Some assms show ?thesis by (simp add: detect_people_def)
  next
    case (Inr r)
    with Some assms have "detect_people_try m frame = Inr (f, people_count, detections)"
      by (simp add: detect_people_def)
    then obtain results where "scan_results results (0, []) = Inr (people_count, detections)"
      by (auto simp: detect_people_try_def split: sum.splits)
    from scan_results_appends [OF this] show ?thesis by auto
  qed
qed

text \<open>
  Claim C10.  Whatever \<^verbatim>\<open>detect_people\<close> returns, the count is the length of the
  list of detections and the \<^verbatim>\<open>id\<close> of each detection is its position in the list,
  from 0; so the labels \<^verbatim>\<open>Person {id+1}\<close> that \<^verbatim>\<open>draw_detections\<close> writes are
  numbered 1, 2, ... in order.
\<close>

theorem detect_people_count_and_ids:
  assumes "detect_people self frame = Inr (f, people_count, detections)"
  shows "people_count = int (length detections) \<and>
         (\<forall>i < length detections. det_id (detections ! i) = i) \<and>
         label_numbers (concat (map (draw_box fall_detected fall_bbox) detections)) =
           [1 ..< Suc (length detections)]"
proof -
  from detect_people_scan [OF assms]
  have n: "people_count = int (length detections)"
    and ids: "\<forall>i < length detections. det_id (detections ! i) = i" by auto
  have "map (\<lambda>d. det_id d + 1) detections = [1 ..< Suc (length detections)]"
  proof (rule nth_equalityI)
    show "length (map (\<lambda>d. det_id d + 1) detections) = length [1 ..< Suc (length detections)]"
      by (simp del: upt_Suc)
  next
    fix i assume "i < length (map (\<lambda>d. det_id d + 1) detections)"
    then show "map (\<lambda>d. det_id d + 1) detections ! i = [1 ..< Suc (length detections)] ! i"
      using ids by (simp del: upt_Suc)
  qed
  then have "label_numbers (concat (map (draw_box fall_detected fall_bbox) detections)) =
      [1 ..< Suc (length detections)]"
    by (simp only: label_numbers_boxes)
  with n ids show ?thesis by blast
qed

theorem detect_people_count_and_ids_witness:
  "(2::int) = int (length demo_detections) \<and>
   det_id (demo_detections ! 1) = 1 \<and>
   label_numbers (concat (map (draw_box False None) demo_detections)) = [1, 2]"
  using detect_people_count_and_ids [OF demo_detect_people, of False None]
  by (simp add: demo_detections_def)

section \<open>Fall classification\<close>

text \<open>
  Claim C9.  \<^verbatim>\<open>detect_fall\<close> depends on nothing but the detections and the frame
  dimensions: two calls with the same detections on frames of the same dimensions give
  the same verdict (the same flag and box, or the same exception), whatever the states
  of the processors they are called on and whatever else the frames hold.
\<close>

theorem detect_fall_pure:
  assumes "frame_rows f1 = frame_rows f2" and "frame_cols f1 = frame_cols f2"
  shows "detect_fall self1 detections f1 = detect_fall self2 detections f2"
proof (induction detections)
  case Nil
  show ?case by simp
next
  case (Cons d ds)
  have "fall_check d f1 = fall_check d f2"
    by (simp only: fall_check_def assms(1))
  with Cons show ?case by (simp split: sum.splits bool.splits)
qed

theorem detect_fall_pure_witness:
  "detect_fall demo_processor demo_detections demo_frame =
   detect_fall (demo_processor\<lparr>camera_id := 3, running := True, frame_count := 7\<rparr>)
     demo_detections (demo_frame\<lparr>origin := Decoded 5, drawn := [Rectangle (0, 0) (1, 1) (0, 0, 0) 1]\<rparr>)"
  using detect_fall_pure [of demo_frame
      "demo_frame\<lparr>origin := Decoded 5, drawn := [Rectangle (0, 0) (1, 1) (0, 0, 0) 1]\<rparr>"
      demo_processor demo_detections
      "demo_processor\<lparr>camera_id := 3, running := True, frame_count := 7\<rparr>"]
  by simp

section \<open>Fall classification against its specification\<close>

lemma int_truediv_small:
  assumes "b \<noteq> 0" and "\<bar>a\<bar> < 2 ^ 1023"
  shows "int_truediv a b = Inr (Finite (round_binary64 (of_int a / of_int b)))"
proof -
  have "1 \<le> \<bar>b\<bar>" using assms(1) by simp
  then have b1: "(1::rat) \<le> \<bar>of_int b\<bar>" by (metis of_int_1 of_int_abs of_int_le_iff)
  have "\<bar>(of_int a / of_int b :: rat)\<bar> = \<bar>of_int a\<bar> / \<bar>of_int b\<bar>" by simp
  also have "\<dots> \<le> \<bar>of_int a\<bar> / 1" using b1 by (intro divide_left_mono) simp_all
  finally have "\<bar>(of_int a / of_int b :: rat)\<bar> \<le> \<bar>of_int a\<bar>" by simp
  moreover have "(of_int \<bar>a\<bar> :: rat) < of_int (2 ^ 1023)" using assms(2) by (simp only: of_int_less_iff)
  ultimately have "\<bar>(of_int a / of_int b :: rat)\<bar> < 2 ^ 1023" by simp
  from binary64_no_overflow [OF this] show ?thesis
    using assms(1) by (simp add: int_truediv_def)
qed

lemma int_mul_float_small:
  assumes "0 \<le> n" and "n < 2 ^ 31" and "0 \<le> c" and "c \<le> 1"
  shows "int_mul_float n (Finite c) = Inr (Finite (round_binary64 (of_int n * c)))"
proof -
  have "\<bar>n\<bar> < 2 ^ 53" using assms(1,2) by simp
  then have conv: "round_binary64 (of_int n) = of_int n" by (rule round_binary64_int)
  have n0: "(0::rat) \<le> of_int n" using assms(1) by simp
  have "(of_int n :: rat) < of_int (2 ^ 31)" using assms(2) by (simp only: of_int_less_iff)
  then have n31: "(of_int n :: rat) < 2147483648" by simp
  then have "\<bar>(of_int n :: rat)\<bar> < 2 ^ 1023" using n0 by simp
  then have no1: "\<not> binary64_overflow (of_int n)" by (rule binary64_no_overflow)
  have "of_int n * c \<le> of_int n * 1" using assms(4) n0 by (intro mult_left_mono)
  moreover have "0 \<le> of_int n * c" using n0 assms(3) by simp
  ultimately have "\<bar>of_int n * c\<bar> < 2 ^ 1023" using n31 by simp
  then have no2: "\<not> binary64_overflow (of_int n * c)" by (rule binary64_no_overflow)
  show ?thesis
    using conv no1 no2 by (simp add: int_mul_float_def int_to_float_def)
qed

lemma fall_check_spec:
  assumes "pixel_box (bbox d)" and "frame_rows f < 2 ^ 31"
  shows "fall_check d f = Inr (qualifies (frame_rows f) d)"
proof -
  obtain x1 y1 x2 y2 where b: "bbox d = (x1, y1, x2, y2)" by (cases "bbox d")
  with assms(1) have px: "pixel x1" "pixel y1" "pixel x2" "pixel y2"
    by (simp_all add: pixel_box_def)
  define w h m fh where "w = x2 - x1" and "h = y2 - y1" and "m = y1 + y2"
    and "fh = int (frame_rows f)"
  have hb: "\<bar>h\<bar> \<le> 2 ^ 32" and wb: "w \<le> 2 ^ 32" and mb: "\<bar>m\<bar> < 2 ^ 53"
    using px by (auto simp: pixel_def h_def w_def m_def)
  have fb: "0 \<le> fh" "fh < 2 ^ 31" using assms(2) by (simp_all add: fh_def)
  have fr: "(of_nat (frame_rows f) :: rat) = of_int fh" by (simp add: fh_def)
  show ?thesis
  proof (cases "0 < w")
    case False
    then show ?thesis by (simp add: fall_check_def qualifies_def b w_def Let_def)
  next
    case True
    have "\<bar>h\<bar> < 2 ^ 1023" using hb by simp
    with True have a: "int_truediv h w = Inr (Finite (round_binary64 (of_int h / of_int w)))"
      by (intro int_truediv_small) simp_all
    have "\<bar>m\<bar> < 2 ^ 1023" using mb by simp
    then have "int_truediv m 2 = Inr (Finite (round_binary64 (of_int m / of_int 2)))"
      by (intro int_truediv_small) simp_all
    then have c: "int_truediv m 2 = Inr (Finite (of_int m / 2))"
      using round_binary64_half [OF mb] by simp
    have lo: "int_mul_float fh lit_0_6 =
        Inr (Finite (round_binary64 (of_int fh * (5404319552844595 / 9007199254740992))))"
      unfolding lit_0_6_def using fb by (intro int_mul_float_small) simp_all
    have tall: "int_mul_float fh lit_0_3 =
        Inr (Finite (round_binary64 (of_int fh * (5404319552844595 / 18014398509481984))))"
      unfolding lit_0_3_def using fb by (intro int_mul_float_small) simp_all
    have x12: "x1 < x2" using True by (simp add: w_def)
    note A = aspect_ratio_exact [OF True wb hb]
    note L = low_threshold [OF fb, of m]
    note T = tall_threshold [OF fb, of h]
    have "fall_check d f =
        Inr (round_binary64 (of_int h / of_int w) < 3602879701896397 / 4503599627370496 \<and>
             round_binary64 (of_int fh * (5404319552844595 / 9007199254740992)) < of_int m / 2 \<and>
             round_binary64 (of_int fh * (5404319552844595 / 18014398509481984)) < of_int h)"
      using True x12 a c lo tall
      by (simp add: fall_check_def b Let_def w_def [symmetric] h_def [symmetric]
          m_def [symmetric] fh_def [symmetric] lit_0_8_def float_gt_def)
    also have "\<dots> = Inr (qualifies (frame_rows f) d)"
      using True
      by (simp only: A L T qualifies_def b Let_def prod.case fr w_def [symmetric]
          h_def [symmetric] m_def [symmetric]) simp
    finally show ?thesis .
  qed
qed

text \<open>
  Claim C1.  On detections with pixel coordinates and a frame of pixel height,
  \<^verbatim>\<open>detect_fall\<close> does not raise and returns the verdict of the first detection,
  in input order, that passes the test of the specification (\<open>qualifies\<close>: width
  above 0, and height/width < 0.8, and (y1+y2)/2 > 0.6 * frame height, and height >
  0.3 * frame height, in exact arithmetic): the flag with that detection's own box.  A
  detection of width 0 or less never passes; with no passing detection the verdict is
  \<open>(False, None)\<close>.  The binary64 arithmetic of the source decides every comparison as
  exact arithmetic does on this range.
\<close>

theorem detect_fall_first_match:
  assumes "\<forall>d \<in> set detections. pixel_box (bbox d)" and "frame_rows frame < 2 ^ 31"
  shows "detect_fall self detections frame =
           Inr (case find (qualifies (frame_rows frame)) detections of
                  None \<Rightarrow> (False, None)
                | Some d \<Rightarrow> (True, Some (bbox d)))"
  using assms(1)
proof (induction detections)
  case Nil
  show ?case by simp
next
  case (Cons d ds)
  then have "pixel_box (bbox d)" by simp
  from fall_check_spec [OF this assms(2)] Cons show ?case by simp
qed

theorem detect_fall_first_match_witness:
  "detect_fall demo_processor fall_demo demo_frame = Inr (True, Some (100, 250, 400, 450))"
  using detect_fall_first_match [of fall_demo demo_frame demo_processor]
  by (simp add: fall_demo_def demo_frame_def pixel_box_def pixel_def qualifies_def)

section \<open>The frame sink\<close>

lemma push_frame_bounded:
  assumes "0 < maxsize q" and "int (length (entries q)) \<le> maxsize q"
  shows "push_frame q x =
           Returns (q\<lparr>entries := drop (Suc (length (entries q)) - nat (maxsize q)) (entries q @ [x])\<rparr>)"
proof (cases "queue_full q")
  case True
  with assms have len: "length (entries q) = nat (maxsize q)"
    by (simp add: queue_full_def)
  with assms(1) obtain y ys where ys: "entries q = y # ys"
    by (cases "entries q") auto
  have "int (length ys) < maxsize q"
    using len ys assms(1) by simp
  then have "\<not> queue_full (q\<lparr>entries := ys\<rparr>)"
    by (simp add: queue_full_def)
  then show ?thesis
    using True ys len by (simp add: push_frame_def queue_get_def queue_put_def)
next
  case False
  with assms have "length (entries q) < nat (maxsize q)"
    by (simp add: queue_full_def)
  then show ?thesis
    using False by (simp add: push_frame_def queue_put_def)
qed

lemma drop_window:
  fixes es :: "'a list"
  assumes "0 < m" and "length es \<le> m"
  shows "drop (length (drop (Suc (length es) - m) (es @ [x]) @ xs) - m)
           (drop (Suc (length es) - m) (es @ [x]) @ xs) =
         drop (length (es @ x # xs) - m) (es @ x # xs)"
proof (cases "length es < m")
  case True
  then have "Suc (length es) - m = 0" by simp
  then show ?thesis by simp
next
  case False
  with assms have len: "length es = m" by simp
  with assms(1) obtain y ys where es: "es = y # ys" by (cases es) auto
  have "Suc (length es) - m = 1" using len by simp
  then show ?thesis using es len by auto
qed

lemma push_all_bounded:
  assumes "0 < maxsize q" and "int (length (entries q)) \<le> maxsize q"
  shows "push_all q xs =
           Returns (q\<lparr>entries := drop (length (entries q @ xs) - nat (maxsize q)) (entries q @ xs)\<rparr>)"
  using assms
proof (induction xs arbitrary: q)
  case Nil
  then show ?case by simp
next
  case (Cons x xs)
  let ?k = "Suc (length (entries q)) - nat (maxsize q)"
  let ?q' = "q\<lparr>entries := drop ?k (entries q @ [x])\<rparr>"
  have bound: "0 < nat (maxsize q)" "length (entries q) \<le> nat (maxsize q)"
    using Cons.prems by simp_all
  have step: "push_frame q x = Returns ?q'"
    using push_frame_bounded [OF Cons.prems] .
  have m': "0 < maxsize ?q'" and l': "int (length (entries ?q')) \<le> maxsize ?q'"
    using Cons.prems by auto
  have "push_all ?q' xs =
      Returns (?q'\<lparr>entries := drop (length (entries ?q' @ xs) - nat (maxsize ?q')) (entries ?q' @ xs)\<rparr>)"
    using Cons.IH [OF m' l'] .
  then have "push_all ?q' xs =
      Returns (q\<lparr>entries := drop (length (entries q @ x # xs) - nat (maxsize q)) (entries q @ x # xs)\<rparr>)"
    using drop_window [OF bound, of x xs] by simp
  then show ?case using step by simp
qed

lemma gets_all: "gets (length (entries q)) q = Returns (entries q, q\<lparr>entries := []\<rparr>)"
proof (induction "entries q" arbitrary: q)
  case Nil
  then show ?case by simp
next
  case (Cons x xs)
  from Cons(2) have e: "entries q = x # xs" by simp
  have "xs = entries (q\<lparr>entries := xs\<rparr>)" by simp
  from Cons(1) [OF this] show ?case
    using e by (simp add: queue_get_def)
qed

text \<open>
  Claim C6.  Each camera's queue in \<^verbatim>\<open>main.py\<close> has capacity 10.  Pushing any list
  of frames into it with the worker's push (take the oldest out if the queue is full, then
  put) never blocks and leaves the last 10 frames pushed (all of them if fewer), in
  arrival order; successive \<^verbatim>\<open>get\<close> calls return them oldest first.  For 15 frames
  these are frames 6 to 15.
\<close>

theorem sink_keeps_last_ten:
  assumes "cid \<in> {1, 2, 3, 4}"
  shows "\<exists>q0 q. frame_queues initial_app cid = Some q0 \<and>
           push_all q0 frames = Returns q \<and>
           entries q = drop (length frames - 10) frames \<and>
           gets (length (entries q)) q = Returns (entries q, q\<lparr>entries := []\<rparr>) \<and>
           (\<forall>x. push_frame q x \<noteq> Blocks)"
proof -
  define q0 :: "frame py_queue" where "q0 = \<lparr>maxsize = 10, entries = []\<rparr>"
  define q where "q = q0\<lparr>entries := drop (length frames - 10) frames\<rparr>"
  have start: "frame_queues initial_app cid = Some q0"
    using assms by (auto simp: initial_app_def q0_def)
  have pushed: "push_all q0 frames = Returns q"
    using push_all_bounded [of q0 frames] by (simp add: q0_def q_def)
  have bounded: "0 < maxsize q" "int (length (entries q)) \<le> maxsize q"
    by (auto simp: q_def q0_def)
  have never: "\<forall>x. push_frame q x \<noteq> Blocks"
    using push_frame_bounded [OF bounded] by simp
  have kept: "entries q = drop (length frames - 10) frames"
    by (simp add: q_def)
  show ?thesis
    using start pushed kept gets_all [of q] never by blast
qed

theorem sink_keeps_last_ten_witness:
  "\<exists>q0 q. frame_queues initial_app 2 = Some q0 \<and>
     push_all q0 (numbered_frames [1, 2, 3, 4, 5, 6, 7, 8, 9, 10, 11, 12, 13, 14, 15]) = Returns q \<and>
     entries q = numbered_frames [6, 7, 8, 9, 10, 11, 12, 13, 14, 15]"
proof -
  let ?fs = "numbered_frames [1, 2, 3, 4, 5, 6, 7, 8, 9, 10, 11, 12, 13, 14, 15]"
  have "(2::int) \<in> {1, 2, 3, 4}" by simp
  from sink_keeps_last_ten [OF this, of ?fs] obtain q0 q where
    "frame_queues initial_app 2 = Some q0" "push_all q0 ?fs = Returns q"
    "entries q = drop (length ?fs - 10) ?fs" by blast
  moreover have "drop (length ?fs - 10) ?fs =
      numbered_frames [6, 7, 8, 9, 10, 11, 12, 13, 14, 15]"
    by (simp add: numbered_frames_def)
  ultimately show ?thesis by metis
qed

lemma clear_queue_entries: "entries (clear_queue q) = [] \<and> maxsize (clear_queue q) = maxsize q"
proof (induction q rule: clear_queue.induct)
  case (1 q)
  show ?case
  proof (cases "entries q")
    case Nil
    then show ?thesis by (simp add: clear_queue.simps [of q] queue_empty_def)
  next
    case (Cons x xs)
    then have g: "queue_get_nowait q = Inr (x, q\<lparr>entries := xs\<rparr>)" and ne: "\<not> queue_empty q"
      by (simp_all add: queue_get_nowait_def queue_empty_def)
    from "1.IH"(2) [OF ne g refl] show ?thesis
      using g ne by (simp add: clear_queue.simps [of q])
  qed
qed

lemma demo_app1_processor: "video_processors demo_app1 1 = Some demo_worker1"
  by (simp add: demo_app1_def set_ip_def set_camera_status_def new_dict_def get_processor_def
      initial_app_def init_def load_model_def demo_load_failure_def start_ip_camera_def
      spawn_def demo_worker1_def Let_def)

lemma demo_app1_threads:
  "threads (rt demo_app1) = [\<lparr>thread_id = 0, owner = 1, locals = Ip_job person_positions\<rparr>] \<and>
   next_thread (rt demo_app1) = 1"
  by (simp add: demo_app1_def set_ip_def set_camera_status_def new_dict_def get_processor_def
      initial_app_def init_def load_model_def demo_load_failure_def start_ip_camera_def
      spawn_def Let_def)

lemma demo_app1_queue: "frame_queues demo_app1 1 = Some \<lparr>maxsize = 10, entries = []\<rparr>"
  by (simp add: demo_app1_def set_ip_def set_camera_status_def new_dict_def get_processor_def
      initial_app_def init_def load_model_def demo_load_failure_def start_ip_camera_def
      spawn_def Let_def)

text \<open>
  Claim C7.  \<^verbatim>\<open>stop\<close> sets \<^verbatim>\<open>running\<close> to false and changes nothing else of the
  processor; it returns the same whether the join ended with the thread finished or
  with the timeout; and it returns with the queue empty, so no frame queued before the
  call is left.  Through \<^verbatim>\<open>close_camera\<close> the same holds of the camera's queue in
  \<^verbatim>\<open>frame_queues\<close>.  (The length of the timeout is a matter of real time and is
  not part of the model.)
\<close>

theorem stop_clears_sink:
  "fst (stop self joined q) = self\<lparr>running := False\<rparr> \<and>
   entries (snd (stop self joined q)) = [] \<and>
   maxsize (snd (stop self joined q)) = maxsize q \<and>
   stop self True q = stop self False q \<and>
   (\<forall>a cid p q0.
      video_processors a cid = Some p \<longrightarrow> frame_queues a (frame_queue p) = Some q0 \<longrightarrow>
      (\<exists>a' p' q'. close_camera a cid joined = (Success, a') \<and>
         video_processors a' cid = Some p' \<and> \<not> running p' \<and>
         frame_queues a' (frame_queue p) = Some q' \<and> entries q' = []))"
  by (simp add: stop_def clear_queue_entries close_camera_def set_camera_status_def
      new_dict_def Let_def)

theorem stop_clears_sink_witness:
  "\<exists>a' p' q'. close_camera demo_app_busy 1 False = (Success, a') \<and>
     video_processors a' 1 = Some p' \<and> \<not> running p' \<and>
     frame_queues a' 1 = Some q' \<and> entries q' = []"
proof -
  have p: "video_processors demo_app_busy 1 = Some demo_worker1"
    by (simp add: demo_app_busy_def demo_app1_processor)
  have q: "frame_queues demo_app_busy (frame_queue demo_worker1) =
      Some \<lparr>maxsize = 10, entries = numbered_frames [1, 2, 3]\<rparr>"
    by (simp add: demo_app_busy_def demo_worker1_def)
  have "frame_queue demo_worker1 = 1" by (simp add: demo_worker1_def)
  with stop_clears_sink [of demo_worker1 False "\<lparr>maxsize = 10, entries = []\<rparr> :: frame py_queue"] p q
  show ?thesis by metis
qed

section \<open>Running statistics\<close>

lemma draw_call_counters:
  "total_people_count (fst (draw_call_on self c)) = total_people_count self + call_count c"
  "frame_count (fst (draw_call_on self c)) = frame_count self + 1"
  "max_people_count (fst (draw_call_on self c)) = max (max_people_count self) (call_count c)"
  by (simp_all add: draw_call_on_def draw_detections_def draw_statistics_def Let_def
      split: sum.splits)

lemma after_calls_counters:
  "total_people_count (after_calls self cs) = total_people_count self + sum_list (map call_count cs) \<and>
   frame_count (after_calls self cs) = frame_count self + int (length cs) \<and>
   max_people_count (after_calls self cs) = fold max (map call_count cs) (max_people_count self)"
  by (induction cs arbitrary: self) (simp_all add: draw_call_counters max.commute)

lemma after_calls_snoc:
  "after_calls self (cs @ [c]) = fst (draw_call_on (after_calls self cs) c)"
  by (induction cs arbitrary: self) simp_all

lemma fold_max_Max:
  fixes xs :: "int list"
  assumes "xs \<noteq> []" and "\<forall>x \<in> set xs. 0 \<le> x"
  shows "fold max xs 0 = Max (set xs)"
proof -
  have "fold max xs a = Max (insert a (set xs))" for a
    using Max.set_eq_fold [of a xs] by simp
  then have "fold max xs 0 = Max (insert 0 (set xs))" .
  also have "\<dots> = max 0 (Max (set xs))"
    using assms(1) by simp
  also have "\<dots> = Max (set xs)"
  proof -
    from assms obtain x where "x \<in> set xs" "0 \<le> x" by (cases xs) auto
    then have "0 \<le> Max (set xs)" by (meson List.finite_set Max_ge order_trans)
    then show ?thesis by simp
  qed
  finally show ?thesis .
qed

lemma avg_max_drawn_append:
  "avg_max_drawn (xs @ ys) = avg_max_drawn xs @ avg_max_drawn ys"
  by (induction xs rule: avg_max_drawn.induct) auto

lemma avg_max_drawn_boxes:
  "avg_max_drawn (concat (map (draw_box fd fb) ds)) = []"
proof (induction ds)
  case Nil
  show ?case by simp
next
  case (Cons d ds)
  have "avg_max_drawn (draw_box fd fb d) = []"
    by (cases "bbox d") (auto simp: draw_box_def Let_def)
  with Cons show ?case by (simp add: avg_max_drawn_append)
qed

lemma draw_call_rendered:
  "snd (draw_call_on self c) =
     (case int_truediv (total_people_count self + call_count c) (max (frame_count self + 1) 1) of
        Inl e \<Rightarrow> Inl e
      | Inr avg \<Rightarrow> snd (draw_call_on self c))"
  by (simp add: draw_call_on_def draw_detections_def draw_statistics_def Let_def
      split: sum.splits)

lemma draw_call_avg:
  assumes "snd (draw_call_on self c) = Inr fr"
  shows "\<exists>avg. int_truediv (total_people_count self + call_count c) (max (frame_count self + 1) 1)
             = Inr avg \<and>
           avg_max_drawn (drawn fr) =
             avg_max_drawn (drawn (call_frame c)) @
               [(avg, max (max_people_count self) (call_count c))]"
  using assms
  by (auto simp: draw_call_on_def draw_detections_def draw_statistics_def Let_def draw_on_def
      avg_max_drawn_append avg_max_drawn_boxes split: sum.splits)

lemma draw_call_raises:
  assumes "snd (draw_call_on self c) = Inl e"
  shows "int_truediv (total_people_count self + call_count c) (max (frame_count self + 1) 1) = Inl e"
  using assms
  by (auto simp: draw_call_on_def draw_detections_def draw_statistics_def Let_def
      split: sum.splits)

text \<open>
  Claim C5.  A new processor has all three counters at 0.  After \<open>N \<ge> 1\<close> drawing
  calls with people counts \<open>c1, ..., cN\<close> (none negative) the total is their sum, the
  frame count is \<open>N\<close> and the maximum is the largest of them; the average the last
  call writes is Python's \<open>(c1 + ... + cN) / N\<close>, next to that maximum (or the call
  raises exactly when that division does).  The counters change inside the drawing call;
  no drawing call with a count of 0 or more lowers any of them, and \<^verbatim>\<open>stop\<close>, the
  two start methods and \<^verbatim>\<open>update_status\<close> leave them as they are.
\<close>

theorem running_statistics:
  assumes "calls \<noteq> []" and "\<forall>c \<in> set calls. 0 \<le> call_count c"
  shows "counters (fst (init cid queue_ref loaded h)) = (0, 0, 0) \<and>
         counters (after_calls (fst (init cid queue_ref loaded h)) calls) =
           (sum_list (map call_count calls), int (length calls),
            Max (set (map call_count calls))) \<and>
         (case snd (draw_call_on (after_calls (fst (init cid queue_ref loaded h)) (butlast calls))
                      (last calls)) of
            Inl e \<Rightarrow>
              int_truediv (sum_list (map call_count calls)) (int (length calls)) = Inl e
          | Inr fr \<Rightarrow>
              \<exists>avg. int_truediv (sum_list (map call_count calls)) (int (length calls)) = Inr avg \<and>
                avg_max_drawn (drawn fr) =
                  avg_max_drawn (drawn (call_frame (last calls))) @
                    [(avg, Max (set (map call_count calls)))]) \<and>
         (\<forall>self c. 0 \<le> call_count c \<longrightarrow>
            total_people_count self \<le> total_people_count (fst (draw_call_on self c)) \<and>
            frame_count self \<le> frame_count (fst (draw_call_on self c)) \<and>
            max_people_count self \<le> max_people_count (fst (draw_call_on self c))) \<and>
         (\<forall>self joined q. counters (fst (stop self joined (q :: frame py_queue))) = counters self) \<and>
         (\<forall>self threads cap ip_url addr.
            counters (fst (start_video_file self threads cap)) = counters self \<and>
            counters (fst (start_ip_camera self threads ip_url)) = counters self \<and>
            counters (update_status self addr) = counters self)"
proof -
  let ?fresh = "fst (init cid queue_ref loaded h)"
  let ?counts = "map call_count calls"
  have zero: "counters ?fresh = (0, 0, 0)"
    by (simp add: counters_def init_def new_dict_def load_model_def split: sum.splits)
  then have z: "total_people_count ?fresh = 0" "frame_count ?fresh = 0" "max_people_count ?fresh = 0"
    by (simp_all add: counters_def)
  have nonneg: "\<forall>x \<in> set ?counts. 0 \<le> x" using assms(2) by simp
  have ne: "?counts \<noteq> []" using assms(1) by simp
  have all: "counters (after_calls ?fresh calls) =
      (sum_list ?counts, int (length calls), Max (set ?counts))"
    using after_calls_counters [of ?fresh calls] z fold_max_Max [OF ne nonneg]
    by (simp add: counters_def)
  define pre where "pre = butlast calls"
  define c where "c = last calls"
  have calls: "calls = pre @ [c]"
    using assms(1) by (simp add: pre_def c_def)
  let ?s = "after_calls ?fresh pre"
  have pre: "total_people_count ?s = sum_list (map call_count pre)"
      "frame_count ?s = int (length pre)"
    using after_calls_counters [of ?fresh pre] z by simp_all
  have tot: "total_people_count ?s + call_count c = sum_list ?counts"
    using pre calls by simp
  have cnt: "max (frame_count ?s + 1) 1 = int (length calls)"
    using pre calls by simp
  have mx: "max (max_people_count ?s) (call_count c) = Max (set ?counts)"
  proof -
    have "max_people_count (after_calls ?fresh calls) = Max (set ?counts)"
      using all by (simp add: counters_def)
    then show ?thesis
      by (simp add: calls after_calls_snoc draw_call_counters)
  qed
  have rendered: "case snd (draw_call_on ?s c) of
            Inl e \<Rightarrow> int_truediv (sum_list ?counts) (int (length calls)) = Inl e
          | Inr fr \<Rightarrow>
              \<exists>avg. int_truediv (sum_list ?counts) (int (length calls)) = Inr avg \<and>
                avg_max_drawn (drawn fr) =
                  avg_max_drawn (drawn (call_frame c)) @ [(avg, Max (set ?counts))]"
  proof (cases "snd (draw_call_on ?s c)")
    case (Inl e)
    from draw_call_raises [OF this] show ?thesis
      using Inl by (simp only: tot cnt sum.case)
  next
    case (Inr fr)
    from draw_call_avg [OF this] show ?thesis
      using Inr by (simp only: tot cnt mx sum.case)
  qed
  have mono: "\<forall>self c. 0 \<le> call_count c \<longrightarrow>
            total_people_count self \<le> total_people_count (fst (draw_call_on self c)) \<and>
            frame_count self \<le> frame_count (fst (draw_call_on self c)) \<and>
            max_people_count self \<le> max_people_count (fst (draw_call_on self c))"
    by (simp add: draw_call_counters)
  have stopped: "\<forall>self joined q. counters (fst (stop self joined (q :: frame py_queue))) = counters self"
    by (simp add: stop_def counters_def)
  have started: "\<forall>self threads cap ip_url addr.
            counters (fst (start_video_file self threads cap)) = counters self \<and>
            counters (fst (start_ip_camera self threads ip_url)) = counters self \<and>
            counters (update_status self addr) = counters self"
    by (simp add: start_video_file_def start_ip_camera_def update_status_def spawn_def
        counters_def Let_def)
  from rendered have rendered':
    "case snd (draw_call_on (after_calls ?fresh (butlast calls)) (last calls)) of
            Inl e \<Rightarrow> int_truediv (sum_list ?counts) (int (length calls)) = Inl e
          | Inr fr \<Rightarrow>
              \<exists>avg. int_truediv (sum_list ?counts) (int (length calls)) = Inr avg \<and>
                avg_max_drawn (drawn fr) =
                  avg_max_drawn (drawn (call_frame (last calls))) @ [(avg, Max (set ?counts))]"
    by (simp only: pre_def c_def)
  show ?thesis
    using zero all rendered' mono stopped started by blast
qed

theorem running_statistics_witness:
  "counters (after_calls (fst (init 1 1 (Inr demo_model) \<lparr>cells = (\<lambda>a. Map.empty), next_free = 0\<rparr>))
      (count_calls [2, 0, 5])) = (7, 3, 5)"
  using running_statistics [of "count_calls [2, 0, 5]" 1 1 "Inr demo_model"
      "\<lparr>cells = (\<lambda>a. Map.empty), next_free = 0\<rparr>"]
  by (simp add: count_calls_def)

section \<open>The status dictionaries\<close>

lemma other_entries_refl: "other_entries h h"
  by (simp add: other_entries_def)

lemma other_entries_trans: "other_entries h h1 \<Longrightarrow> other_entries h1 h2 \<Longrightarrow> other_entries h h2"
  by (simp add: other_entries_def)

lemma write_status_other: "other_entries h (write_status self h c fd now)"
  by (simp add: other_entries_def write_status_def)

lemma annotate_other:
  "annotate_and_publish self h q t frame ds c fd fb = (e, (p', h', q')) \<Longrightarrow> other_entries h h'"
  by (auto simp: annotate_and_publish_def Let_def other_entries_refl write_status_other
      split: option.splits prod.splits sum.splits blocking.splits)

lemma video_file_body_other:
  "video_file_body self h q t frame = (e, (p', h', q')) \<Longrightarrow> other_entries h h'"
  by (auto simp: video_file_body_def other_entries_refl dest: annotate_other
      split: sum.splits prod.splits)

lemma ip_camera_body_other:
  "ip_camera_body self h q t people = (people', e, (p', h', q')) \<Longrightarrow> other_entries h h'"
  by (auto simp: ip_camera_body_def dest: annotate_other split: prod.splits)

lemma settle_dicts:
  "settle a t cid j (e, (p', h', q')) = a' \<Longrightarrow> dicts a' = h' \<and> camera_status a' = camera_status a"
  by (cases e) (auto simp: settle_def publish_def finish_def set_locals_def)

lemma finish_dicts: "dicts (finish a t) = dicts a \<and> camera_status (finish a t) = camera_status a"
  by (simp add: finish_def)

lemma worker_step_other:
  "other_entries (dicts a) (dicts (worker_step a t tk)) \<and>
   camera_status (worker_step a t tk) = camera_status a"
proof (cases "find (\<lambda>th. thread_id th = t) (threads (rt a))")
  case None
  then show ?thesis by (simp add: worker_step_def other_entries_refl)
next
  case th: (Some th)
  show ?thesis
  proof (cases "video_processors a (owner th)")
    case None
    with th show ?thesis by (simp add: worker_step_def other_entries_refl)
  next
    case p: (Some p)
    show ?thesis
    proof (cases "frame_queues a (frame_queue p)")
      case None
      with th p show ?thesis by (simp add: worker_step_def other_entries_refl)
    next
      case q: (Some q)
      show ?thesis
      proof (cases "locals th")
        case (Ip_job people)
        show ?thesis
        proof (cases "running p")
          case False
          with th p q Ip_job show ?thesis
            by (simp add: worker_step_def finish_dicts other_entries_refl)
        next
          case True
          obtain people' e p' h' q' where
            b: "ip_camera_body p (dicts a) q tk people = (people', e, (p', h', q'))"
            by (metis prod_cases3 prod.exhaust)
          with th p q Ip_job True
          have "worker_step a t tk = settle a t (owner th) (Ip_job people') (e, (p', h', q'))"
            by (simp add: worker_step_def)
          with settle_dicts [OF refl, of a t "owner th" "Ip_job people'" e p' h' q']
            ip_camera_body_other [OF b]
          show ?thesis by simp
        qed
      next
        case (File_job cap)
        show ?thesis
        proof (cases "running p \<and> opened cap")
          case False
          with th p q File_job show ?thesis
            by (auto simp: worker_step_def finish_dicts other_entries_refl)
        next
          case True
          show ?thesis
          proof (cases "pending cap")
            case Nil
            with th p q File_job True show ?thesis
              by (simp add: worker_step_def finish_dicts other_entries_refl)
          next
            case (Cons ft rest)
            obtain frame tk' where ft: "ft = (frame, tk')" by (cases ft)
            obtain e p' h' q' where
              b: "video_file_body p (dicts a) q tk' frame = (e, (p', h', q'))"
              by (metis prod.exhaust)
            with th p q File_job True Cons ft
            have "worker_step a t tk =
                settle a t (owner th) (File_job (cap\<lparr>pending := rest\<rparr>)) (e, (p', h', q'))"
              by (simp add: worker_step_def)
            with settle_dicts [OF refl, of a t "owner th" "File_job (cap\<lparr>pending := rest\<rparr>)" e p' h' q']
              video_file_body_other [OF b]
            show ?thesis by simp
          qed
        qed
      qed
    qed
  qed
qed

lemma process_video_frames_other:
  "process_video_frames is_open fs self h q = (e, (p', h', q')) \<Longrightarrow> other_entries h h'"
proof (induction fs arbitrary: self h q)
  case Nil
  then show ?case by (simp add: other_entries_refl)
next
  case (Cons ft rest)
  obtain frame t where ft: "ft = (frame, t)" by (cases ft)
  show ?case
  proof (cases "running self \<and> is_open")
    case False
    with Cons.prems ft show ?thesis by (auto simp: other_entries_refl)
  next
    case True
    obtain e1 p1 h1 q1 where b: "video_file_body self h q t frame = (e1, (p1, h1, q1))"
      by (metis prod.exhaust)
    note o1 = video_file_body_other [OF b]
    show ?thesis
    proof (cases e1)
      case Continues
      with Cons.prems ft True b
      have "process_video_frames is_open rest p1 h1 q1 = (e, (p', h', q'))" by simp
      from Cons.IH [OF this] o1 show ?thesis by (rule other_entries_trans [rotated])
    next
      case Returned
      with Cons.prems ft True b o1 show ?thesis by auto
    next
      case (Raised x)
      with Cons.prems ft True b o1 show ?thesis by auto
    next
      case Blocked
      with Cons.prems ft True b o1 show ?thesis by auto
    qed
  qed
qed

lemma set_ip_entries:
  assumes "set_ip a cid (Some ip) now loaded = (Success, a')"
  shows "status_entry a' cid ''type'' = Some (PyStr ''ip_camera'') \<and>
         status_entry a' cid ''url'' = Some (PyStr ip)"
  using assms
  by (auto simp: set_ip_def set_camera_status_def new_dict_def get_processor_def init_def
      start_ip_camera_def spawn_def status_entry_def Let_def
      split: if_splits sum.splits option.splits prod.splits)

lemma upload_file_entries:
  assumes "upload_file a (Some name) cid filename now loaded cap = (Success, a')"
  shows "status_entry a' cid ''type'' = Some (PyStr ''video_file'') \<and>
         status_entry a' cid ''url'' = Some (PyStr filename)"
  using assms
  by (auto simp: upload_file_def set_camera_status_def new_dict_def get_processor_def init_def
      start_video_file_def spawn_def status_entry_def Let_def
      split: if_splits sum.splits option.splits prod.splits)

lemma close_camera_entries:
  assumes "close_camera a cid joined = (r, a')"
  shows "status_entry a' cid ''type'' = Some (PyStr ''offline'') \<and>
         status_entry a' cid ''url'' = Some PyNone"
  using assms
  by (auto simp: close_camera_def set_camera_status_def new_dict_def stop_def status_entry_def
      offline_status_def Let_def split: option.splits prod.splits)

text \<open>
  Claim C8.  A pass of a worker (of either loop) leaves every camera's dictionary
  reference and, in every dictionary, every entry other than \<^verbatim>\<open>count\<close>,
  \<^verbatim>\<open>fall\<close> and \<^verbatim>\<open>timestamp\<close> as they were, \<^verbatim>\<open>type\<close> and \<^verbatim>\<open>url\<close> among
  them; the status update assigns exactly those three entries of the dictionary
  \<^verbatim>\<open>self.status\<close> refers to; the same holds of a whole run of
  \<^verbatim>\<open>process_video_file\<close>.  The source type and locator are what \<^verbatim>\<open>set_ip\<close>,
  \<^verbatim>\<open>upload_file\<close> and \<^verbatim>\<open>close_camera\<close> put into the camera's new dictionary.
\<close>

theorem worker_writes_three_entries:
  "camera_status (worker_step a t tk) = camera_status a \<and>
   (\<forall>addr k. k \<notin> {''count'', ''fall'', ''timestamp''} \<longrightarrow>
      cells (dicts (worker_step a t tk)) addr k = cells (dicts a) addr k) \<and>
   (\<forall>cid. status_entry (worker_step a t tk) cid ''type'' = status_entry a cid ''type'' \<and>
          status_entry (worker_step a t tk) cid ''url'' = status_entry a cid ''url'') \<and>
   (\<forall>self h c fd now.
      cells (write_status self h c fd now) (status self) =
        (cells h (status self))
          (''count'' \<mapsto> PyInt c, ''fall'' \<mapsto> PyBool fd, ''timestamp'' \<mapsto> PyStr now) \<and>
      (\<forall>addr. addr \<noteq> status self \<longrightarrow> cells (write_status self h c fd now) addr = cells h addr)) \<and>
   (\<forall>is_open fs self h q e p' h' q' addr k.
      process_video_frames is_open fs self h q = (e, (p', h', q')) \<longrightarrow>
      k \<notin> {''count'', ''fall'', ''timestamp''} \<longrightarrow> cells h' addr k = cells h addr k) \<and>
   (\<forall>cid ip now loaded a'.
      set_ip a cid (Some ip) now loaded = (Success, a') \<longrightarrow>
      status_entry a' cid ''type'' = Some (PyStr ''ip_camera'') \<and>
      status_entry a' cid ''url'' = Some (PyStr ip)) \<and>
   (\<forall>cid name filename now loaded cap a'.
      upload_file a (Some name) cid filename now loaded cap = (Success, a') \<longrightarrow>
      status_entry a' cid ''type'' = Some (PyStr ''video_file'') \<and>
      status_entry a' cid ''url'' = Some (PyStr filename)) \<and>
   (\<forall>cid joined r a'.
      close_camera a cid joined = (r, a') \<longrightarrow>
      status_entry a' cid ''type'' = Some (PyStr ''offline'') \<and>
      status_entry a' cid ''url'' = Some PyNone)"
proof -
  note w = worker_step_other [of a t tk]
  have 1: "camera_status (worker_step a t tk) = camera_status a" using w by simp
  have 2: "\<forall>addr k. k \<notin> {''count'', ''fall'', ''timestamp''} \<longrightarrow>
      cells (dicts (worker_step a t tk)) addr k = cells (dicts a) addr k"
    using w by (simp add: other_entries_def)
  have 3: "\<forall>cid. status_entry (worker_step a t tk) cid ''type'' = status_entry a cid ''type'' \<and>
          status_entry (worker_step a t tk) cid ''url'' = status_entry a cid ''url''"
    using 1 2 by (simp add: status_entry_def split: option.splits)
  have 4: "\<forall>self h c fd now.
      cells (write_status self h c fd now) (status self) =
        (cells h (status self))
          (''count'' \<mapsto> PyInt c, ''fall'' \<mapsto> PyBool fd, ''timestamp'' \<mapsto> PyStr now) \<and>
      (\<forall>addr. addr \<noteq> status self \<longrightarrow> cells (write_status self h c fd now) addr = cells h addr)"
    by (simp add: write_status_def)
  have 5: "\<forall>is_open fs self h q e p' h' q' addr k.
      process_video_frames is_open fs self h q = (e, (p', h', q')) \<longrightarrow>
      k \<notin> {''count'', ''fall'', ''timestamp''} \<longrightarrow> cells h' addr k = cells h addr k"
    using process_video_frames_other unfolding other_entries_def by blast
  have 6: "\<forall>cid ip now loaded a'.
      set_ip a cid (Some ip) now loaded = (Success, a') \<longrightarrow>
      status_entry a' cid ''type'' = Some (PyStr ''ip_camera'') \<and>
      status_entry a' cid ''url'' = Some (PyStr ip)"
    using set_ip_entries by blast
  have 7: "\<forall>cid name filename now loaded cap a'.
      upload_file a (Some name) cid filename now loaded cap = (Success, a') \<longrightarrow>
      status_entry a' cid ''type'' = Some (PyStr ''video_file'') \<and>
      status_entry a' cid ''url'' = Some (PyStr filename)"
    using upload_file_entries by blast
  have 8: "\<forall>cid joined r a'.
      close_camera a cid joined = (r, a') \<longrightarrow>
      status_entry a' cid ''type'' = Some (PyStr ''offline'') \<and>
      status_entry a' cid ''url'' = Some PyNone"
    using close_camera_entries by blast
  from 1 2 3 4 5 6 7 8 show ?thesis by (intro conjI)
qed

lemma demo_app1_success:
  "set_ip initial_app 1 (Some ''rtsp://10.0.0.7/live'') ''2024-01-01T00:00:00'' demo_load_failure =
     (Success, demo_app1)"
  by (simp add: demo_app1_def set_ip_def set_camera_status_def new_dict_def get_processor_def
      initial_app_def init_def load_model_def demo_load_failure_def start_ip_camera_def
      spawn_def Let_def)

theorem worker_writes_three_entries_witness:
  "status_entry demo_app1 1 ''url'' = Some (PyStr ''rtsp://10.0.0.7/live'') \<and>
   status_entry (worker_step demo_app1 0 demo_tick) 1 ''url'' =
     Some (PyStr ''rtsp://10.0.0.7/live'') \<and>
   status_entry (worker_step demo_app1 0 demo_tick) 1 ''type'' = Some (PyStr ''ip_camera'')"
proof -
  from worker_writes_three_entries [of initial_app 0 demo_tick]
  have "\<forall>cid ip now loaded a'.
      set_ip initial_app cid (Some ip) now loaded = (Success, a') \<longrightarrow>
      status_entry a' cid ''type'' = Some (PyStr ''ip_camera'') \<and>
      status_entry a' cid ''url'' = Some (PyStr ip)"
    by (elim conjE)
  with demo_app1_success
  have s: "status_entry demo_app1 1 ''type'' = Some (PyStr ''ip_camera'')"
      "status_entry demo_app1 1 ''url'' = Some (PyStr ''rtsp://10.0.0.7/live'')"
    by blast+
  from worker_writes_three_entries [of demo_app1 0 demo_tick]
  have "\<forall>cid. status_entry (worker_step demo_app1 0 demo_tick) cid ''type'' =
            status_entry demo_app1 cid ''type'' \<and>
          status_entry (worker_step demo_app1 0 demo_tick) cid ''url'' =
            status_entry demo_app1 cid ''url''"
    by (elim conjE)
  with s show ?thesis by simp
qed

section \<open>Workers and restarts\<close>

lemma simulate_people_lengths:
  "simulate_people i ps rand (ds, fd, fb) = (ps', ds', fd', fb') \<Longrightarrow>
     length ps' = length ps \<and> length ds' = length ds + length ps"
proof (induction ps arbitrary: i ds fd fb ps' ds' fd' fb')
  case Nil
  then show ?case by simp
next
  case (Cons p ps)
  let ?p' = "maybe_fall (rand i) (move_person 640 480 p)"
  let ?acc = "(ds @ [\<lparr>bbox = person_box ?p', confidence = lit_0_9, det_id = i\<rparr>],
               (if fallen ?p' then True else fd),
               (if fallen ?p' then Some (person_box ?p') else fb))"
  obtain ps1 ds1 fd1 fb1 where r: "simulate_people (Suc i) ps rand ?acc = (ps1, ds1, fd1, fb1)"
    by (metis prod.exhaust)
  from Cons.prems r have "ps' = ?p' # ps1" "ds' = ds1"
    by (simp_all add: Let_def)
  moreover from Cons.IH [OF r] have "length ps1 = length ps" "length ds1 = length ds + 1 + length ps"
    by simp_all
  ultimately show ?case by simp
qed

lemma annotate_and_publish_ok:
  assumes "\<bar>total_people_count self + c\<bar> < 2 ^ 1023"
    and "0 < maxsize q" and "int (length (entries q)) \<le> maxsize q"
    and "copy_fault t = None"
  shows "\<exists>fr. annotate_and_publish self h q t frame ds c fd fb =
           (Continues,
            (self\<lparr>total_people_count := total_people_count self + c,
                  frame_count := frame_count self + 1,
                  max_people_count := max (max_people_count self) c\<rparr>,
             write_status self h c fd (status_clock t),
             q\<lparr>entries := drop (Suc (length (entries q)) - nat (maxsize q)) (entries q @ [fr])\<rparr>))"
proof -
  have "max (frame_count self + 1) 1 \<noteq> 0" by simp
  from int_truediv_small [OF this assms(1)]
  obtain avg where avg: "int_truediv (total_people_count self + c) (max (frame_count self + 1) 1) = Inr avg"
    by blast
  have ws: "write_status (self\<lparr>total_people_count := total_people_count self + c,
                  frame_count := frame_count self + 1,
                  max_people_count := max (max_people_count self) c\<rparr>) h c fd (status_clock t) =
      write_status self h c fd (status_clock t)"
    by (simp add: write_status_def)
  let ?self' = "self\<lparr>total_people_count := total_people_count self + c,
                  frame_count := frame_count self + 1,
                  max_people_count := max (max_people_count self) c\<rparr>"
  obtain fr where dd:
    "draw_detections self frame ds c fd fb (overlay_clock t) = (?self', Inr fr)"
    using avg by (simp add: draw_detections_def draw_statistics_def Let_def)
  have push: "push_frame q fr =
      Returns (q\<lparr>entries := drop (Suc (length (entries q)) - nat (maxsize q)) (entries q @ [fr])\<rparr>)"
    by (rule push_frame_bounded [OF assms(2,3)])
  have "annotate_and_publish self h q t frame ds c fd fb =
           (Continues,
            (?self', write_status self h c fd (status_clock t),
             q\<lparr>entries := drop (Suc (length (entries q)) - nat (maxsize q)) (entries q @ [fr])\<rparr>))"
    by (simp add: annotate_and_publish_def assms(4) dd push ws Let_def del: drop_append)
  then show ?thesis by blast
qed

lemma worker_step_ip:
  assumes th: "find (\<lambda>th. thread_id th = t) (threads (rt a)) = Some th"
    and job: "locals th = Ip_job people"
    and p: "video_processors a (owner th) = Some p"
    and run: "running p"
    and q: "frame_queues a (frame_queue p) = Some q"
    and cap: "0 < maxsize q" "int (length (entries q)) \<le> maxsize q"
    and small: "\<bar>total_people_count p + int (length people)\<bar> < 2 ^ 1023"
    and ok: "copy_fault tk = None"
  shows "\<exists>people' fr.
           length people' = length people \<and>
           threads (rt (worker_step a t tk)) =
             map (\<lambda>x. if thread_id x = t then x\<lparr>locals := Ip_job people'\<rparr> else x)
               (threads (rt a)) \<and>
           video_processors (worker_step a t tk) =
             (video_processors a)(owner th \<mapsto>
                p\<lparr>total_people_count := total_people_count p + int (length people),
                  frame_count := frame_count p + 1,
                  max_people_count := max (max_people_count p) (int (length people))\<rparr>) \<and>
           frame_queues (worker_step a t tk) =
             (frame_queues a)(frame_queue p \<mapsto>
                q\<lparr>entries := drop (Suc (length (entries q)) - nat (maxsize q)) (entries q @ [fr])\<rparr>)"
proof -
  obtain people' ds fd fb where
    sim: "simulate_people 0 people (randoms tk) ([], False, None) = (people', ds, fd, fb)"
    by (metis prod.exhaust)
  from simulate_people_lengths [OF sim]
  have len: "length people' = length people" "length ds = length people" by simp_all
  have "copy_fault (tick.truncate tk) = None"
    using ok by (simp add: tick.truncate_def)
  from annotate_and_publish_ok [OF _ cap this, of p "int (length ds)" "dicts a"
      blank_frame ds fd fb] small len
  obtain fr where ann:
    "annotate_and_publish p (dicts a) q (tick.truncate tk) blank_frame ds (int (length ds)) fd fb =
       (Continues,
        (p\<lparr>total_people_count := total_people_count p + int (length people),
            frame_count := frame_count p + 1,
            max_people_count := max (max_people_count p) (int (length people))\<rparr>,
         write_status p (dicts a) (int (length ds)) fd (status_clock (tick.truncate tk)),
         q\<lparr>entries := drop (Suc (length (entries q)) - nat (maxsize q)) (entries q @ [fr])\<rparr>))"
    by auto
  have "worker_step a t tk =
      settle a t (owner th) (Ip_job people')
        (annotate_and_publish p (dicts a) q (tick.truncate tk) blank_frame ds (int (length ds)) fd fb)"
    using th job p run q sim by (simp add: worker_step_def ip_camera_body_def)
  then have "worker_step a t tk =
      set_locals (publish a (owner th)
        (p\<lparr>total_people_count := total_people_count p + int (length people),
            frame_count := frame_count p + 1,
            max_people_count := max (max_people_count p) (int (length people))\<rparr>,
         write_status p (dicts a) (int (length ds)) fd (status_clock (tick.truncate tk)),
         q\<lparr>entries := drop (Suc (length (entries q)) - nat (maxsize q)) (entries q @ [fr])\<rparr>))
        t (Ip_job people')"
    by (simp only: ann settle_def prod.case step_end.case)
  then show ?thesis
    using len(1)
    by (intro exI [of _ people'] exI [of _ fr])
       (simp add: publish_def set_locals_def del: drop_append)
qed

lemma video_file_body_caught:
  "model self = Some m \<Longrightarrow> detect_people_try m frame = Inl e \<Longrightarrow>
     video_file_body self h q t frame = annotate_and_publish self h q t frame [] 0 False None"
  by (simp add: video_file_body_def detect_people_def)

lemma demo_app_video_state:
  "threads (rt demo_app_video) = [\<lparr>thread_id = 0, owner = 2, locals = File_job demo_capture\<rparr>]"
  "video_processors demo_app_video 2 = Some demo_worker2"
  "frame_queues demo_app_video 2 = Some \<lparr>maxsize = 10, entries = []\<rparr>"
  by (simp_all add: demo_app_video_def upload_file_def set_camera_status_def new_dict_def
      get_processor_def initial_app_def init_def load_model_def start_video_file_def spawn_def
      demo_worker2_def Let_def)

lemma demo_first_pass:
  "\<exists>fr. video_file_body demo_worker2 h \<lparr>maxsize = 10, entries = []\<rparr>
           \<lparr>overlay_clock = c1, status_clock = c2, copy_fault = None\<rparr> frame =
         (Continues,
          (demo_worker2\<lparr>total_people_count := 0, frame_count := 1, max_people_count := 0\<rparr>,
           write_status demo_worker2 h 0 False c2,
           \<lparr>maxsize = 10, entries = [fr]\<rparr>))"
proof -
  let ?t = "\<lparr>overlay_clock = c1, status_clock = c2, copy_fault = None\<rparr>"
  let ?q = "\<lparr>maxsize = 10, entries = []\<rparr> :: frame py_queue"
  have m: "model demo_worker2 = Some demo_failing_model"
    by (simp add: demo_worker2_def)
  have e: "detect_people_try demo_failing_model frame = Inl (LibraryError ''CUDA out of memory'')"
    by (simp add: detect_people_try_def demo_failing_model_def)
  have b: "video_file_body demo_worker2 h ?q ?t frame =
      annotate_and_publish demo_worker2 h ?q ?t frame [] 0 False None"
    by (rule video_file_body_caught [OF m e])
  from annotate_and_publish_ok [of demo_worker2 0 ?q ?t h frame "[]" False None]
  show ?thesis
    unfolding b by (simp add: demo_worker2_def)
qed


lemma demo_worker2_counted:
  "demo_worker2\<lparr>total_people_count := 0, frame_count := 1, max_people_count := 0\<rparr> =
     demo_worker2\<lparr>frame_count := 1\<rparr>"
  by (simp add: demo_worker2_def)

lemma video_file_body_continues:
  assumes "video_file_body p h q t f = (Continues, (p', h', q'))"
    and "0 < maxsize q" and "int (length (entries q)) \<le> maxsize q"
  shows "\<exists>fr. q' = q\<lparr>entries := drop (Suc (length (entries q)) - nat (maxsize q)) (entries q @ [fr])\<rparr>"
    and "frame_queue p' = frame_queue p"
  using assms(1) push_frame_bounded [OF assms(2,3)]
  by (auto simp: video_file_body_def annotate_and_publish_def draw_detections_def
      draw_statistics_def Let_def
      split: sum.splits prod.splits option.splits blocking.splits bool.splits)

lemma worker_step_file:
  assumes "find (\<lambda>th. thread_id th = t) (threads (rt b)) = Some th"
    and "locals th = File_job cap"
    and "video_processors b (owner th) = Some p"
    and "running p" and "opened cap" and "pending cap = (frame, ft) # rest"
    and "frame_queues b (frame_queue p) = Some q"
    and "video_file_body p (dicts b) q ft frame = (Continues, (p', h', q'))"
  shows "worker_step b t tk =
           set_locals (publish b (owner th) (p', h', q')) t (File_job (cap\<lparr>pending := rest\<rparr>))"
  using assms by (simp add: worker_step_def settle_def)

lemma worker_step_stopped:
  assumes "find (\<lambda>th. thread_id th = t) (threads (rt b)) = Some th"
    and "video_processors b (owner th) = Some p"
    and "frame_queues b (frame_queue p) = Some q"
    and "\<not> running p"
  shows "worker_step b t tk = finish b t"
  using assms by (cases "locals th") (simp_all add: worker_step_def)

lemma worker_step_source_ended:
  assumes "find (\<lambda>th. thread_id th = t) (threads (rt b)) = Some th"
    and "video_processors b (owner th) = Some p"
    and "frame_queues b (frame_queue p) = Some q"
    and "locals th = File_job cap"
    and "\<not> opened cap \<or> pending cap = []"
  shows "worker_step b t tk = finish b t"
  using assms by (auto simp: worker_step_def)

lemma set_locals_ids:
  "map thread_id (threads (rt (set_locals a t j))) = map thread_id (threads (rt a))"
  by (simp add: set_locals_def comp_def cong: map_cong)

lemma relabel_ids:
  "map thread_id (map (\<lambda>x. if thread_id x = t then x\<lparr>locals := j\<rparr> else x) ts) =
     map thread_id ts"
  by (induction ts) simp_all


lemma set_ip_starts:
  assumes "set_ip a cid (Some ip) now loaded = (Success, a')"
  shows "\<exists>p addr.
           video_processors a' cid = Some p \<and> running p \<and>
           process_thread p = Some (next_thread (rt a)) \<and>
           (\<forall>p0. video_processors a cid = Some p0 \<longrightarrow>
              p = p0\<lparr>running := True, process_thread := Some (next_thread (rt a))\<rparr>) \<and>
           threads (rt a') =
             threads (rt a) @
               [\<lparr>thread_id = next_thread (rt a), owner = camera_id p,
                 locals = Ip_job person_positions\<rparr>] \<and>
           frame_queues a' = frame_queues a \<and>
           camera_status a' cid = Some addr \<and>
           cells (dicts a') addr =
             [''type'' \<mapsto> PyStr ''ip_camera'', ''url'' \<mapsto> PyStr ip,
              ''count'' \<mapsto> PyInt 0, ''fall'' \<mapsto> PyBool False, ''timestamp'' \<mapsto> PyStr now]"
  using assms
  by (auto simp: set_ip_def set_camera_status_def new_dict_def get_processor_def
      init_def start_ip_camera_def spawn_def Let_def
      split: if_splits sum.splits option.splits prod.splits)

lemma upload_file_starts:
  assumes "upload_file a (Some name) cid filename now loaded cap = (Success, a')"
  shows "\<exists>p addr.
           video_processors a' cid = Some p \<and> running p \<and>
           process_thread p = Some (next_thread (rt a)) \<and>
           (\<forall>p0. video_processors a cid = Some p0 \<longrightarrow>
              p = p0\<lparr>running := True, process_thread := Some (next_thread (rt a))\<rparr>) \<and>
           threads (rt a') =
             threads (rt a) @
               [\<lparr>thread_id = next_thread (rt a), owner = camera_id p,
                 locals = File_job cap\<rparr>] \<and>
           frame_queues a' = frame_queues a \<and>
           camera_status a' cid = Some addr \<and>
           cells (dicts a') addr =
             [''type'' \<mapsto> PyStr ''video_file'', ''url'' \<mapsto> PyStr filename,
              ''count'' \<mapsto> PyInt 0, ''fall'' \<mapsto> PyBool False, ''timestamp'' \<mapsto> PyStr now]"
  using assms
  by (auto simp: upload_file_def set_camera_status_def new_dict_def get_processor_def
      init_def start_video_file_def spawn_def Let_def
      split: if_splits sum.splits option.splits prod.splits)

lemma close_camera_threads:
  assumes "video_processors a cid = Some p" and "frame_queues a (frame_queue p) = Some q0"
  shows "threads (rt (snd (close_camera a cid joined))) =
           (case process_thread p of
              None \<Rightarrow> threads (rt a)
            | Some t \<Rightarrow>
                if joined then filter (\<lambda>th. thread_id th \<noteq> t) (threads (rt a))
                else threads (rt a))"
  using assms
  by (simp add: close_camera_def set_camera_status_def new_dict_def stop_def thread_join_def
      Let_def split: option.splits)


lemma demo_app2_success:
  "set_ip demo_app1 1 (Some ''rtsp://10.0.0.8/live'') ''2024-01-01T00:00:05'' demo_load_failure =
     (Success, demo_app2)"
  by (simp add: demo_app2_def set_ip_def set_camera_status_def new_dict_def get_processor_def
      demo_app1_processor start_ip_camera_def spawn_def Let_def)

lemma demo_app2_state:
  "threads (rt demo_app2) =
     [\<lparr>thread_id = 0, owner = 1, locals = Ip_job person_positions\<rparr>,
      \<lparr>thread_id = 1, owner = 1, locals = Ip_job person_positions\<rparr>]"
  "video_processors demo_app2 1 = Some (demo_worker1\<lparr>process_thread := Some 1\<rparr>)"
  "frame_queues demo_app2 1 = Some \<lparr>maxsize = 10, entries = []\<rparr>"
  by (simp_all add: demo_app2_def set_ip_def set_camera_status_def new_dict_def get_processor_def
      demo_app1_processor demo_app1_threads demo_app1_queue start_ip_camera_def spawn_def
      demo_worker1_def Let_def)

lemma demo_app_closed_state:
  "threads (rt demo_app_closed) = []"
  "next_thread (rt demo_app_closed) = 1"
  "video_processors demo_app_closed 1 = Some (demo_worker1\<lparr>running := False\<rparr>)"
  "frame_queues demo_app_closed 1 = Some \<lparr>maxsize = 10, entries = []\<rparr>"
  by (simp_all add: demo_app_closed_def close_camera_def set_camera_status_def new_dict_def
      stop_def thread_join_def clear_queue_entries demo_app1_processor demo_app1_threads
      demo_app1_queue demo_worker1_def Let_def)

lemma demo_app3_state:
  "threads (rt demo_app3) = [\<lparr>thread_id = 1, owner = 1, locals = Ip_job person_positions\<rparr>]"
  by (simp add: demo_app3_def set_ip_def set_camera_status_def new_dict_def get_processor_def
      demo_app_closed_state start_ip_camera_def spawn_def demo_worker1_def Let_def)

text \<open>
  Claim C2 says that a new start for a camera whose pipeline is running first stops the
  existing worker, so that a camera never has two.  The handlers do not: after a second
  \<^verbatim>\<open>set_ip\<close> for camera 1 there are two threads for it, both go on taking passes
  while \<^verbatim>\<open>running\<close> is true, and both put their frames into the one queue.  Had
  the camera been closed first, with the join completed, the second \<^verbatim>\<open>set_ip\<close>
  would have left one thread.
\<close>

theorem restart_keeps_old_worker:
  "fst (set_ip demo_app1 1 (Some ''rtsp://10.0.0.8/live'') ''2024-01-01T00:00:05''
          demo_load_failure) = Success \<and>
   map thread_id (workers_of demo_app1 1) = [0] \<and>
   map thread_id (workers_of demo_app2 1) = [0, 1] \<and>
   map thread_id (workers_of (worker_step (worker_step demo_app2 0 demo_tick) 1 demo_tick) 1) =
     [0, 1] \<and>
   (\<exists>q. frame_queues (worker_step (worker_step demo_app2 0 demo_tick) 1 demo_tick) 1 = Some q \<and>
        length (entries q) = 2) \<and>
   map thread_id (workers_of demo_app_closed 1) = [] \<and>
   map thread_id (workers_of demo_app3 1) = [1]"
proof -
  let ?p = "demo_worker1\<lparr>process_thread := Some 1\<rparr>"
  let ?q = "\<lparr>maxsize = 10, entries = []\<rparr> :: frame py_queue"
  let ?th0 = "\<lparr>thread_id = 0, owner = 1, locals = Ip_job person_positions\<rparr>"
  let ?th1 = "\<lparr>thread_id = 1, owner = 1, locals = Ip_job person_positions\<rparr>"
  define a3 where "a3 = worker_step demo_app2 0 demo_tick"
  define a4 where "a4 = worker_step a3 1 demo_tick"
  have f0: "find (\<lambda>th. thread_id th = 0) (threads (rt demo_app2)) = Some ?th0"
    by (simp add: demo_app2_state)
  have pq: "frame_queue ?p = 1" "running ?p" "total_people_count ?p = 0"
    by (simp_all add: demo_worker1_def)
  have three: "length person_positions = 3" by (simp add: person_positions_def)
  have ok: "copy_fault demo_tick = None" by (simp add: demo_tick_def)
  from worker_step_ip [OF f0, of person_positions ?p ?q demo_tick]
  obtain people1 fr1 where s1:
    "length people1 = 3"
    "threads (rt a3) = [?th0\<lparr>locals := Ip_job people1\<rparr>, ?th1]"
    "video_processors a3 =
       (video_processors demo_app2)(1 \<mapsto>
          ?p\<lparr>total_people_count := 3, frame_count := frame_count ?p + 1,
             max_people_count := max (max_people_count ?p) 3\<rparr>)"
    "frame_queues a3 = (frame_queues demo_app2)(1 \<mapsto> ?q\<lparr>entries := [fr1]\<rparr>)"
    using pq three ok by (auto simp: demo_app2_state a3_def)
  let ?p3 = "?p\<lparr>total_people_count := 3, frame_count := frame_count ?p + 1,
             max_people_count := max (max_people_count ?p) 3\<rparr>"
  have f1: "find (\<lambda>th. thread_id th = 1) (threads (rt a3)) = Some ?th1"
    by (simp add: s1(2))
  have pq3: "frame_queue ?p3 = 1" "running ?p3" "total_people_count ?p3 = 3"
    by (simp_all add: demo_worker1_def)
  from worker_step_ip [OF f1, of person_positions ?p3 "?q\<lparr>entries := [fr1]\<rparr>" demo_tick]
  obtain people2 fr2 where s2:
    "threads (rt a4) = [?th0\<lparr>locals := Ip_job people1\<rparr>, ?th1\<lparr>locals := Ip_job people2\<rparr>]"
    "frame_queues a4 = (frame_queues a3)(1 \<mapsto> ?q\<lparr>entries := [fr1, fr2]\<rparr>)"
    using pq3 three s1 ok by (auto simp: a4_def)
  have "map thread_id (workers_of a4 1) = [0, 1]"
    by (simp add: workers_of_def s2(1))
  moreover have "\<exists>q. frame_queues a4 1 = Some q \<and> length (entries q) = 2"
    by (simp add: s2(2))
  moreover have "map thread_id (workers_of demo_app2 1) = [0, 1]"
    by (simp add: workers_of_def demo_app2_state)
  moreover have "map thread_id (workers_of demo_app1 1) = [0]"
    by (simp add: workers_of_def demo_app1_threads)
  moreover have "map thread_id (workers_of demo_app_closed 1) = []"
    by (simp add: workers_of_def demo_app_closed_state)
  moreover have "map thread_id (workers_of demo_app3 1) = [1]"
    by (simp add: workers_of_def demo_app3_state)
  ultimately show ?thesis
    by (simp add: demo_app2_success a3_def a4_def)
qed

text \<open>
  Claim C2 as amended.  A successful \<^verbatim>\<open>set_ip\<close> or \<^verbatim>\<open>upload_file\<close> stops no
  thread: it gives the camera a new status dictionary, reuses the processor the camera
  has, sets \<^verbatim>\<open>running\<close>, stores the handle of a new thread in \<^verbatim>\<open>process_thread\<close>
  and starts that thread in addition to all that were running; the queues stay as they
  are.  A thread whose processor has \<^verbatim>\<open>running\<close> true stays among the threads and
  puts a frame into the processor's queue on every pass that completes.  A thread ends on
  the pass on which it finds \<^verbatim>\<open>running\<close> false, or its file not open or exhausted,
  and ending changes nothing but the list of threads.  \<^verbatim>\<open>close_camera\<close> ends a
  thread only when the join completes, and then only the thread whose handle
  \<^verbatim>\<open>process_thread\<close> holds.
\<close>

theorem start_adds_worker:
  "(\<forall>a'. set_ip a cid (Some ip) now loaded = (Success, a') \<longrightarrow>
      (\<exists>p addr.
         video_processors a' cid = Some p \<and> running p \<and>
         process_thread p = Some (next_thread (rt a)) \<and>
         (\<forall>p0. video_processors a cid = Some p0 \<longrightarrow>
            p = p0\<lparr>running := True, process_thread := Some (next_thread (rt a))\<rparr>) \<and>
         threads (rt a') =
           threads (rt a) @
             [\<lparr>thread_id = next_thread (rt a), owner = camera_id p,
               locals = Ip_job person_positions\<rparr>] \<and>
         frame_queues a' = frame_queues a \<and>
         camera_status a' cid = Some addr \<and>
         cells (dicts a') addr =
           [''type'' \<mapsto> PyStr ''ip_camera'', ''url'' \<mapsto> PyStr ip,
            ''count'' \<mapsto> PyInt 0, ''fall'' \<mapsto> PyBool False, ''timestamp'' \<mapsto> PyStr now])) \<and>
   (\<forall>a'. upload_file a (Some name) cid filename now loaded cap = (Success, a') \<longrightarrow>
      (\<exists>p addr.
         video_processors a' cid = Some p \<and> running p \<and>
         process_thread p = Some (next_thread (rt a)) \<and>
         (\<forall>p0. video_processors a cid = Some p0 \<longrightarrow>
            p = p0\<lparr>running := True, process_thread := Some (next_thread (rt a))\<rparr>) \<and>
         threads (rt a') =
           threads (rt a) @
             [\<lparr>thread_id = next_thread (rt a), owner = camera_id p,
               locals = File_job cap\<rparr>] \<and>
         frame_queues a' = frame_queues a \<and>
         camera_status a' cid = Some addr \<and>
         cells (dicts a') addr =
           [''type'' \<mapsto> PyStr ''video_file'', ''url'' \<mapsto> PyStr filename,
            ''count'' \<mapsto> PyInt 0, ''fall'' \<mapsto> PyBool False, ''timestamp'' \<mapsto> PyStr now])) \<and>
   (\<forall>b t th people p q tk.
      find (\<lambda>th. thread_id th = t) (threads (rt b)) = Some th \<longrightarrow>
      locals th = Ip_job people \<longrightarrow>
      video_processors b (owner th) = Some p \<longrightarrow> running p \<longrightarrow>
      frame_queues b (frame_queue p) = Some q \<longrightarrow>
      0 < maxsize q \<longrightarrow> int (length (entries q)) \<le> maxsize q \<longrightarrow>
      \<bar>total_people_count p + int (length people)\<bar> < 2 ^ 1023 \<longrightarrow>
      copy_fault tk = None \<longrightarrow>
      map thread_id (threads (rt (worker_step b t tk))) = map thread_id (threads (rt b)) \<and>
      (\<exists>fr. frame_queues (worker_step b t tk) (frame_queue p) =
         Some (q\<lparr>entries :=
                  drop (Suc (length (entries q)) - nat (maxsize q)) (entries q @ [fr])\<rparr>))) \<and>
   (\<forall>b t th src frame ft rest p q p' h' q' tk.
      find (\<lambda>th. thread_id th = t) (threads (rt b)) = Some th \<longrightarrow>
      locals th = File_job src \<longrightarrow>
      video_processors b (owner th) = Some p \<longrightarrow> running p \<longrightarrow>
      opened src \<longrightarrow> pending src = (frame, ft) # rest \<longrightarrow>
      frame_queues b (frame_queue p) = Some q \<longrightarrow>
      0 < maxsize q \<longrightarrow> int (length (entries q)) \<le> maxsize q \<longrightarrow>
      video_file_body p (dicts b) q ft frame = (Continues, (p', h', q')) \<longrightarrow>
      map thread_id (threads (rt (worker_step b t tk))) = map thread_id (threads (rt b)) \<and>
      (\<exists>fr. frame_queues (worker_step b t tk) (frame_queue p) =
         Some (q\<lparr>entries :=
                  drop (Suc (length (entries q)) - nat (maxsize q)) (entries q @ [fr])\<rparr>))) \<and>
   (\<forall>b t th p q tk.
      find (\<lambda>th. thread_id th = t) (threads (rt b)) = Some th \<longrightarrow>
      video_processors b (owner th) = Some p \<longrightarrow>
      frame_queues b (frame_queue p) = Some q \<longrightarrow> \<not> running p \<longrightarrow>
      worker_step b t tk = finish b t) \<and>
   (\<forall>b t th p q src tk.
      find (\<lambda>th. thread_id th = t) (threads (rt b)) = Some th \<longrightarrow>
      video_processors b (owner th) = Some p \<longrightarrow>
      frame_queues b (frame_queue p) = Some q \<longrightarrow>
      locals th = File_job src \<longrightarrow> \<not> opened src \<or> pending src = [] \<longrightarrow>
      worker_step b t tk = finish b t) \<and>
   (\<forall>b t. threads (rt (finish b t)) = filter (\<lambda>th. thread_id th \<noteq> t) (threads (rt b)) \<and>
      frame_queues (finish b t) = frame_queues b \<and>
      video_processors (finish b t) = video_processors b \<and> dicts (finish b t) = dicts b) \<and>
   (\<forall>b c p q0 joined.
      video_processors b c = Some p \<longrightarrow> frame_queues b (frame_queue p) = Some q0 \<longrightarrow>
      threads (rt (snd (close_camera b c joined))) =
        (case process_thread p of
           None \<Rightarrow> threads (rt b)
         | Some t \<Rightarrow>
             if joined then filter (\<lambda>th. thread_id th \<noteq> t) (threads (rt b))
             else threads (rt b)))"
proof ((intro conjI); (intro allI impI))
  fix a'
  assume "set_ip a cid (Some ip) now loaded = (Success, a')"
  then show "\<exists>p addr.
         video_processors a' cid = Some p \<and> running p \<and>
         process_thread p = Some (next_thread (rt a)) \<and>
         (\<forall>p0. video_processors a cid = Some p0 \<longrightarrow>
            p = p0\<lparr>running := True, process_thread := Some (next_thread (rt a))\<rparr>) \<and>
         threads (rt a') =
           threads (rt a) @
             [\<lparr>thread_id = next_thread (rt a), owner = camera_id p,
               locals = Ip_job person_positions\<rparr>] \<and>
         frame_queues a' = frame_queues a \<and>
         camera_status a' cid = Some addr \<and>
         cells (dicts a') addr =
           [''type'' \<mapsto> PyStr ''ip_camera'', ''url'' \<mapsto> PyStr ip,
            ''count'' \<mapsto> PyInt 0, ''fall'' \<mapsto> PyBool False, ''timestamp'' \<mapsto> PyStr now]"
    by (rule set_ip_starts)
next
  fix a'
  assume "upload_file a (Some name) cid filename now loaded cap = (Success, a')"
  then show "\<exists>p addr.
         video_processors a' cid = Some p \<and> running p \<and>
         process_thread p = Some (next_thread (rt a)) \<and>
         (\<forall>p0. video_processors a cid = Some p0 \<longrightarrow>
            p = p0\<lparr>running := True, process_thread := Some (next_thread (rt a))\<rparr>) \<and>
         threads (rt a') =
           threads (rt a) @
             [\<lparr>thread_id = next_thread (rt a), owner = camera_id p,
               locals = File_job cap\<rparr>] \<and>
         frame_queues a' = frame_queues a \<and>
         camera_status a' cid = Some addr \<and>
         cells (dicts a') addr =
           [''type'' \<mapsto> PyStr ''video_file'', ''url'' \<mapsto> PyStr filename,
            ''count'' \<mapsto> PyInt 0, ''fall'' \<mapsto> PyBool False, ''timestamp'' \<mapsto> PyStr now]"
    by (rule upload_file_starts)
next
  fix b :: app and t th people p q and tk :: ip_tick
  assume th: "find (\<lambda>th. thread_id th = t) (threads (rt b)) = Some th"
    and job: "locals th = Ip_job people"
    and p: "video_processors b (owner th) = Some p" and run: "running p"
    and q: "frame_queues b (frame_queue p) = Some q"
    and cap: "0 < maxsize q" "int (length (entries q)) \<le> maxsize q"
    and small: "\<bar>total_people_count p + int (length people)\<bar> < 2 ^ 1023"
    and ok: "copy_fault tk = None"
  from worker_step_ip [OF th job p run q cap small ok]
  obtain people' fr where
    ts: "threads (rt (worker_step b t tk)) =
           map (\<lambda>x. if thread_id x = t then x\<lparr>locals := Ip_job people'\<rparr> else x) (threads (rt b))"
    and fq: "frame_queues (worker_step b t tk) =
           (frame_queues b)(frame_queue p \<mapsto>
              q\<lparr>entries := drop (Suc (length (entries q)) - nat (maxsize q)) (entries q @ [fr])\<rparr>)"
    by blast
  have "map thread_id (threads (rt (worker_step b t tk))) = map thread_id (threads (rt b))"
    by (simp only: ts relabel_ids)
  moreover have "frame_queues (worker_step b t tk) (frame_queue p) =
      Some (q\<lparr>entries := drop (Suc (length (entries q)) - nat (maxsize q)) (entries q @ [fr])\<rparr>)"
    by (simp only: fq fun_upd_same)
  ultimately show "map thread_id (threads (rt (worker_step b t tk))) = map thread_id (threads (rt b)) \<and>
      (\<exists>fr. frame_queues (worker_step b t tk) (frame_queue p) =
         Some (q\<lparr>entries :=
                  drop (Suc (length (entries q)) - nat (maxsize q)) (entries q @ [fr])\<rparr>))"
    by blast
next
  fix b :: app and t th src frame ft rest p q p' h' q' and tk :: ip_tick
  assume th: "find (\<lambda>th. thread_id th = t) (threads (rt b)) = Some th"
    and job: "locals th = File_job src"
    and p: "video_processors b (owner th) = Some p" and run: "running p"
    and src: "opened src" "pending src = (frame, ft) # rest"
    and q: "frame_queues b (frame_queue p) = Some q"
    and cap: "0 < maxsize q" "int (length (entries q)) \<le> maxsize q"
    and body: "video_file_body p (dicts b) q ft frame = (Continues, (p', h', q'))"
  from video_file_body_continues [OF body cap]
  obtain fr where q': "q' = q\<lparr>entries :=
      drop (Suc (length (entries q)) - nat (maxsize q)) (entries q @ [fr])\<rparr>"
    and fq: "frame_queue p' = frame_queue p"
    by blast
  have step: "worker_step b t tk =
      set_locals (publish b (owner th) (p', h', q')) t (File_job (src\<lparr>pending := rest\<rparr>))"
    by (rule worker_step_file [OF th job p run src q body])
  have "map thread_id (threads (rt (worker_step b t tk))) = map thread_id (threads (rt b))"
    by (simp add: step set_locals_ids publish_def)
  moreover have "frame_queues (worker_step b t tk) (frame_queue p) = Some q'"
    by (simp add: step set_locals_def publish_def fq)
  ultimately show "map thread_id (threads (rt (worker_step b t tk))) = map thread_id (threads (rt b)) \<and>
      (\<exists>fr. frame_queues (worker_step b t tk) (frame_queue p) =
         Some (q\<lparr>entries :=
                  drop (Suc (length (entries q)) - nat (maxsize q)) (entries q @ [fr])\<rparr>))"
    using q' by blast
next
  fix b :: app and t th p q and tk :: ip_tick
  assume "find (\<lambda>th. thread_id th = t) (threads (rt b)) = Some th"
    "video_processors b (owner th) = Some p" "frame_queues b (frame_queue p) = Some q"
    "\<not> running p"
  then show "worker_step b t tk = finish b t" by (rule worker_step_stopped)
next
  fix b :: app and t th p q src and tk :: ip_tick
  assume "find (\<lambda>th. thread_id th = t) (threads (rt b)) = Some th"
    "video_processors b (owner th) = Some p" "frame_queues b (frame_queue p) = Some q"
    "locals th = File_job src" "\<not> opened src \<or> pending src = []"
  then show "worker_step b t tk = finish b t" by (rule worker_step_source_ended)
next
  fix b :: app and t
  show "threads (rt (finish b t)) = filter (\<lambda>th. thread_id th \<noteq> t) (threads (rt b)) \<and>
      frame_queues (finish b t) = frame_queues b \<and>
      video_processors (finish b t) = video_processors b \<and> dicts (finish b t) = dicts b"
    by (simp add: finish_def)
next
  fix b :: app and c p q0 joined
  assume "video_processors b c = Some p" "frame_queues b (frame_queue p) = Some q0"
  then show "threads (rt (snd (close_camera b c joined))) =
        (case process_thread p of
           None \<Rightarrow> threads (rt b)
         | Some t \<Rightarrow>
             if joined then filter (\<lambda>th. thread_id th \<noteq> t) (threads (rt b))
             else threads (rt b))"
    by (rule close_camera_threads)
qed


lemma demo_app_video_success:
  "upload_file initial_app (Some ''clip.mp4'') 2 ''camera_2_20240101_000000_clip.mp4''
       ''2024-01-01T00:00:00'' (Inr demo_failing_model) demo_capture =
     (Success, demo_app_video)"
  by (simp add: demo_app_video_def upload_file_def set_camera_status_def new_dict_def
      get_processor_def initial_app_def init_def load_model_def start_video_file_def spawn_def
      Let_def)

lemma demo_app_unreadable_state:
  "threads (rt demo_app_unreadable) =
     [\<lparr>thread_id = 0, owner = 2, locals = File_job \<lparr>opened = False, pending = []\<rparr>\<rparr>]"
  "video_processors demo_app_unreadable 2 = Some demo_worker2"
  "frame_queues demo_app_unreadable 2 = Some \<lparr>maxsize = 10, entries = []\<rparr>"
  by (simp_all add: demo_app_unreadable_def upload_file_def set_camera_status_def new_dict_def
      get_processor_def initial_app_def init_def load_model_def start_video_file_def spawn_def
      demo_worker2_def Let_def)

lemma demo_app_stopping_state:
  "threads (rt demo_app_stopping) =
     [\<lparr>thread_id = 0, owner = 1, locals = Ip_job person_positions\<rparr>]"
  "video_processors demo_app_stopping 1 = Some (demo_worker1\<lparr>running := False\<rparr>)"
  "frame_queues demo_app_stopping 1 = Some \<lparr>maxsize = 10, entries = []\<rparr>"
  by (simp_all add: demo_app_stopping_def close_camera_def set_camera_status_def new_dict_def
      stop_def thread_join_def clear_queue_entries demo_app1_processor demo_app1_threads
      demo_app1_queue demo_worker1_def Let_def)

theorem start_adds_worker_witness:
  "video_processors demo_app2 1 = Some (demo_worker1\<lparr>running := True, process_thread := Some 1\<rparr>) \<and>
   threads (rt demo_app2) =
     threads (rt demo_app1) @ [\<lparr>thread_id = 1, owner = 1, locals = Ip_job person_positions\<rparr>] \<and>
   status_entry demo_app2 1 ''url'' = Some (PyStr ''rtsp://10.0.0.8/live'') \<and>
   status_entry demo_app2 1 ''count'' = Some (PyInt 0) \<and>
   (\<exists>p. video_processors demo_app_video 2 = Some p \<and> running p \<and>
        threads (rt demo_app_video) =
          [\<lparr>thread_id = 0, owner = camera_id p, locals = File_job demo_capture\<rparr>]) \<and>
   map thread_id (threads (rt (worker_step demo_app2 0 demo_tick))) = [0, 1] \<and>
   (\<exists>fr. frame_queues (worker_step demo_app2 0 demo_tick) 1 =
          Some \<lparr>maxsize = 10, entries = [fr]\<rparr>) \<and>
   map thread_id (threads (rt (worker_step demo_app_video 0 demo_tick))) = [0] \<and>
   (\<exists>fr. frame_queues (worker_step demo_app_video 0 demo_tick) 2 =
          Some \<lparr>maxsize = 10, entries = [fr]\<rparr>) \<and>
   threads (rt (worker_step demo_app_stopping 0 demo_tick)) = [] \<and>
   threads (rt (worker_step demo_app_unreadable 0 demo_tick)) = [] \<and>
   threads (rt (snd (close_camera demo_app1 1 True))) = [] \<and>
   threads (rt (snd (close_camera demo_app1 1 False))) = threads (rt demo_app1)"
proof -
  let ?q = "\<lparr>maxsize = 10, entries = []\<rparr> :: frame py_queue"
  note w = start_adds_worker [of demo_app1 1 "''rtsp://10.0.0.8/live''" "''2024-01-01T00:00:05''"
      demo_load_failure "''clip.mp4''" "''f''" demo_capture]
  have th1: "threads (rt demo_app1) = [\<lparr>thread_id = 0, owner = 1, locals = Ip_job person_positions\<rparr>]"
      "next_thread (rt demo_app1) = 1"
    using demo_app1_threads by simp_all
  have w1: "camera_id demo_worker1 = 1" "frame_queue demo_worker1 = 1" "running demo_worker1"
      "process_thread demo_worker1 = Some 0" "total_people_count demo_worker1 = 0"
    by (simp_all add: demo_worker1_def)
  from w have "\<forall>a'. set_ip demo_app1 1 (Some ''rtsp://10.0.0.8/live'') ''2024-01-01T00:00:05''
        demo_load_failure = (Success, a') \<longrightarrow>
      (\<exists>p addr.
         video_processors a' 1 = Some p \<and> running p \<and>
         process_thread p = Some (next_thread (rt demo_app1)) \<and>
         (\<forall>p0. video_processors demo_app1 1 = Some p0 \<longrightarrow>
            p = p0\<lparr>running := True, process_thread := Some (next_thread (rt demo_app1))\<rparr>) \<and>
         threads (rt a') =
           threads (rt demo_app1) @
             [\<lparr>thread_id = next_thread (rt demo_app1), owner = camera_id p,
               locals = Ip_job person_positions\<rparr>] \<and>
         frame_queues a' = frame_queues demo_app1 \<and>
         camera_status a' 1 = Some addr \<and>
         cells (dicts a') addr =
           [''type'' \<mapsto> PyStr ''ip_camera'', ''url'' \<mapsto> PyStr ''rtsp://10.0.0.8/live'',
            ''count'' \<mapsto> PyInt 0, ''fall'' \<mapsto> PyBool False,
            ''timestamp'' \<mapsto> PyStr ''2024-01-01T00:00:05''])"
    by (elim conjE)
  from this [rule_format, OF demo_app2_success]
  obtain p addr where s:
    "video_processors demo_app2 1 = Some p"
    "\<forall>p0. video_processors demo_app1 1 = Some p0 \<longrightarrow>
        p = p0\<lparr>running := True, process_thread := Some (next_thread (rt demo_app1))\<rparr>"
    "threads (rt demo_app2) =
       threads (rt demo_app1) @
         [\<lparr>thread_id = next_thread (rt demo_app1), owner = camera_id p,
           locals = Ip_job person_positions\<rparr>]"
    "frame_queues demo_app2 = frame_queues demo_app1"
    "camera_status demo_app2 1 = Some addr"
    "cells (dicts demo_app2) addr =
       [''type'' \<mapsto> PyStr ''ip_camera'', ''url'' \<mapsto> PyStr ''rtsp://10.0.0.8/live'',
        ''count'' \<mapsto> PyInt 0, ''fall'' \<mapsto> PyBool False,
        ''timestamp'' \<mapsto> PyStr ''2024-01-01T00:00:05'']"
    by blast
  from s(2) demo_app1_processor th1(2)
  have p: "p = demo_worker1\<lparr>running := True, process_thread := Some 1\<rparr>" by simp
  have A1: "video_processors demo_app2 1 =
      Some (demo_worker1\<lparr>running := True, process_thread := Some 1\<rparr>)"
    using s(1) p by simp
  have A2: "threads (rt demo_app2) =
      threads (rt demo_app1) @ [\<lparr>thread_id = 1, owner = 1, locals = Ip_job person_positions\<rparr>]"
    using s(3) p th1(2) w1(1) by simp
  have A3: "status_entry demo_app2 1 ''url'' = Some (PyStr ''rtsp://10.0.0.8/live'')"
      "status_entry demo_app2 1 ''count'' = Some (PyInt 0)"
    using s(5,6) by (simp_all add: status_entry_def)
  have q2: "frame_queues demo_app2 1 = Some ?q"
    using s(4) demo_app1_queue by simp
  note wv = start_adds_worker [of initial_app 2 "''i''" "''2024-01-01T00:00:00''"
      "Inr demo_failing_model" "''clip.mp4''" "''camera_2_20240101_000000_clip.mp4''" demo_capture]
  from wv have "\<forall>a'. upload_file initial_app (Some ''clip.mp4'') 2
        ''camera_2_20240101_000000_clip.mp4'' ''2024-01-01T00:00:00'' (Inr demo_failing_model)
        demo_capture = (Success, a') \<longrightarrow>
      (\<exists>p addr.
         video_processors a' 2 = Some p \<and> running p \<and>
         process_thread p = Some (next_thread (rt initial_app)) \<and>
         (\<forall>p0. video_processors initial_app 2 = Some p0 \<longrightarrow>
            p = p0\<lparr>running := True, process_thread := Some (next_thread (rt initial_app))\<rparr>) \<and>
         threads (rt a') =
           threads (rt initial_app) @
             [\<lparr>thread_id = next_thread (rt initial_app), owner = camera_id p,
               locals = File_job demo_capture\<rparr>] \<and>
         frame_queues a' = frame_queues initial_app \<and>
         camera_status a' 2 = Some addr \<and>
         cells (dicts a') addr =
           [''type'' \<mapsto> PyStr ''video_file'',
            ''url'' \<mapsto> PyStr ''camera_2_20240101_000000_clip.mp4'',
            ''count'' \<mapsto> PyInt 0, ''fall'' \<mapsto> PyBool False,
            ''timestamp'' \<mapsto> PyStr ''2024-01-01T00:00:00''])"
    by (elim conjE)
  from this [rule_format, OF demo_app_video_success]
  have B: "\<exists>p. video_processors demo_app_video 2 = Some p \<and> running p \<and>
      threads (rt demo_app_video) =
        [\<lparr>thread_id = 0, owner = camera_id p, locals = File_job demo_capture\<rparr>]"
    by (auto simp: initial_app_def)
  have f0: "find (\<lambda>th. thread_id th = 0) (threads (rt demo_app2)) =
      Some \<lparr>thread_id = 0, owner = 1, locals = Ip_job person_positions\<rparr>"
    by (simp add: A2 th1)
  have ok: "copy_fault demo_tick = None" by (simp add: demo_tick_def)
  have three: "length person_positions = 3" by (simp add: person_positions_def)
  from w have "\<forall>b t th people p q tk.
      find (\<lambda>th. thread_id th = t) (threads (rt b)) = Some th \<longrightarrow>
      locals th = Ip_job people \<longrightarrow>
      video_processors b (owner th) = Some p \<longrightarrow> running p \<longrightarrow>
      frame_queues b (frame_queue p) = Some q \<longrightarrow>
      0 < maxsize q \<longrightarrow> int (length (entries q)) \<le> maxsize q \<longrightarrow>
      \<bar>total_people_count p + int (length people)\<bar> < 2 ^ 1023 \<longrightarrow>
      copy_fault tk = None \<longrightarrow>
      map thread_id (threads (rt (worker_step b t tk))) = map thread_id (threads (rt b)) \<and>
      (\<exists>fr. frame_queues (worker_step b t tk) (frame_queue p) =
         Some (q\<lparr>entries :=
                  drop (Suc (length (entries q)) - nat (maxsize q)) (entries q @ [fr])\<rparr>))"
    by (elim conjE)
  from this [rule_format, OF f0 _ _ _ _ _ _ _ ok,
      of person_positions "demo_worker1\<lparr>running := True, process_thread := Some 1\<rparr>" ?q]
  have C: "map thread_id (threads (rt (worker_step demo_app2 0 demo_tick))) = [0, 1] \<and>
      (\<exists>fr. frame_queues (worker_step demo_app2 0 demo_tick) 1 =
          Some \<lparr>maxsize = 10, entries = [fr]\<rparr>)"
    using A1 A2 q2 w1 three th1 by simp
  let ?t1 = "\<lparr>overlay_clock = ''2024-01-01 00:00:01'', status_clock = ''2024-01-01T00:00:01'',
              copy_fault = None\<rparr>"
  let ?f1 = "demo_frame\<lparr>origin := Decoded 1\<rparr>"
  have fv: "find (\<lambda>th. thread_id th = 0) (threads (rt demo_app_video)) =
      Some \<lparr>thread_id = 0, owner = 2, locals = File_job demo_capture\<rparr>"
    by (simp add: demo_app_video_state)
  have w2: "running demo_worker2" "frame_queue demo_worker2 = 2"
    by (simp_all add: demo_worker2_def)
  obtain rest where cap: "opened demo_capture" "pending demo_capture = (?f1, ?t1) # rest"
    by (simp add: demo_capture_def)
  from demo_first_pass [of "dicts demo_app_video" "''2024-01-01 00:00:01''"
      "''2024-01-01T00:00:01''" ?f1]
  obtain fr1 where b1:
    "video_file_body demo_worker2 (dicts demo_app_video) ?q ?t1 ?f1 =
       (Continues,
        (demo_worker2\<lparr>total_people_count := 0, frame_count := 1, max_people_count := 0\<rparr>,
         write_status demo_worker2 (dicts demo_app_video) 0 False ''2024-01-01T00:00:01'',
         \<lparr>maxsize = 10, entries = [fr1]\<rparr>))"
    by blast
  from w have "\<forall>b t th src frame ft rest p q p' h' q' tk.
      find (\<lambda>th. thread_id th = t) (threads (rt b)) = Some th \<longrightarrow>
      locals th = File_job src \<longrightarrow>
      video_processors b (owner th) = Some p \<longrightarrow> running p \<longrightarrow>
      opened src \<longrightarrow> pending src = (frame, ft) # rest \<longrightarrow>
      frame_queues b (frame_queue p) = Some q \<longrightarrow>
      0 < maxsize q \<longrightarrow> int (length (entries q)) \<le> maxsize q \<longrightarrow>
      video_file_body p (dicts b) q ft frame = (Continues, (p', h', q')) \<longrightarrow>
      map thread_id (threads (rt (worker_step b t tk))) = map thread_id (threads (rt b)) \<and>
      (\<exists>fr. frame_queues (worker_step b t tk) (frame_queue p) =
         Some (q\<lparr>entries :=
                  drop (Suc (length (entries q)) - nat (maxsize q)) (entries q @ [fr])\<rparr>))"
    by (elim conjE)
  from this [rule_format, OF fv _ _ w2(1) cap(1) cap(2) _ _ _ b1, of demo_tick]
  have D: "map thread_id (threads (rt (worker_step demo_app_video 0 demo_tick))) = [0] \<and>
      (\<exists>fr. frame_queues (worker_step demo_app_video 0 demo_tick) 2 =
          Some \<lparr>maxsize = 10, entries = [fr]\<rparr>)"
    using w2(2) by (simp add: demo_app_video_state)
  have fs: "find (\<lambda>th. thread_id th = 0) (threads (rt demo_app_stopping)) =
      Some \<lparr>thread_id = 0, owner = 1, locals = Ip_job person_positions\<rparr>"
    by (simp add: demo_app_stopping_state)
  from w have stopped: "\<forall>b t th p q tk.
      find (\<lambda>th. thread_id th = t) (threads (rt b)) = Some th \<longrightarrow>
      video_processors b (owner th) = Some p \<longrightarrow>
      frame_queues b (frame_queue p) = Some q \<longrightarrow> \<not> running p \<longrightarrow>
      worker_step b t tk = finish b t"
    by (elim conjE)
  from w have fin: "\<forall>b t.
      threads (rt (finish b t)) = filter (\<lambda>th. thread_id th \<noteq> t) (threads (rt b)) \<and>
      frame_queues (finish b t) = frame_queues b \<and>
      video_processors (finish b t) = video_processors b \<and> dicts (finish b t) = dicts b"
    by (elim conjE)
  from stopped [rule_format, OF fs, of "demo_worker1\<lparr>running := False\<rparr>" ?q demo_tick]
  have "worker_step demo_app_stopping 0 demo_tick = finish demo_app_stopping 0"
    using w1(2) by (simp add: demo_app_stopping_state)
  with fin have E: "threads (rt (worker_step demo_app_stopping 0 demo_tick)) = []"
    by (simp add: demo_app_stopping_state)
  have fu: "find (\<lambda>th. thread_id th = 0) (threads (rt demo_app_unreadable)) =
      Some \<lparr>thread_id = 0, owner = 2, locals = File_job \<lparr>opened = False, pending = []\<rparr>\<rparr>"
    by (simp add: demo_app_unreadable_state)
  from w have "\<forall>b t th p q src tk.
      find (\<lambda>th. thread_id th = t) (threads (rt b)) = Some th \<longrightarrow>
      video_processors b (owner th) = Some p \<longrightarrow>
      frame_queues b (frame_queue p) = Some q \<longrightarrow>
      locals th = File_job src \<longrightarrow> \<not> opened src \<or> pending src = [] \<longrightarrow>
      worker_step b t tk = finish b t"
    by (elim conjE)
  from this [rule_format, OF fu, of demo_worker2 ?q "\<lparr>opened = False, pending = []\<rparr>" demo_tick]
  have "worker_step demo_app_unreadable 0 demo_tick = finish demo_app_unreadable 0"
    using w2(2) by (simp add: demo_app_unreadable_state)
  with fin have F: "threads (rt (worker_step demo_app_unreadable 0 demo_tick)) = []"
    by (simp add: demo_app_unreadable_state)
  from w have "\<forall>b c p q0 joined.
      video_processors b c = Some p \<longrightarrow> frame_queues b (frame_queue p) = Some q0 \<longrightarrow>
      threads (rt (snd (close_camera b c joined))) =
        (case process_thread p of
           None \<Rightarrow> threads (rt b)
         | Some t \<Rightarrow>
             if joined then filter (\<lambda>th. thread_id th \<noteq> t) (threads (rt b))
             else threads (rt b))"
    by (elim conjE)
  from this [rule_format, OF demo_app1_processor, of ?q]
  have G: "threads (rt (snd (close_camera demo_app1 1 True))) = []"
      "threads (rt (snd (close_camera demo_app1 1 False))) = threads (rt demo_app1)"
    using w1 demo_app1_queue th1 by simp_all
  from A1 A2 A3 B C D E F G show ?thesis
    by (simp only: simp_thms)
qed

section \<open>Exceptions in a worker loop\<close>

lemma annotate_fault:
  "copy_fault t = Some e \<Longrightarrow>
     annotate_and_publish self h q t frame ds c fd fb = (Raised e, (self, h, q))"
  by (simp add: annotate_and_publish_def)

lemma video_file_body_fault:
  "copy_fault t = Some e \<Longrightarrow> detect_people self frame = Inr (f, n, ds) \<Longrightarrow>
     detect_fall self ds f = Inr (fd, fb) \<Longrightarrow>
     video_file_body self h q t frame = (Raised e, (self, h, q))"
  by (simp add: video_file_body_def annotate_fault)

lemma ip_camera_body_fault:
  "copy_fault t = Some e \<Longrightarrow>
     \<exists>people'. length people' = length people \<and>
        ip_camera_body self h q t people = (people', Raised e, (self, h, q))"
proof -
  obtain people' ds fd fb where
    sim: "simulate_people 0 people (randoms t) ([], False, None) = (people', ds, fd, fb)"
    by (metis prod.exhaust)
  assume "copy_fault t = Some e"
  then have "copy_fault (tick.truncate t) = Some e" by (simp add: tick.truncate_def)
  with sim simulate_people_lengths [OF sim] show ?thesis
    by (simp add: ip_camera_body_def annotate_fault)
qed

lemma worker_step_raised:
  assumes "find (\<lambda>th. thread_id th = tid) (threads (rt a)) = Some th"
    and "video_processors a (owner th) = Some self"
    and "running self"
    and "frame_queues a (frame_queue self) = Some q"
  shows "locals th = File_job cap \<Longrightarrow> opened cap \<Longrightarrow> pending cap = (frame, t) # rest \<Longrightarrow>
           video_file_body self (dicts a) q t frame = (Raised e, st) \<Longrightarrow>
           worker_step a tid tk = finish (publish a (owner th) st) tid"
    and "locals th = Ip_job people \<Longrightarrow>
           ip_camera_body self (dicts a) q tk people = (people', Raised e, st) \<Longrightarrow>
           worker_step a tid tk = finish (publish a (owner th) st) tid"
  using assms by (simp_all add: worker_step_def settle_def)

lemma finish_removes: "tid \<notin> thread_id ` set (threads (rt (finish a tid)))"
  by (auto simp: finish_def)

lemma finish_publish_queue:
  "frame_queues (finish (publish a cid (self, h, q)) tid) (frame_queue self) = Some q"
  by (simp add: finish_def publish_def)

lemma demo_second_pass:
  "video_file_body (demo_worker2\<lparr>frame_count := 1\<rparr>) h q
       \<lparr>overlay_clock = c1, status_clock = c2, copy_fault = Some MemoryError\<rparr> frame =
     (Raised MemoryError, (demo_worker2\<lparr>frame_count := 1\<rparr>, h, q))"
proof -
  have "detect_people (demo_worker2\<lparr>frame_count := 1\<rparr>) frame = Inr (frame, 0, [])"
    by (simp add: detect_people_def detect_people_try_def demo_worker2_def
        demo_failing_model_def)
  then show ?thesis
    by (simp add: video_file_body_def annotate_fault)
qed

lemma demo_first_step:
  "\<exists>fr. worker_step demo_app_video 0 tk =
     set_locals
       (publish demo_app_video 2
          (demo_worker2\<lparr>frame_count := 1\<rparr>,
           write_status demo_worker2 (dicts demo_app_video) 0 False ''2024-01-01T00:00:01'',
           \<lparr>maxsize = 10, entries = [fr]\<rparr>))
       0 (File_job (demo_capture\<lparr>pending := tl (pending demo_capture)\<rparr>))"
proof -
  let ?q = "\<lparr>maxsize = 10, entries = []\<rparr> :: frame py_queue"
  let ?t1 = "\<lparr>overlay_clock = ''2024-01-01 00:00:01'', status_clock = ''2024-01-01T00:00:01'',
              copy_fault = None\<rparr>"
  let ?f1 = "demo_frame\<lparr>origin := Decoded 1\<rparr>"
  have run: "running demo_worker2" "frame_queue demo_worker2 = 2"
    by (simp_all add: demo_worker2_def)
  have cap: "opened demo_capture" "\<exists>rest. pending demo_capture = (?f1, ?t1) # rest"
    by (simp_all add: demo_capture_def)
  then obtain rest where rest: "pending demo_capture = (?f1, ?t1) # rest" by blast
  from demo_first_pass [of "dicts demo_app_video" "''2024-01-01 00:00:01''"
      "''2024-01-01T00:00:01''" ?f1]
  obtain fr where b1:
    "video_file_body demo_worker2 (dicts demo_app_video) ?q ?t1 ?f1 =
       (Continues,
        (demo_worker2\<lparr>frame_count := 1\<rparr>,
         write_status demo_worker2 (dicts demo_app_video) 0 False ''2024-01-01T00:00:01'',
         \<lparr>maxsize = 10, entries = [fr]\<rparr>))"
    unfolding demo_worker2_counted by blast
  have "worker_step demo_app_video 0 tk =
     set_locals
       (publish demo_app_video 2
          (demo_worker2\<lparr>frame_count := 1\<rparr>,
           write_status demo_worker2 (dicts demo_app_video) 0 False ''2024-01-01T00:00:01'',
           \<lparr>maxsize = 10, entries = [fr]\<rparr>))
       0 (File_job (demo_capture\<lparr>pending := tl (pending demo_capture)\<rparr>))"
    using run cap(1)
    by (simp add: worker_step_def demo_app_video_state rest b1 settle_def del: One_nat_def)
  then show ?thesis by blast
qed

lemma demo_stepped_state:
  assumes "a1 = set_locals
       (publish demo_app_video 2
          (demo_worker2\<lparr>frame_count := 1\<rparr>,
           write_status demo_worker2 (dicts demo_app_video) 0 False ''2024-01-01T00:00:01'',
           \<lparr>maxsize = 10, entries = [fr]\<rparr>))
       0 (File_job (demo_capture\<lparr>pending := tl (pending demo_capture)\<rparr>))"
  shows "threads (rt a1) =
           [\<lparr>thread_id = 0, owner = 2,
             locals = File_job (demo_capture\<lparr>pending := tl (pending demo_capture)\<rparr>)\<rparr>]"
    and "video_processors a1 2 = Some (demo_worker2\<lparr>frame_count := 1\<rparr>)"
    and "frame_queues a1 2 = Some \<lparr>maxsize = 10, entries = [fr]\<rparr>"
    and "dicts a1 =
           write_status demo_worker2 (dicts demo_app_video) 0 False ''2024-01-01T00:00:01''"
  by (simp_all add: assms set_locals_def publish_def demo_app_video_state demo_worker2_def)

text \<open>
  Claim C3 says that an exception raised while a frame is processed is caught within
  the iteration and the loop goes on.  Only \<^verbatim>\<open>detect_people\<close> has a handler.  Camera 2
  is given a file of three frames.  On the first frame the model call raises: the
  exception is caught, the frame is annotated and queued and the thread goes on.  On the
  second frame \<^verbatim>\<open>frame.copy()\<close> in \<^verbatim>\<open>draw_detections\<close> raises
  \<^verbatim>\<open>MemoryError\<close>: \<^verbatim>\<open>process_video_file\<close> ends with that exception, the thread is
  gone with the third frame still pending, and the queue holds the first frame only.
\<close>

theorem frame_exception_ends_worker:
  "(\<exists>fr. process_video_file demo_worker2 (dicts demo_app_video) \<lparr>maxsize = 10, entries = []\<rparr>
            demo_capture =
          (Raised MemoryError,
           (demo_worker2\<lparr>frame_count := 1\<rparr>,
            write_status demo_worker2 (dicts demo_app_video) 0 False ''2024-01-01T00:00:01'',
            \<lparr>maxsize = 10, entries = [fr]\<rparr>))) \<and>
   threads (rt demo_app_video) = [\<lparr>thread_id = 0, owner = 2, locals = File_job demo_capture\<rparr>] \<and>
   threads (rt (worker_step demo_app_video 0 demo_tick)) =
     [\<lparr>thread_id = 0, owner = 2,
       locals = File_job (demo_capture\<lparr>pending := tl (pending demo_capture)\<rparr>)\<rparr>] \<and>
   length (pending (demo_capture\<lparr>pending := tl (pending demo_capture)\<rparr>)) = 2 \<and>
   threads (rt (worker_step (worker_step demo_app_video 0 demo_tick) 0 demo_tick)) = [] \<and>
   (\<exists>fr. frame_queues (worker_step (worker_step demo_app_video 0 demo_tick) 0 demo_tick) 2 =
          Some \<lparr>maxsize = 10, entries = [fr]\<rparr>)"
proof -
  let ?q = "\<lparr>maxsize = 10, entries = []\<rparr> :: frame py_queue"
  let ?h = "dicts demo_app_video"
  let ?w1 = "demo_worker2\<lparr>frame_count := 1\<rparr>"
  let ?h1 = "write_status demo_worker2 ?h 0 False ''2024-01-01T00:00:01''"
  let ?t1 = "\<lparr>overlay_clock = ''2024-01-01 00:00:01'', status_clock = ''2024-01-01T00:00:01'',
              copy_fault = None\<rparr>"
  let ?t2 = "\<lparr>overlay_clock = ''2024-01-01 00:00:02'', status_clock = ''2024-01-01T00:00:02'',
              copy_fault = Some MemoryError\<rparr>"
  let ?t3 = "\<lparr>overlay_clock = ''2024-01-01 00:00:03'', status_clock = ''2024-01-01T00:00:03'',
              copy_fault = None\<rparr>"
  let ?f1 = "demo_frame\<lparr>origin := Decoded 1\<rparr>"
  let ?f2 = "demo_frame\<lparr>origin := Decoded 2\<rparr>"
  let ?f3 = "demo_frame\<lparr>origin := Decoded 3\<rparr>"
  let ?cap1 = "demo_capture\<lparr>pending := tl (pending demo_capture)\<rparr>"
  have run: "running demo_worker2" "frame_queue demo_worker2 = 2"
      "running ?w1" "frame_queue ?w1 = 2"
    by (simp_all add: demo_worker2_def)
  have cap: "opened demo_capture" "pending demo_capture = [(?f1, ?t1), (?f2, ?t2), (?f3, ?t3)]"
      "opened ?cap1" "pending ?cap1 = [(?f2, ?t2), (?f3, ?t3)]"
    by (simp_all add: demo_capture_def)
  from demo_first_pass [of ?h "''2024-01-01 00:00:01''" "''2024-01-01T00:00:01''" ?f1]
  obtain fr where b1:
    "video_file_body demo_worker2 ?h ?q ?t1 ?f1 =
       (Continues, (?w1, ?h1, \<lparr>maxsize = 10, entries = [fr]\<rparr>))"
    unfolding demo_worker2_counted by blast
  let ?q1 = "\<lparr>maxsize = 10, entries = [fr]\<rparr> :: frame py_queue"
  have b2: "video_file_body ?w1 ?h1 ?q1 ?t2 ?f2 = (Raised MemoryError, (?w1, ?h1, ?q1))"
    by (rule demo_second_pass)
  have loop: "process_video_file demo_worker2 ?h ?q demo_capture =
      (Raised MemoryError, (?w1, ?h1, ?q1))"
    using run by (simp add: process_video_file_def cap b1 b2 del: One_nat_def)
  define a1 where "a1 = worker_step demo_app_video 0 demo_tick"
  have f0: "find (\<lambda>th. thread_id th = 0) (threads (rt demo_app_video)) =
      Some \<lparr>thread_id = 0, owner = 2, locals = File_job demo_capture\<rparr>"
    by (simp add: demo_app_video_state)
  have s1: "a1 = set_locals (publish demo_app_video 2 (?w1, ?h1, ?q1)) 0 (File_job ?cap1)"
    using run
    by (simp add: a1_def worker_step_def demo_app_video_state cap b1 settle_def
        del: One_nat_def)
  then have a1: "threads (rt a1) = [\<lparr>thread_id = 0, owner = 2, locals = File_job ?cap1\<rparr>]"
      "video_processors a1 2 = Some ?w1" "frame_queues a1 2 = Some ?q1" "dicts a1 = ?h1"
    using run by (simp_all add: set_locals_def publish_def demo_app_video_state)
  have f1: "find (\<lambda>th. thread_id th = 0) (threads (rt a1)) =
      Some \<lparr>thread_id = 0, owner = 2, locals = File_job ?cap1\<rparr>"
    by (simp add: a1)
  have "worker_step a1 0 demo_tick = finish (publish a1 2 (?w1, ?h1, ?q1)) 0"
    using worker_step_raised(1) [OF f1, of ?w1 ?q1 ?cap1 ?f2 ?t2 "[(?f3, ?t3)]" MemoryError
        "(?w1, ?h1, ?q1)" demo_tick] run
    by (simp add: a1 cap b2)
  then have s2: "threads (rt (worker_step a1 0 demo_tick)) = []"
      "frame_queues (worker_step a1 0 demo_tick) 2 = Some ?q1"
    using run by (simp_all add: finish_def publish_def a1)
  have "\<exists>fr. frame_queues (worker_step a1 0 demo_tick) 2 = Some \<lparr>maxsize = 10, entries = [fr]\<rparr>"
    using s2(2) by blast
  moreover have "\<exists>fr. process_video_file demo_worker2 ?h ?q demo_capture =
      (Raised MemoryError, (?w1, ?h1, \<lparr>maxsize = 10, entries = [fr]\<rparr>))"
    using loop by blast
  ultimately show ?thesis
    using s2(1) a1(1) by (simp add: a1_def demo_app_video_state cap)
qed


text \<open>
  Claim C3 as amended.  An exception raised inside the \<^verbatim>\<open>try\<close> of
  \<^verbatim>\<open>detect_people\<close> is caught there: the pass goes on as for a frame with no
  detections, the frame is queued and the loop takes the next frame.  The loops
  themselves have no handler: when \<^verbatim>\<open>frame.copy()\<close> in \<^verbatim>\<open>draw_detections\<close>
  raises, the pass ends with that exception and with the processor, the dictionaries
  and the queue unchanged, \<^verbatim>\<open>process_video_file\<close> ends with it at that frame, and the
  thread of either loop is no longer running afterwards while the queue is as it was.
\<close>

theorem worker_loop_exceptions:
  "(\<forall>m e. model self = Some m \<longrightarrow> detect_people_try m frame = Inl e \<longrightarrow>
      video_file_body self h q t frame =
        annotate_and_publish self h q t frame [] 0 False None) \<and>
   (\<forall>m e rest. model self = Some m \<longrightarrow> detect_people_try m frame = Inl e \<longrightarrow>
      running self \<longrightarrow> copy_fault t = None \<longrightarrow> \<bar>total_people_count self\<bar> < 2 ^ 1023 \<longrightarrow>
      0 < maxsize q \<longrightarrow> int (length (entries q)) \<le> maxsize q \<longrightarrow>
      (\<exists>self' h' q' fr.
         video_file_body self h q t frame = (Continues, (self', h', q')) \<and>
         entries q' = drop (Suc (length (entries q)) - nat (maxsize q)) (entries q @ [fr]) \<and>
         process_video_frames True ((frame, t) # rest) self h q =
           process_video_frames True rest self' h' q')) \<and>
   (\<forall>e f n ds fd fb. copy_fault t = Some e \<longrightarrow> detect_people self frame = Inr (f, n, ds) \<longrightarrow>
      detect_fall self ds f = Inr (fd, fb) \<longrightarrow>
      video_file_body self h q t frame = (Raised e, (self, h, q))) \<and>
   (\<forall>e st rest. running self \<longrightarrow> video_file_body self h q t frame = (Raised e, st) \<longrightarrow>
      process_video_frames True ((frame, t) # rest) self h q = (Raised e, st)) \<and>
   (\<forall>a tid th cap rest e tk.
      find (\<lambda>th. thread_id th = tid) (threads (rt a)) = Some th \<longrightarrow>
      locals th = File_job cap \<longrightarrow> opened cap \<longrightarrow> pending cap = (frame, t) # rest \<longrightarrow>
      video_processors a (owner th) = Some self \<longrightarrow> running self \<longrightarrow>
      frame_queues a (frame_queue self) = Some q \<longrightarrow> dicts a = h \<longrightarrow>
      video_file_body self h q t frame = (Raised e, (self, h, q)) \<longrightarrow>
      tid \<notin> thread_id ` set (threads (rt (worker_step a tid tk))) \<and>
      frame_queues (worker_step a tid tk) (frame_queue self) = Some q) \<and>
   (\<forall>a tid th people e tk.
      find (\<lambda>th. thread_id th = tid) (threads (rt a)) = Some th \<longrightarrow>
      locals th = Ip_job people \<longrightarrow>
      video_processors a (owner th) = Some self \<longrightarrow> running self \<longrightarrow>
      frame_queues a (frame_queue self) = Some q \<longrightarrow> dicts a = h \<longrightarrow>
      copy_fault tk = Some e \<longrightarrow>
      ip_camera_body self h q tk people =
        (fst (ip_camera_body self h q tk people), Raised e, (self, h, q)) \<and>
      tid \<notin> thread_id ` set (threads (rt (worker_step a tid tk))) \<and>
      frame_queues (worker_step a tid tk) (frame_queue self) = Some q)"
proof ((intro conjI); (intro allI impI))
  fix m e
  assume "model self = Some m" "detect_people_try m frame = Inl e"
  then show "video_file_body self h q t frame =
      annotate_and_publish self h q t frame [] 0 False None"
    by (rule video_file_body_caught)
next
  fix m e rest
  assume m: "model self = Some m" "detect_people_try m frame = Inl e"
    and run: "running self" and ok: "copy_fault t = None"
    and small: "\<bar>total_people_count self\<bar> < 2 ^ 1023"
    and cap: "0 < maxsize q" "int (length (entries q)) \<le> maxsize q"
  have b: "video_file_body self h q t frame =
      annotate_and_publish self h q t frame [] 0 False None"
    using m by (rule video_file_body_caught)
  from small have "\<bar>total_people_count self + 0\<bar> < 2 ^ 1023" by simp
  from annotate_and_publish_ok [OF this cap ok, of h frame "[]" False None]
  obtain fr where ann: "annotate_and_publish self h q t frame [] 0 False None =
      (Continues,
       (self\<lparr>total_people_count := total_people_count self + 0,
             frame_count := frame_count self + 1,
             max_people_count := max (max_people_count self) 0\<rparr>,
        write_status self h 0 False (status_clock t),
        q\<lparr>entries := drop (Suc (length (entries q)) - nat (maxsize q)) (entries q @ [fr])\<rparr>))"
    by blast
  let ?self' = "self\<lparr>total_people_count := total_people_count self + 0,
             frame_count := frame_count self + 1,
             max_people_count := max (max_people_count self) 0\<rparr>"
  let ?h' = "write_status self h 0 False (status_clock t)"
  let ?q' = "q\<lparr>entries := drop (Suc (length (entries q)) - nat (maxsize q)) (entries q @ [fr])\<rparr>"
  have body: "video_file_body self h q t frame = (Continues, (?self', ?h', ?q'))"
    by (simp only: b ann)
  have "process_video_frames True ((frame, t) # rest) self h q =
      process_video_frames True rest ?self' ?h' ?q'"
    using run by (simp only: process_video_frames.simps body) simp
  moreover have "entries ?q' =
      drop (Suc (length (entries q)) - nat (maxsize q)) (entries q @ [fr])"
    by simp
  ultimately show "\<exists>self' h' q' fr.
         video_file_body self h q t frame = (Continues, (self', h', q')) \<and>
         entries q' = drop (Suc (length (entries q)) - nat (maxsize q)) (entries q @ [fr]) \<and>
         process_video_frames True ((frame, t) # rest) self h q =
           process_video_frames True rest self' h' q'"
    using body by blast
next
  fix e f n ds fd fb
  assume "copy_fault t = Some e" "detect_people self frame = Inr (f, n, ds)"
    "detect_fall self ds f = Inr (fd, fb)"
  then show "video_file_body self h q t frame = (Raised e, (self, h, q))"
    by (rule video_file_body_fault)
next
  fix e st rest
  assume "running self" "video_file_body self h q t frame = (Raised e, st)"
  then show "process_video_frames True ((frame, t) # rest) self h q = (Raised e, st)"
    by simp
next
  fix a :: app and tid th cap rest e and tk :: ip_tick
  assume th: "find (\<lambda>th. thread_id th = tid) (threads (rt a)) = Some th"
    and job: "locals th = File_job cap" "opened cap" "pending cap = (frame, t) # rest"
    and p: "video_processors a (owner th) = Some self" and run: "running self"
    and q: "frame_queues a (frame_queue self) = Some q" and h: "dicts a = h"
    and b: "video_file_body self h q t frame = (Raised e, (self, h, q))"
  from b h have "video_file_body self (dicts a) q t frame = (Raised e, (self, h, q))" by simp
  from worker_step_raised(1) [OF th p run q job this]
  have "worker_step a tid tk = finish (publish a (owner th) (self, h, q)) tid" .
  then show "tid \<notin> thread_id ` set (threads (rt (worker_step a tid tk))) \<and>
      frame_queues (worker_step a tid tk) (frame_queue self) = Some q"
    by (simp only: finish_removes finish_publish_queue) simp
next
  fix a :: app and tid th people e and tk :: ip_tick
  assume th: "find (\<lambda>th. thread_id th = tid) (threads (rt a)) = Some th"
    and job: "locals th = Ip_job people"
    and p: "video_processors a (owner th) = Some self" and run: "running self"
    and q: "frame_queues a (frame_queue self) = Some q" and h: "dicts a = h"
    and fault: "copy_fault tk = Some e"
  from ip_camera_body_fault [OF fault, of people self h q]
  obtain people' where b: "ip_camera_body self h q tk people = (people', Raised e, (self, h, q))"
    by blast
  from b h have "ip_camera_body self (dicts a) q tk people = (people', Raised e, (self, h, q))"
    by simp
  from worker_step_raised(2) [OF th p run q job this]
  have "worker_step a tid tk = finish (publish a (owner th) (self, h, q)) tid" .
  then have "tid \<notin> thread_id ` set (threads (rt (worker_step a tid tk))) \<and>
      frame_queues (worker_step a tid tk) (frame_queue self) = Some q"
    by (simp only: finish_removes finish_publish_queue) simp
  with b show "ip_camera_body self h q tk people =
        (fst (ip_camera_body self h q tk people), Raised e, (self, h, q)) \<and>
      tid \<notin> thread_id ` set (threads (rt (worker_step a tid tk))) \<and>
      frame_queues (worker_step a tid tk) (frame_queue self) = Some q"
    by simp
qed


theorem worker_loop_exceptions_witness:
  "(\<exists>self' h' q' fr.
      video_file_body demo_worker2 (dicts demo_app_video) \<lparr>maxsize = 10, entries = []\<rparr>
        \<lparr>overlay_clock = ''2024-01-01 00:00:01'', status_clock = ''2024-01-01T00:00:01'',
          copy_fault = None\<rparr> demo_frame =
      (Continues, (self', h', q')) \<and> entries q' = [fr]) \<and>
   video_file_body demo_worker2 (dicts demo_app_video) \<lparr>maxsize = 10, entries = []\<rparr>
       \<lparr>overlay_clock = ''2024-01-01 00:00:02'', status_clock = ''2024-01-01T00:00:02'',
         copy_fault = Some MemoryError\<rparr> demo_frame =
     (Raised MemoryError,
      (demo_worker2, dicts demo_app_video, \<lparr>maxsize = 10, entries = []\<rparr>)) \<and>
   process_video_frames True
       [(demo_frame,
         \<lparr>overlay_clock = ''2024-01-01 00:00:02'', status_clock = ''2024-01-01T00:00:02'',
           copy_fault = Some MemoryError\<rparr>),
        (demo_frame, \<lparr>overlay_clock = [], status_clock = [], copy_fault = None\<rparr>)]
       demo_worker2 (dicts demo_app_video) \<lparr>maxsize = 10, entries = []\<rparr> =
     (Raised MemoryError,
      (demo_worker2, dicts demo_app_video, \<lparr>maxsize = 10, entries = []\<rparr>)) \<and>
   0 \<notin> thread_id `
       set (threads (rt (worker_step (worker_step demo_app_video 0 demo_tick) 0 demo_tick))) \<and>
   0 \<notin> thread_id `
       set (threads (rt (worker_step demo_app1 0 (demo_tick\<lparr>copy_fault := Some MemoryError\<rparr>)))) \<and>
   frame_queues (worker_step demo_app1 0 (demo_tick\<lparr>copy_fault := Some MemoryError\<rparr>)) 1 =
     Some \<lparr>maxsize = 10, entries = []\<rparr>"
proof -
  let ?q = "\<lparr>maxsize = 10, entries = []\<rparr> :: frame py_queue"
  let ?h = "dicts demo_app_video"
  let ?t1 = "\<lparr>overlay_clock = ''2024-01-01 00:00:01'', status_clock = ''2024-01-01T00:00:01'',
              copy_fault = None\<rparr>"
  let ?t = "\<lparr>overlay_clock = ''2024-01-01 00:00:02'', status_clock = ''2024-01-01T00:00:02'',
             copy_fault = Some MemoryError\<rparr>"
  let ?t3 = "\<lparr>overlay_clock = ''2024-01-01 00:00:03'', status_clock = ''2024-01-01T00:00:03'',
              copy_fault = None\<rparr>"
  let ?f2 = "demo_frame\<lparr>origin := Decoded 2\<rparr>"
  let ?f3 = "demo_frame\<lparr>origin := Decoded 3\<rparr>"
  let ?w1 = "demo_worker2\<lparr>frame_count := 1\<rparr>"
  let ?h1 = "write_status demo_worker2 ?h 0 False ''2024-01-01T00:00:01''"
  let ?cap1 = "demo_capture\<lparr>pending := tl (pending demo_capture)\<rparr>"
  have m: "model demo_worker2 = Some demo_failing_model"
      "detect_people_try demo_failing_model demo_frame = Inl (LibraryError ''CUDA out of memory'')"
    by (simp_all add: demo_worker2_def detect_people_try_def demo_failing_model_def)
  have run: "running demo_worker2" "\<bar>total_people_count demo_worker2\<bar> < 2 ^ 1023"
      "running ?w1" "frame_queue ?w1 = 2"
    by (simp_all add: demo_worker2_def)
  have dp: "detect_people demo_worker2 demo_frame = Inr (demo_frame, 0, [])"
    by (simp add: detect_people_def detect_people_try_def demo_worker2_def
        demo_failing_model_def)
  have df: "detect_fall demo_worker2 [] demo_frame = Inr (False, None)" by simp
  note w1 = worker_loop_exceptions [of demo_worker2 demo_frame ?h ?q ?t1]
  from w1 have "\<forall>m e rest. model demo_worker2 = Some m \<longrightarrow>
      detect_people_try m demo_frame = Inl e \<longrightarrow>
      running demo_worker2 \<longrightarrow> copy_fault ?t1 = None \<longrightarrow>
      \<bar>total_people_count demo_worker2\<bar> < 2 ^ 1023 \<longrightarrow>
      0 < maxsize ?q \<longrightarrow> int (length (entries ?q)) \<le> maxsize ?q \<longrightarrow>
      (\<exists>self' h' q' fr.
         video_file_body demo_worker2 ?h ?q ?t1 demo_frame = (Continues, (self', h', q')) \<and>
         entries q' = drop (Suc (length (entries ?q)) - nat (maxsize ?q)) (entries ?q @ [fr]) \<and>
         process_video_frames True ((demo_frame, ?t1) # rest) demo_worker2 ?h ?q =
           process_video_frames True rest self' h' q')"
    by (elim conjE)
  from this [rule_format, OF m run(1) _ run(2), of "[]"]
  have A: "\<exists>self' h' q' fr.
      video_file_body demo_worker2 ?h ?q ?t1 demo_frame = (Continues, (self', h', q')) \<and>
      entries q' = [fr]"
    by auto
  note w = worker_loop_exceptions [of demo_worker2 demo_frame ?h ?q ?t]
  have cf: "copy_fault ?t = Some MemoryError" by simp
  from w have "\<forall>e f n ds fd fb. copy_fault ?t = Some e \<longrightarrow>
      detect_people demo_worker2 demo_frame = Inr (f, n, ds) \<longrightarrow>
      detect_fall demo_worker2 ds f = Inr (fd, fb) \<longrightarrow>
      video_file_body demo_worker2 ?h ?q ?t demo_frame = (Raised e, (demo_worker2, ?h, ?q))"
    by (elim conjE)
  with cf dp df have b: "video_file_body demo_worker2 ?h ?q ?t demo_frame =
      (Raised MemoryError, (demo_worker2, ?h, ?q))"
    by blast
  from w have "\<forall>e st rest. running demo_worker2 \<longrightarrow>
      video_file_body demo_worker2 ?h ?q ?t demo_frame = (Raised e, st) \<longrightarrow>
      process_video_frames True ((demo_frame, ?t) # rest) demo_worker2 ?h ?q = (Raised e, st)"
    by (elim conjE)
  with run(1) b have B: "process_video_frames True
      [(demo_frame, ?t), (demo_frame, \<lparr>overlay_clock = [], status_clock = [], copy_fault = None\<rparr>)]
      demo_worker2 ?h ?q = (Raised MemoryError, (demo_worker2, ?h, ?q))"
    by blast
  obtain fr where s1: "worker_step demo_app_video 0 demo_tick =
      set_locals (publish demo_app_video 2 (?w1, ?h1, \<lparr>maxsize = 10, entries = [fr]\<rparr>)) 0
        (File_job ?cap1)"
    using demo_first_step [of demo_tick] by blast
  let ?q1 = "\<lparr>maxsize = 10, entries = [fr]\<rparr> :: frame py_queue"
  define a1 where "a1 = worker_step demo_app_video 0 demo_tick"
  note a1 = demo_stepped_state [OF s1 [folded a1_def]]
  have f1: "find (\<lambda>th. thread_id th = 0) (threads (rt a1)) =
      Some \<lparr>thread_id = 0, owner = 2, locals = File_job ?cap1\<rparr>"
    by (simp add: a1)
  have cap: "opened ?cap1" "pending ?cap1 = [(?f2, ?t), (?f3, ?t3)]"
    by (simp_all add: demo_capture_def)
  have b2: "video_file_body ?w1 ?h1 ?q1 ?t ?f2 = (Raised MemoryError, (?w1, ?h1, ?q1))"
    by (rule demo_second_pass)
  note w2 = worker_loop_exceptions [of ?w1 ?f2 ?h1 ?q1 ?t]
  from w2 have "\<forall>a tid th cap rest e tk.
      find (\<lambda>th. thread_id th = tid) (threads (rt a)) = Some th \<longrightarrow>
      locals th = File_job cap \<longrightarrow> opened cap \<longrightarrow> pending cap = (?f2, ?t) # rest \<longrightarrow>
      video_processors a (owner th) = Some ?w1 \<longrightarrow> running ?w1 \<longrightarrow>
      frame_queues a (frame_queue ?w1) = Some ?q1 \<longrightarrow> dicts a = ?h1 \<longrightarrow>
      video_file_body ?w1 ?h1 ?q1 ?t ?f2 = (Raised e, (?w1, ?h1, ?q1)) \<longrightarrow>
      tid \<notin> thread_id ` set (threads (rt (worker_step a tid tk))) \<and>
      frame_queues (worker_step a tid tk) (frame_queue ?w1) = Some ?q1"
    by (elim conjE)
  from this [rule_format, OF f1 _ cap(1) _ _ run(3) _ a1(4) b2, of "[(?f3, ?t3)]" demo_tick]
  have C: "0 \<notin> thread_id ` set (threads (rt (worker_step a1 0 demo_tick)))"
    using cap(2) a1(2,3) run(4) by simp
  let ?tk = "demo_tick\<lparr>copy_fault := Some MemoryError\<rparr>"
  note w3 = worker_loop_exceptions [of demo_worker1 demo_frame "dicts demo_app1" ?q ?t]
  have f0: "find (\<lambda>th. thread_id th = 0) (threads (rt demo_app1)) =
      Some \<lparr>thread_id = 0, owner = 1, locals = Ip_job person_positions\<rparr>"
    by (simp add: demo_app1_threads)
  have r1: "running demo_worker1" "frame_queue demo_worker1 = 1"
    by (simp_all add: demo_worker1_def)
  from w3 have "\<forall>a tid th people e tk.
      find (\<lambda>th. thread_id th = tid) (threads (rt a)) = Some th \<longrightarrow>
      locals th = Ip_job people \<longrightarrow>
      video_processors a (owner th) = Some demo_worker1 \<longrightarrow> running demo_worker1 \<longrightarrow>
      frame_queues a (frame_queue demo_worker1) = Some ?q \<longrightarrow> dicts a = dicts demo_app1 \<longrightarrow>
      copy_fault tk = Some e \<longrightarrow>
      ip_camera_body demo_worker1 (dicts demo_app1) ?q tk people =
        (fst (ip_camera_body demo_worker1 (dicts demo_app1) ?q tk people), Raised e,
         (demo_worker1, dicts demo_app1, ?q)) \<and>
      tid \<notin> thread_id ` set (threads (rt (worker_step a tid tk))) \<and>
      frame_queues (worker_step a tid tk) (frame_queue demo_worker1) = Some ?q"
    by (elim conjE)
  from this [rule_format, OF f0 _ _ r1(1) _ refl, of person_positions ?tk MemoryError]
  have D: "0 \<notin> thread_id ` set (threads (rt (worker_step demo_app1 0 ?tk))) \<and>
      frame_queues (worker_step demo_app1 0 ?tk) 1 = Some ?q"
    using r1(2) by (simp add: demo_app1_processor demo_app1_queue)
  from A b B C D show ?thesis
    unfolding a1_def by (simp only: simp_thms)
qed

end
